(* ===== verification/Prelude.thy ===== *)
theory Prelude
  imports
    Main
    "HOL-Library.Char_ord"
    "HOL-Library.List_Lexorder"
    "HOL-Library.AList"
begin

text \<open>
  Shared vocabulary of the development: the simplification collections, results of
  fallible Go functions, the functions of Go's \<^verbatim>\<open>strings\<close> and \<^verbatim>\<open>sort\<close>
  packages that certplane calls, and Go maps keyed by strings.

  Go strings are byte sequences, and so is \<^typ>\<open>string\<close> (a list of 8-bit characters);
  the order on strings is the bytewise lexicographic one, as in Go.
\<close>

named_theorems gostr \<open>characterisations of the string functions\<close>
named_theorems gomap \<open>laws of the association-list model of Go maps\<close>

section \<open>Results of fallible functions\<close>

text \<open>A Go function returning \<^verbatim>\<open>(T, error)\<close> is \<^typ>\<open>'e + 'a\<close>, the error on the left.\<close>

type_synonym ('e, 'a) result = "'e + 'a"

definition is_ok :: "('e, 'a) result \<Rightarrow> bool" where
  "is_ok r = (case r of Inl _ \<Rightarrow> False | Inr _ \<Rightarrow> True)"

text \<open>
  A loop that applies a fallible function to every element and stops at the first error.
\<close>

fun try_map :: "('a \<Rightarrow> ('e, 'b) result) \<Rightarrow> 'a list \<Rightarrow> ('e, 'b list) result" where
  "try_map f [] = Inr []"
| "try_map f (x # xs) =
     (case f x of
        Inl e \<Rightarrow> Inl e
      | Inr y \<Rightarrow> (case try_map f xs of Inl e \<Rightarrow> Inl e | Inr ys \<Rightarrow> Inr (y # ys)))"

text \<open>\<^verbatim>\<open>errors.Join\<close>: no error at all when every member is absent.\<close>

definition join_errors :: "'e list \<Rightarrow> 'e list option" where
  "join_errors es = (if es = [] then None else Some es)"

section \<open>Go strings\<close>

abbreviation byte_code :: "char \<Rightarrow> nat" where
  "byte_code c \<equiv> of_char c"

definition is_ascii :: "string \<Rightarrow> bool" where
  "is_ascii s = list_all (\<lambda>c. byte_code c \<le> 127) s"

definition HasPrefix :: "string \<Rightarrow> string \<Rightarrow> bool" where
  "HasPrefix s p = (take (length p) s = p)"

definition HasSuffix :: "string \<Rightarrow> string \<Rightarrow> bool" where
  "HasSuffix s p = HasPrefix (rev s) (rev p)"

definition TrimPrefix :: "string \<Rightarrow> string \<Rightarrow> string" where
  "TrimPrefix s p = (if HasPrefix s p then drop (length p) s else s)"

definition TrimSuffix :: "string \<Rightarrow> string \<Rightarrow> string" where
  "TrimSuffix s p = (if HasSuffix s p then take (length s - length p) s else s)"

fun Contains :: "string \<Rightarrow> string \<Rightarrow> bool" where
  "Contains [] p = (p = [])"
| "Contains (c # s) p = (HasPrefix (c # s) p \<or> Contains s p)"

definition ContainsAny :: "string \<Rightarrow> string \<Rightarrow> bool" where
  "ContainsAny s chars = list_ex (\<lambda>c. c \<in> set chars) s"

text \<open>\<^verbatim>\<open>strings.Split(s, sep)\<close> for a separator of one byte.\<close>

fun split_on :: "char \<Rightarrow> string \<Rightarrow> string list" where
  "split_on d [] = [[]]"
| "split_on d (c # s) =
     (if c = d then [] # split_on d s
      else (case split_on d s of [] \<Rightarrow> [[c]] | w # ws \<Rightarrow> (c # w) # ws))"

fun Join :: "string list \<Rightarrow> string \<Rightarrow> string" where
  "Join [] sep = []"
| "Join [w] sep = w"
| "Join (w # v # ws) sep = w @ sep @ Join (v # ws) sep"

text \<open>
  The white-space runes of \<^verbatim>\<open>unicode.IsSpace\<close>, each by its UTF-8 encoding: six ASCII
  characters, then U+0085, U+00A0, U+1680, U+2000 to U+200A, U+2028, U+2029, U+202F,
  U+205F and U+3000. No encoding is a proper prefix or suffix of another, so decoding a
  rune at either end of a string finds a white-space rune exactly when one of these byte
  sequences is there.
\<close>

definition space_runes :: "string list" where
  "space_runes =
     [[CHR 0x09], [CHR 0x0A], [CHR 0x0B], [CHR 0x0C], [CHR 0x0D], [CHR 0x20],
      [CHR 0xC2, CHR 0x85], [CHR 0xC2, CHR 0xA0], [CHR 0xE1, CHR 0x9A, CHR 0x80],
      [CHR 0xE2, CHR 0x80, CHR 0x80], [CHR 0xE2, CHR 0x80, CHR 0x81],
      [CHR 0xE2, CHR 0x80, CHR 0x82], [CHR 0xE2, CHR 0x80, CHR 0x83],
      [CHR 0xE2, CHR 0x80, CHR 0x84], [CHR 0xE2, CHR 0x80, CHR 0x85],
      [CHR 0xE2, CHR 0x80, CHR 0x86], [CHR 0xE2, CHR 0x80, CHR 0x87],
      [CHR 0xE2, CHR 0x80, CHR 0x88], [CHR 0xE2, CHR 0x80, CHR 0x89],
      [CHR 0xE2, CHR 0x80, CHR 0x8A], [CHR 0xE2, CHR 0x80, CHR 0xA8],
      [CHR 0xE2, CHR 0x80, CHR 0xA9], [CHR 0xE2, CHR 0x80, CHR 0xAF],
      [CHR 0xE2, CHR 0x81, CHR 0x9F], [CHR 0xE3, CHR 0x80, CHR 0x80]]"

function trim_left :: "string list \<Rightarrow> string \<Rightarrow> string" where
  "trim_left encs s =
     (case find (\<lambda>e. e \<noteq> [] \<and> HasPrefix s e) encs of
        None \<Rightarrow> s
      | Some e \<Rightarrow> trim_left encs (drop (length e) s))"
  by pat_completeness auto
termination
proof (relation "measure (\<lambda>(encs, s). length s)")
  fix encs s e
  assume "find (\<lambda>e. e \<noteq> [] \<and> HasPrefix s e) encs = Some e"
  then have "e \<noteq> []" and "take (length e) s = e"
    by (auto simp: find_Some_iff HasPrefix_def)
  then have "e \<noteq> [] \<and> s \<noteq> []" by auto
  then show "((encs, drop (length e) s), (encs, s)) \<in> measure (\<lambda>(encs, s). length s)"
    by simp
qed simp

declare trim_left.simps [simp del]

definition TrimSpace :: "string \<Rightarrow> string" where
  "TrimSpace s =
     rev (trim_left (map rev space_runes) (rev (trim_left space_runes s)))"

text \<open>
  \<^verbatim>\<open>strings.ToLower\<close>. ASCII letters are lowered bytewise. Exactly two runes outside ASCII
  have an ASCII lower case: U+0130 becomes \<open>i\<close> and U+212A (the Kelvin sign) becomes
  \<open>k\<close>. Every other rune outside ASCII is lowered to a rune outside ASCII; which one is
  irrelevant to every caller (each compares the result with ASCII text or rejects it), and
  the model leaves its bytes as they are.
\<close>

definition lower_byte :: "char \<Rightarrow> char" where
  "lower_byte c =
     (if 65 \<le> byte_code c \<and> byte_code c \<le> 90 then char_of (byte_code c + 32) else c)"

fun ToLower :: "string \<Rightarrow> string" where
  "ToLower [] = []"
| "ToLower (c # s) =
     (if HasPrefix (c # s) [CHR 0xC4, CHR 0xB0] then CHR ''i'' # ToLower (drop 1 s)
      else if HasPrefix (c # s) [CHR 0xE2, CHR 0x84, CHR 0xAA] then CHR ''k'' # ToLower (drop 2 s)
      else lower_byte c # ToLower s)"

text \<open>\<^verbatim>\<open>strings.Trim(s, cutset)\<close> and \<^verbatim>\<open>strings.TrimRight\<close> for a cutset of one ASCII byte.\<close>

definition TrimRight1 :: "string \<Rightarrow> char \<Rightarrow> string" where
  "TrimRight1 s d = rev (dropWhile (\<lambda>c. c = d) (rev s))"

definition Trim1 :: "string \<Rightarrow> char \<Rightarrow> string" where
  "Trim1 s d = TrimRight1 (dropWhile (\<lambda>c. c = d) s) d"

section \<open>Go maps keyed by strings\<close>

text \<open>
  A Go map is an association list with distinct keys (\<open>map_wf\<close>): its lookup is
  \<^const>\<open>map_of\<close>, an assignment is \<^const>\<open>AList.update\<close>. Go iterates over a map in an
  unspecified order, here the order of the list; what certplane computes from a map must not
  depend on it.
\<close>

type_synonym 'v strmap = "(string \<times> 'v) list"

definition map_wf :: "'v strmap \<Rightarrow> bool" where
  "map_wf m = distinct (map fst m)"

abbreviation map_get :: "'v strmap \<Rightarrow> string \<Rightarrow> 'v option" where
  "map_get m k \<equiv> map_of m k"

abbreviation map_put :: "string \<Rightarrow> 'v \<Rightarrow> 'v strmap \<Rightarrow> 'v strmap" where
  "map_put k v m \<equiv> AList.update k v m"

text \<open>Go's \<^verbatim>\<open>m[k]\<close>, which reads the zero value \<open>z\<close> of the type for an absent key.\<close>

abbreviation map_at :: "'v \<Rightarrow> 'v strmap \<Rightarrow> string \<Rightarrow> 'v" where
  "map_at z m k \<equiv> (case map_get m k of None \<Rightarrow> z | Some v \<Rightarrow> v)"

abbreviation map_keys :: "'v strmap \<Rightarrow> string list" where
  "map_keys m \<equiv> map fst m"

section \<open>Lemmas on results\<close>

lemma is_ok_iff: "is_ok r \<longleftrightarrow> (\<exists>x. r = Inr x)"
  by (cases r) (simp_all add: is_ok_def)

lemma result_InlD: "(\<And>y. r = Inr y \<longleftrightarrow> P \<and> y = v) \<Longrightarrow> r = Inl e \<Longrightarrow> \<not> P"
  by auto

lemma try_map_Inr_iff: "try_map f xs = Inr ys \<longleftrightarrow> list_all2 (\<lambda>x y. f x = Inr y) xs ys"
proof (induction xs arbitrary: ys)
  case Nil
  show ?case by auto
next
  case (Cons x xs)
  show ?case
  proof (cases "try_map f xs")
    case (Inl e)
    then have "\<not> list_all2 (\<lambda>x y. f x = Inr y) xs zs" for zs
      using Cons.IH [of zs] by simp
    with Inl show ?thesis by (auto simp: list_all2_Cons1 split: sum.splits)
  next
    case (Inr zs)
    then have "list_all2 (\<lambda>x y. f x = Inr y) xs ws \<longleftrightarrow> ws = zs" for ws
      using Cons.IH [of ws] by auto
    with Inr show ?thesis by (auto simp: list_all2_Cons1 split: sum.splits)
  qed
qed

lemma try_map_InlD: "try_map f xs = Inl e \<Longrightarrow> \<exists>x \<in> set xs. f x = Inl e"
  by (induction xs) (auto split: sum.splits)

lemma join_errors_None [simp]: "join_errors es = None \<longleftrightarrow> es = []"
  by (simp add: join_errors_def)

lemma find_SomeD: "find P xs = Some x \<Longrightarrow> x \<in> set xs \<and> P x"
  by (auto simp: find_Some_iff)

section \<open>Lemmas on strings\<close>

lemma char_eq_code: "c = d \<longleftrightarrow> byte_code c = byte_code d"
  by simp

lemma HasPrefix_iff [gostr]: "HasPrefix s p \<longleftrightarrow> (\<exists>t. s = p @ t)"
  unfolding HasPrefix_def by (metis append_eq_conv_conj append_take_drop_id)

lemma HasPrefix_Nil [simp]: "HasPrefix s []"
  by (simp add: HasPrefix_def)

lemma HasPrefix_Cons [simp]: "HasPrefix (c # s) (d # p) \<longleftrightarrow> c = d \<and> HasPrefix s p"
  by (simp add: HasPrefix_def)

lemma HasPrefix_empty [simp]: "HasPrefix [] p \<longleftrightarrow> p = []"
  by (auto simp: HasPrefix_def)

lemma HasPrefix_hd: "HasPrefix s p \<Longrightarrow> p \<noteq> [] \<Longrightarrow> s \<noteq> [] \<and> hd s = hd p"
  by (auto simp: HasPrefix_iff)

lemma HasSuffix_iff [gostr]: "HasSuffix s p \<longleftrightarrow> (\<exists>t. s = t @ p)"
  unfolding HasSuffix_def HasPrefix_iff
  by (metis rev_append rev_rev_ident)

lemma HasSuffix_single [gostr]: "HasSuffix s [c] \<longleftrightarrow> s \<noteq> [] \<and> last s = c"
  by (auto simp: HasSuffix_iff) (metis append_butlast_last_id)

lemma Contains_iff [gostr]: "Contains s p \<longleftrightarrow> (\<exists>u t. s = u @ p @ t)"
proof (induction s)
  case Nil
  show ?case by simp
next
  case (Cons c s)
  have "(\<exists>u t. c # s = u @ p @ t) \<longleftrightarrow>
      (\<exists>t. c # s = p @ t) \<or> (\<exists>u t. s = u @ p @ t)"
    by (auto simp: Cons_eq_append_conv)
  with Cons show ?case by (simp add: HasPrefix_iff)
qed

lemma Contains_single [gostr]: "Contains s [c] \<longleftrightarrow> c \<in> set s"
  by (induction s) auto

lemma ContainsAny_iff [gostr]: "ContainsAny s cs \<longleftrightarrow> (\<exists>c \<in> set cs. c \<in> set s)"
  by (auto simp: ContainsAny_def list_ex_iff)

lemma split_on_nonempty [simp]: "split_on d s \<noteq> []"
  by (induction s) (auto split: list.splits)

lemma split_on_no_sep: "w \<in> set (split_on d s) \<Longrightarrow> d \<notin> set w"
proof (induction s arbitrary: w)
  case Nil
  then show ?case by simp
next
  case (Cons c s)
  then show ?case
    by (cases "split_on d s") (auto split: if_splits)
qed

text \<open>Splitting and joining with the same separator are inverse to each other.\<close>

lemma Join_Cons: "ws \<noteq> [] \<Longrightarrow> Join (w # ws) sep = w @ sep @ Join ws sep"
  by (cases ws) simp_all

lemma Join_tail: "Join (w # ws) sep = w @ concat (map (\<lambda>v. sep @ v) ws)"
  by (induction ws arbitrary: w) simp_all

lemma Join_split_on [simp]: "Join (split_on d s) [d] = s"
proof (induction s)
  case Nil
  show ?case by simp
next
  case (Cons c s)
  show ?case
  proof (cases "c = d")
    case True
    with Cons show ?thesis by (simp add: Join_Cons)
  next
    case False
    obtain w ws where w: "split_on d s = w # ws"
      by (cases "split_on d s") simp_all
    with Cons False show ?thesis by (cases ws) auto
  qed
qed

lemma split_on_append: "split_on d (u @ d # s) = split_on d u @ split_on d s"
proof (induction u)
  case Nil
  show ?case by simp
next
  case (Cons c u)
  obtain w ws where "split_on d u = w # ws"
    by (cases "split_on d u") simp_all
  with Cons show ?case by simp
qed

lemma split_on_single: "d \<notin> set w \<Longrightarrow> split_on d w = [w]"
  by (induction w) auto

lemma split_on_double_sep: "Contains s [d, d] \<Longrightarrow> [] \<in> set (split_on d s)"
  by (auto simp: Contains_iff split_on_append)

lemma split_on_Join:
  "ws \<noteq> [] \<Longrightarrow> \<forall>w \<in> set ws. d \<notin> set w \<Longrightarrow> split_on d (Join ws [d]) = ws"
proof (induction ws)
  case Nil
  then show ?case by simp
next
  case (Cons w ws)
  then show ?case
    by (cases ws) (auto simp: split_on_single split_on_append)
qed

lemma Join_inject:
  assumes "Join us [d] = Join ws [d]" and "us \<noteq> []" and "ws \<noteq> []"
    and "\<forall>w \<in> set us. d \<notin> set w" and "\<forall>w \<in> set ws. d \<notin> set w"
  shows "us = ws"
  using assms by (metis split_on_Join)

lemma set_split_on: "set s = (\<Union>w \<in> set (split_on d s). set w) \<union> (if length (split_on d s) \<ge> 2 then {d} else {})"
proof (induction s)
  case Nil
  show ?case by simp
next
  case (Cons c s)
  obtain w ws where w: "split_on d s = w # ws"
    by (cases "split_on d s") simp_all
  with Cons show ?case
    by (cases "c = d") (auto split: if_splits)
qed

lemma in_split_on_subset: "w \<in> set (split_on d s) \<Longrightarrow> set w \<subseteq> set s"
  using set_split_on [of s d] by auto

lemma trim_left_id:
  "\<forall>e \<in> set encs. e \<noteq> [] \<longrightarrow> \<not> HasPrefix s e \<Longrightarrow> trim_left encs s = s"
  by (subst trim_left.simps) (auto simp: find_None_iff find_Some_iff split: option.splits)

lemma space_runes_nonempty: "[] \<notin> set space_runes"
  by (simp add: space_runes_def)

lemma byte_code_less: "byte_code c < 256"
  by (rule nat_of_char_less_256)

lemma lower_byte_code:
  "byte_code (lower_byte c) =
     (if 65 \<le> byte_code c \<and> byte_code c \<le> 90 then byte_code c + 32 else byte_code c)"
  using byte_code_less [of c] by (simp add: lower_byte_def)

lemma lower_byte_idem [simp]: "lower_byte (lower_byte c) = lower_byte c"
  by (auto simp: lower_byte_def)


text \<open>Strings of printable ASCII characters are left alone by \<^const>\<open>TrimSpace\<close>.\<close>

definition is_graph :: "char \<Rightarrow> bool" where
  "is_graph c \<longleftrightarrow> 33 \<le> byte_code c \<and> byte_code c \<le> 126"

lemma space_runes_not_graph:
  "e \<in> set space_runes \<Longrightarrow> \<not> is_graph (hd e) \<and> \<not> is_graph (last e)"
  by (auto simp: space_runes_def is_graph_def)

lemma trim_left_graph:
  assumes "list_all is_graph s" and "\<forall>e \<in> set encs. e \<noteq> [] \<longrightarrow> \<not> is_graph (hd e)"
  shows "trim_left encs s = s"
proof (rule trim_left_id, intro ballI impI notI)
  fix e
  assume e: "e \<in> set encs" "e \<noteq> []" "HasPrefix s e"
  then have "hd e \<in> set s" by (metis HasPrefix_hd list.set_sel(1))
  with assms e show False by (auto simp: list_all_iff)
qed

lemma TrimSpace_graph: "list_all is_graph s \<Longrightarrow> TrimSpace s = s"
proof -
  assume s: "list_all is_graph s"
  have "trim_left space_runes s = s"
    using s space_runes_not_graph by (intro trim_left_graph) auto
  moreover have "trim_left (map rev space_runes) (rev s) = rev s"
    using s space_runes_not_graph by (intro trim_left_graph) (auto simp: hd_rev)
  ultimately show ?thesis by (simp add: TrimSpace_def)
qed

lemma ToLower_ascii: "is_ascii s \<Longrightarrow> ToLower s = map lower_byte s"
  by (induction s rule: ToLower.induct) (auto simp: is_ascii_def)

lemma lower_byte_id: "\<not> (65 \<le> byte_code c \<and> byte_code c \<le> 90) \<Longrightarrow> lower_byte c = c"
  by (auto simp: lower_byte_def)

lemma trim_left_stuck: "e \<in> set encs \<Longrightarrow> e \<noteq> [] \<Longrightarrow> \<not> HasPrefix (trim_left encs s) e"
proof (induction encs s rule: trim_left.induct)
  case (1 encs s)
  show ?case
  proof (cases "find (\<lambda>e. e \<noteq> [] \<and> HasPrefix s e) encs")
    case None
    then have "trim_left encs s = s" by (simp add: trim_left.simps [of encs s])
    with None "1.prems" show ?thesis by (auto simp: find_None_iff)
  next
    case (Some d)
    with "1.IH" "1.prems" show ?thesis by (simp add: trim_left.simps [of encs s])
  qed
qed

lemma trim_left_suffix: "\<exists>u. s = u @ trim_left encs s"
proof (induction encs s rule: trim_left.induct)
  case (1 encs s)
  show ?case
  proof (cases "find (\<lambda>e. e \<noteq> [] \<and> HasPrefix s e) encs")
    case None
    then show ?thesis by (simp add: trim_left.simps [of encs s])
  next
    case (Some d)
    with "1.IH" obtain u where "drop (length d) s = u @ trim_left encs s"
      by (auto simp: trim_left.simps [of encs s])
    then show ?thesis by (metis append_assoc append_take_drop_id)
  qed
qed

lemma TrimSpace_no_space:
  assumes "e \<in> set space_runes"
  shows "\<not> HasPrefix (TrimSpace s) e" and "\<not> HasPrefix (rev (TrimSpace s)) (rev e)"
proof -
  have e: "e \<noteq> []" using assms space_runes_nonempty by auto
  show "\<not> HasPrefix (rev (TrimSpace s)) (rev e)"
    unfolding TrimSpace_def using assms e by (simp add: trim_left_stuck)
  let ?t = "trim_left space_runes s"
  obtain u where "rev ?t = u @ rev (TrimSpace s)"
    using trim_left_suffix [of "rev ?t" "map rev space_runes"] by (auto simp: TrimSpace_def)
  then have "?t = TrimSpace s @ rev u" by (metis rev_append rev_rev_ident)
  then show "\<not> HasPrefix (TrimSpace s) e"
    using trim_left_stuck [OF assms e, of s] by (auto simp: HasPrefix_iff)
qed

lemma TrimSpace_idem [simp]: "TrimSpace (TrimSpace s) = TrimSpace s"
proof -
  have "trim_left space_runes (TrimSpace s) = TrimSpace s"
    by (rule trim_left_id) (simp add: TrimSpace_no_space)
  moreover have "trim_left (map rev space_runes) (rev (TrimSpace s)) = rev (TrimSpace s)"
    by (rule trim_left_id) (auto simp: TrimSpace_no_space)
  ultimately show ?thesis by (simp add: TrimSpace_def [of "TrimSpace s"])
qed

section \<open>Lemmas on sorted lists\<close>

lemma sorted_list_of_set_unique:
  "sorted xs \<Longrightarrow> distinct xs \<Longrightarrow> sorted_list_of_set (set xs) = xs"
  by (simp add: sorted_list_of_set.idem_if_sorted_distinct)

lemma sort_distinct: "distinct xs \<Longrightarrow> sort xs = sorted_list_of_set (set xs)"
  by (metis sorted_list_of_set_unique distinct_sort set_sort sorted_sort)


lemma distinct_map_sort: "distinct (map f xs) \<longleftrightarrow> distinct (map f (sort xs))"
  by (simp add: distinct_map)

section \<open>Dictionaries\<close>

text \<open>
  The interface of a dictionary with string keys, as Go code uses one: read, assign, list the
  keys. What is computed from the sorted keys depends on the contents only.
\<close>

locale string_dict =
  fixes get :: "'m \<Rightarrow> string \<Rightarrow> 'v option"
    and put :: "string \<Rightarrow> 'v \<Rightarrow> 'm \<Rightarrow> 'm"
    and keys :: "'m \<Rightarrow> string list"
    and wf :: "'m \<Rightarrow> bool"
  assumes get_put: "get (put k v m) = (get m)(k \<mapsto> v)"
    and wf_put: "wf m \<Longrightarrow> wf (put k v m)"
    and set_keys: "set (keys m) = dom (get m)"
    and distinct_keys: "wf m \<Longrightarrow> distinct (keys m)"
begin

lemma sorted_keys: "wf m \<Longrightarrow> sort (keys m) = sorted_list_of_set (dom (get m))"
  by (simp add: sort_distinct distinct_keys set_keys)

lemma sorted_keys_cong: "wf m \<Longrightarrow> wf m' \<Longrightarrow> get m = get m' \<Longrightarrow> sort (keys m) = sort (keys m')"
  by (simp add: sorted_keys)

lemma get_fold_put:
  "get (fold (\<lambda>x. put (f x) (g x)) xs m) k =
     (case find (\<lambda>x. f x = k) (rev xs) of None \<Rightarrow> get m k | Some x \<Rightarrow> Some (g x))"
  by (induction xs rule: rev_induct) (auto simp: get_put)

lemma wf_fold_put: "wf m \<Longrightarrow> wf (fold (\<lambda>x. put (f x) (g x)) xs m)"
  by (induction xs arbitrary: m) (auto simp: wf_put)

lemma get_fold_put_Some:
  assumes "inj_on f (set xs)"
  shows "get (fold (\<lambda>x. put (f x) (g x)) xs m) k = Some v \<longleftrightarrow>
     (\<exists>x \<in> set xs. f x = k \<and> v = g x) \<or> k \<notin> f ` set xs \<and> get m k = Some v"
proof (cases "find (\<lambda>x. f x = k) (rev xs)")
  case None
  then have "k \<notin> f ` set xs" by (auto simp: find_None_iff)
  with None show ?thesis by (auto simp: get_fold_put)
next
  case (Some x)
  then have x: "x \<in> set xs" "f x = k" by (auto dest: find_SomeD)
  then have "(\<exists>y \<in> set xs. f y = k \<and> v = g y) \<longleftrightarrow> v = g x"
    using assms unfolding inj_on_def by metis
  moreover have "get (fold (\<lambda>x. put (f x) (g x)) xs m) k = Some (g x)"
    by (simp only: get_fold_put Some option.case)
  moreover have "k \<in> f ` set xs" using x by blast
  ultimately show ?thesis by auto
qed

lemma dom_fold_put: "dom (get (fold (\<lambda>x. put (f x) (g x)) xs m)) = dom (get m) \<union> f ` set xs"
  by (induction xs arbitrary: m) (auto simp: get_put)

end

interpretation sd: string_dict map_of AList.update "map fst" map_wf
  by unfold_locales (auto simp: map_wf_def update_conv' distinct_update dom_map_of_conv_image_fst)

end
