(* ===== verification/Dnsname.thy ===== *)
theory Dnsname
  imports Prelude
begin

text \<open>
  Package \<^verbatim>\<open>internal/dnsname\<close>: canonical DNS names. Every comparison of names that decides
  whether a certificate may be issued or installed goes through \<open>CanonicalList\<close>, so what is
  shown here is that \<open>Canonical\<close> accepts exactly a small grammar of names and that
  \<open>CanonicalList\<close> and \<open>EqualSet\<close> compare lists of names as sets.
\<close>

section \<open>Canonical names\<close>

datatype dns_error =
    EmptyName
  | NameHasWhitespace string
  | NameHasEmptyLabel string
  | NameNotASCII string
  | InvalidWildcardName string
  | TooFewLabels string
  | LabelTooLong string
  | LabelHyphen string
  | LabelBadChar string char

definition label_char :: "char \<Rightarrow> bool" where
  "label_char r =
     (\<not> ((r < CHR ''a'' \<or> r > CHR ''z'') \<and> (r < CHR ''0'' \<or> r > CHR ''9'') \<and> r \<noteq> CHR ''-''))"

definition IsValidWildcard :: "string \<Rightarrow> bool" where
  "IsValidWildcard name =
     (if \<not> HasPrefix name ''*.'' then False
      else if count_list name (CHR ''*'') \<noteq> 1 then False
      else
        let rest = TrimPrefix name ''*.'';
            labels = split_on (CHR ''.'') rest
        in 2 \<le> length labels \<and> labels ! 0 \<noteq> [] \<and> labels ! 1 \<noteq> [])"

text \<open>The loop over the labels: the first error, if there is one.\<close>

fun check_labels :: "string \<Rightarrow> string list \<Rightarrow> dns_error option" where
  "check_labels name [] = None"
| "check_labels name (label # labels) =
     (if label = [] then Some (NameHasEmptyLabel name)
      else if length label > 63 then Some (LabelTooLong label)
      else if label \<noteq> ''*'' then
        (if HasPrefix label ''-'' \<or> HasSuffix label ''-'' then Some (LabelHyphen label)
         else case find (\<lambda>r. \<not> label_char r) label of
                Some r \<Rightarrow> Some (LabelBadChar label r)
              | None \<Rightarrow> check_labels name labels)
      else check_labels name labels)"

text \<open>The three normalising assignments at the top of \<^verbatim>\<open>Canonical\<close>.\<close>

definition normal_name :: "string \<Rightarrow> string" where
  "normal_name name = ToLower (TrimSuffix (TrimSpace name) ''.'')"

definition Canonical :: "string \<Rightarrow> (dns_error, string) result" where
  "Canonical name0 =
     (let name = normal_name name0 in
      if name = [] then Inl EmptyName
      else if ContainsAny name [CHR 0x20, CHR 0x09, CHR 0x0A, CHR 0x0D]
        then Inl (NameHasWhitespace name)
      else if Contains name ''..'' then Inl (NameHasEmptyLabel name)
      else if \<not> is_ascii name then Inl (NameNotASCII name)
      else if Contains name ''*'' \<and> \<not> IsValidWildcard name then Inl (InvalidWildcardName name)
      else
        let labels = split_on (CHR ''.'') name in
        if length labels < 2 then Inl (TooFewLabels name)
        else case check_labels name labels of Some e \<Rightarrow> Inl e | None \<Rightarrow> Inr name)"

text \<open>The loop of \<^verbatim>\<open>CanonicalList\<close>: \<open>seen\<close> is the Go set, \<open>out\<close> the list built so far.\<close>

fun canonical_loop :: "string set \<Rightarrow> string list \<Rightarrow> string list \<Rightarrow> (dns_error, string list) result" where
  "canonical_loop seen out [] = Inr out"
| "canonical_loop seen out (name # names) =
     (case Canonical name of
        Inl e \<Rightarrow> Inl e
      | Inr canonical \<Rightarrow>
          if canonical \<in> seen then canonical_loop seen out names
          else canonical_loop (insert canonical seen) (out @ [canonical]) names)"

definition CanonicalList :: "string list \<Rightarrow> (dns_error, string list) result" where
  "CanonicalList names =
     (case canonical_loop {} [] names of Inl e \<Rightarrow> Inl e | Inr out \<Rightarrow> Inr (sort out))"

text \<open>The final loop of \<^verbatim>\<open>EqualSet\<close>, after the lengths were compared.\<close>

fun same_at_every_index :: "string list \<Rightarrow> string list \<Rightarrow> bool" where
  "same_at_every_index (a # as) (b # bs) = (if a \<noteq> b then False else same_at_every_index as bs)"
| "same_at_every_index _ _ = True"

definition EqualSet :: "string list \<Rightarrow> string list \<Rightarrow> bool" where
  "EqualSet a b =
     (case CanonicalList a of
        Inl _ \<Rightarrow> False
      | Inr ca \<Rightarrow>
          (case CanonicalList b of
             Inl _ \<Rightarrow> False
           | Inr cb \<Rightarrow>
               if length ca \<noteq> length cb then False else same_at_every_index ca cb))"

section \<open>The grammar of canonical names\<close>

definition plain_label :: "string \<Rightarrow> bool" where
  "plain_label w \<longleftrightarrow> w \<noteq> [] \<and> length w \<le> 63 \<and> hd w \<noteq> CHR ''-'' \<and> last w \<noteq> CHR ''-''
     \<and> list_all label_char w"

definition dns_name :: "string \<Rightarrow> bool" where
  "dns_name n \<longleftrightarrow>
     (let ls = split_on (CHR ''.'') n in
      (2 \<le> length ls \<and> list_all plain_label ls)
      \<or> (3 \<le> length ls \<and> hd ls = ''*'' \<and> list_all plain_label (tl ls)))"

definition wildcard_name :: "string \<Rightarrow> bool" where
  "wildcard_name n \<longleftrightarrow> dns_name n \<and> hd (split_on (CHR ''.'') n) = ''*''"

lemma label_char_iff:
  "label_char r \<longleftrightarrow>
     (97 \<le> byte_code r \<and> byte_code r \<le> 122) \<or> (48 \<le> byte_code r \<and> byte_code r \<le> 57)
     \<or> byte_code r = 45"
  by (auto simp: label_char_def less_char_def not_less char_eq_code simp del: of_char_eq_iff)

lemma check_labels_None:
  "check_labels n ls = None \<longleftrightarrow> list_all (\<lambda>l. l = ''*'' \<or> plain_label l) ls"
proof (induction ls)
  case Nil
  show ?case by simp
next
  case (Cons l ls)
  have "HasPrefix l ''-'' \<longleftrightarrow> l \<noteq> [] \<and> hd l = CHR ''-''"
    by (cases l) auto
  with Cons show ?case
    by (auto simp: plain_label_def HasSuffix_single find_None_iff list_all_iff
        split: option.splits dest: find_SomeD)
qed


lemma plain_label_no_star: "plain_label w \<Longrightarrow> CHR ''*'' \<notin> set w"
  by (auto simp: plain_label_def list_all_iff label_char_iff)

text \<open>The characters of a name of the grammar.\<close>

lemma dns_name_chars:
  assumes "dns_name n" and "c \<in> set n"
  shows "label_char c \<or> c = CHR ''.'' \<or> c = CHR ''*''"
proof -
  let ?ls = "split_on (CHR ''.'') n"
  have "\<forall>l \<in> set ?ls. l = ''*'' \<or> plain_label l"
    using assms(1) by (cases ?ls) (auto simp: dns_name_def Let_def list_all_iff)
  moreover have "c = CHR ''.'' \<or> (\<exists>l \<in> set ?ls. c \<in> set l)"
    using assms(2) set_split_on [of n "CHR ''.''"] by (auto split: if_splits)
  ultimately show ?thesis
    by (auto simp: plain_label_def list_all_iff)
qed

lemma dns_name_codes:
  "dns_name n \<Longrightarrow> c \<in> set n \<Longrightarrow> 42 \<le> byte_code c \<and> byte_code c \<le> 122"
  by (drule (1) dns_name_chars) (auto simp: label_char_iff)

lemma IsValidWildcard_iff:
  "IsValidWildcard n \<longleftrightarrow>
     (\<exists>a b ls. split_on (CHR ''.'') n = ''*'' # a # b # ls \<and> a \<noteq> [] \<and> b \<noteq> []
        \<and> (\<forall>l \<in> set (a # b # ls). CHR ''*'' \<notin> set l))"
proof (cases "HasPrefix n ''*.''")
  case False
  have "n = ''*.'' @ Join (a # b # ls) ''.''" if "split_on (CHR ''.'') n = ''*'' # a # b # ls" for a b ls
    using Join_split_on [of "CHR ''.''" n] that by simp
  with False show ?thesis by (auto simp: IsValidWildcard_def HasPrefix_iff)
next
  case True
  then obtain r where n: "n = CHR ''*'' # CHR ''.'' # r"
    by (auto simp: HasPrefix_iff)
  have star: "CHR ''*'' \<notin> set r \<longleftrightarrow> (\<forall>l \<in> set (split_on (CHR ''.'') r). CHR ''*'' \<notin> set l)"
    using set_split_on [of r "CHR ''.''"] by (auto split: if_splits)
  obtain a ls where a: "split_on (CHR ''.'') r = a # ls"
    by (cases "split_on (CHR ''.'') r") simp_all
  show ?thesis
    using star a
    by (cases ls) (auto simp: n IsValidWildcard_def TrimPrefix_def Let_def count_list_0_iff)
qed


text \<open>\<^verbatim>\<open>Canonical\<close> accepts exactly the names whose normal form is in the grammar.\<close>

lemma Canonical_sound: "Canonical s = Inr n \<Longrightarrow> n = normal_name s \<and> dns_name n"
proof -
  assume ok: "Canonical s = Inr n"
  let ?ls = "split_on (CHR ''.'') n"
  have n: "n = normal_name s"
    and wild: "CHR ''*'' \<in> set n \<longrightarrow> IsValidWildcard n"
    and len: "2 \<le> length ?ls"
    and labels: "list_all (\<lambda>l. l = ''*'' \<or> plain_label l) ?ls"
    using ok by (auto simp: Canonical_def Let_def Contains_single check_labels_None
        split: if_splits option.splits)
  have "dns_name n"
  proof (cases "CHR ''*'' \<in> set n")
    case True
    with wild obtain a b ls where "?ls = ''*'' # a # b # ls"
      and "\<forall>l \<in> set (a # b # ls). CHR ''*'' \<notin> set l"
      by (auto simp: IsValidWildcard_iff)
    with labels show ?thesis by (fastforce simp: dns_name_def list_all_iff)
  next
    case False
    then have "\<forall>l \<in> set ?ls. l \<noteq> ''*''"
      using in_split_on_subset [of _ "CHR ''.''" n] by fastforce
    with labels len show ?thesis by (auto simp: dns_name_def list_all_iff)
  qed
  with n show ?thesis by simp
qed

lemma Canonical_complete: "dns_name (normal_name s) \<Longrightarrow> Canonical s = Inr (normal_name s)"
proof -
  assume g: "dns_name (normal_name s)"
  define n where "n = normal_name s"
  let ?ls = "split_on (CHR ''.'') n"
  note g = g [folded n_def]
  have labels: "list_all (\<lambda>l. l = ''*'' \<or> plain_label l) ?ls" and len: "2 \<le> length ?ls"
    using g by (cases ?ls; auto simp: dns_name_def Let_def list_all_iff)+
  have "n \<noteq> []" using len by auto
  moreover have "\<not> ContainsAny n [CHR 0x20, CHR 0x09, CHR 0x0A, CHR 0x0D]"
    using dns_name_codes [OF g] by (fastforce simp: ContainsAny_iff)
  moreover have "\<not> Contains n ''..''"
    using split_on_double_sep [of n "CHR ''.''"] labels
    by (auto simp: list_all_iff plain_label_def)
  moreover have "is_ascii n"
    using dns_name_codes [OF g] by (fastforce simp: is_ascii_def list_all_iff)
  moreover have "IsValidWildcard n" if "CHR ''*'' \<in> set n"
  proof -
    have "\<not> list_all plain_label ?ls"
      using that plain_label_no_star set_split_on [of n "CHR ''.''"]
      by (auto simp: list_all_iff split: if_splits)
    then have "3 \<le> length ?ls" "hd ?ls = ''*''" "list_all plain_label (tl ?ls)"
      using g by (auto simp: dns_name_def Let_def)
    then show ?thesis
      by (cases ?ls; cases "tl ?ls"; cases "tl (tl ?ls)")
        (auto simp: IsValidWildcard_iff plain_label_no_star plain_label_def list_all_iff)
  qed
  moreover have "check_labels n ?ls = None"
    using labels by (simp add: check_labels_None)
  ultimately show ?thesis
    using len by (simp add: Canonical_def Let_def Contains_single flip: n_def)
qed

lemma Canonical_iff: "Canonical s = Inr n \<longleftrightarrow> n = normal_name s \<and> dns_name n"
  using Canonical_sound Canonical_complete by blast


text \<open>Each of the three normalising steps leaves a name of the grammar as it is.\<close>

lemma dns_name_graph: "dns_name n \<Longrightarrow> list_all is_graph n"
  using dns_name_codes by (fastforce simp: list_all_iff is_graph_def)

lemma dns_name_no_final_dot:
  assumes "dns_name n"
  shows "\<not> HasSuffix n ''.''"
proof
  assume "HasSuffix n ''.''"
  then obtain t where "n = t @ [CHR ''.'']" by (auto simp: HasSuffix_iff)
  then have "split_on (CHR ''.'') n = split_on (CHR ''.'') t @ [[]]"
    by (simp add: split_on_append)
  with assms show False
    by (cases "split_on (CHR ''.'') t") (auto simp: dns_name_def plain_label_def)
qed

lemma dns_name_ToLower:
  assumes "dns_name n"
  shows "ToLower n = n"
proof -
  have "is_ascii n"
    using dns_name_codes [OF assms] by (fastforce simp: is_ascii_def list_all_iff)
  moreover have "map lower_byte n = n"
    using dns_name_chars [OF assms]
    by (intro map_idI lower_byte_id) (fastforce simp: label_char_iff)
  ultimately show ?thesis by (simp add: ToLower_ascii)
qed

lemma dns_name_normal: "dns_name n \<Longrightarrow> normal_name n = n"
  by (simp add: normal_name_def TrimSuffix_def TrimSpace_graph dns_name_graph
      dns_name_no_final_dot dns_name_ToLower)

section \<open>Lists of names as sets\<close>

definition valid_names :: "string list \<Rightarrow> bool" where
  "valid_names names \<longleftrightarrow> (\<forall>n \<in> set names. dns_name (normal_name n))"

definition name_set :: "string list \<Rightarrow> string set" where
  "name_set names = normal_name ` set names"

lemma valid_names_simps [simp]:
  "valid_names []" "valid_names (n # ns) \<longleftrightarrow> dns_name (normal_name n) \<and> valid_names ns"
  "name_set [] = {}" "name_set (n # ns) = insert (normal_name n) (name_set ns)"
  by (auto simp: valid_names_def name_set_def)

lemma finite_name_set [simp]: "finite (name_set names)"
  by (simp add: name_set_def)

lemma canonical_loop_ok:
  "valid_names names \<Longrightarrow> distinct out \<Longrightarrow>
     \<exists>r. canonical_loop (set out) out names = Inr r \<and> distinct r \<and> set r = set out \<union> name_set names"
proof (induction names arbitrary: out)
  case Nil
  then show ?case by simp
next
  case (Cons n ns)
  then have c: "Canonical n = Inr (normal_name n)" by (simp add: Canonical_iff)
  show ?case
  proof (cases "normal_name n \<in> set out")
    case True
    then have "set out \<union> name_set (n # ns) = set out \<union> name_set ns" by auto
    with Cons c True show ?thesis by simp
  next
    case False
    with Cons.IH [of "out @ [normal_name n]"] Cons.prems c show ?thesis by auto
  qed
qed

lemma canonical_loop_valid [dest]: "canonical_loop seen out names = Inr r \<Longrightarrow> valid_names names"
  by (induction seen out names rule: canonical_loop.induct)
    (auto simp: Canonical_iff split: sum.splits if_splits)

lemma CanonicalList_valid:
  "valid_names names \<Longrightarrow> CanonicalList names = Inr (sorted_list_of_set (name_set names))"
  using canonical_loop_ok [of names "[]"]
  by (auto simp: CanonicalList_def sort_distinct)

lemma CanonicalList_iff:
  "CanonicalList names = Inr ns \<longleftrightarrow> valid_names names \<and> ns = sorted_list_of_set (name_set names)"
proof
  assume ok: "CanonicalList names = Inr ns"
  then have "valid_names names" by (auto simp: CanonicalList_def split: sum.splits)
  with ok show "valid_names names \<and> ns = sorted_list_of_set (name_set names)"
    by (simp add: CanonicalList_valid)
qed (simp add: CanonicalList_valid)

lemma CanonicalList_canonical:
  assumes "CanonicalList names = Inr ns"
  shows "sorted ns" and "distinct ns" and "set ns = name_set names"
    and "valid_names ns" and "name_set ns = set ns" and "\<forall>n \<in> set ns. dns_name n"
  using assms
  by (auto simp: CanonicalList_iff valid_names_def name_set_def dns_name_normal image_image)

lemma same_at_every_index_iff: "length a = length b \<Longrightarrow> same_at_every_index a b \<longleftrightarrow> a = b"
  by (induction a b rule: same_at_every_index.induct) auto

lemma EqualSet_iff:
  "EqualSet a b \<longleftrightarrow> valid_names a \<and> valid_names b \<and> name_set a = name_set b"
proof -
  have "sorted_list_of_set (name_set a) = sorted_list_of_set (name_set b) \<longleftrightarrow> name_set a = name_set b"
    by (metis finite_name_set sorted_list_of_set.set_sorted_key_list_of_set)
  then show ?thesis
    by (cases "CanonicalList a"; cases "CanonicalList b")
      (auto simp: EqualSet_def same_at_every_index_iff CanonicalList_iff CanonicalList_valid)
qed


lemma IsValidWildcard_dns_name: "dns_name n \<Longrightarrow> IsValidWildcard n \<longleftrightarrow> wildcard_name n"
proof -
  assume g: "dns_name n"
  obtain l ls where ls: "split_on (CHR ''.'') n = l # ls"
    by (cases "split_on (CHR ''.'') n") simp_all
  have "\<not> plain_label ''*''" using plain_label_no_star by force
  with g ls show ?thesis
    by (cases ls; cases "tl ls")
      (auto simp: wildcard_name_def dns_name_def IsValidWildcard_iff list_all_iff
        plain_label_no_star plain_label_def)
qed

section \<open>Properties\<close>

text \<open>
  C25: \<^verbatim>\<open>dnsname.Canonical\<close> accepts a string exactly when its trimmed, lower-cased form
  without a final dot is a name of the grammar \<^const>\<open>dns_name\<close> (at least two labels of 1
  to 63 lower-case letters, digits and inner hyphens, optionally one leading \<open>*\<close> label
  followed by at least two others), and then it returns that form.
\<close>

theorem canonical_accepts_grammar:
  "Canonical s = Inr n \<longleftrightarrow> n = normal_name s \<and> dns_name n"
  by (rule Canonical_iff)

text \<open>A canonical name is a fixed point of \<^verbatim>\<open>dnsname.Canonical\<close>.\<close>

theorem canonical_idempotent: "Canonical s = Inr n \<Longrightarrow> Canonical n = Inr n"
  by (metis Canonical_iff dns_name_normal)

theorem canonical_idempotent_witness:
  "Canonical '' *.QA.Whisper.CL. '' = Inr ''*.qa.whisper.cl''
   \<and> Canonical ''*.qa.whisper.cl'' = Inr ''*.qa.whisper.cl''"
proof -
  have h: "Canonical '' *.QA.Whisper.CL. '' = Inr ''*.qa.whisper.cl''" by code_simp
  show ?thesis using h canonical_idempotent [OF h] by simp
qed

text \<open>
  \<^verbatim>\<open>dnsname.CanonicalList\<close> succeeds exactly on lists of acceptable names, and its
  result is the strictly ascending list of the canonical forms: the order and the
  repetitions of the input do not matter.
\<close>

theorem canonical_list_is_sorted_set:
  "CanonicalList names = Inr ns \<longleftrightarrow>
     valid_names names \<and> sorted ns \<and> distinct ns \<and> set ns = name_set names"
  by (metis CanonicalList_iff CanonicalList_canonical(1-3) sorted_list_of_set_unique)

text \<open>
  \<^verbatim>\<open>dnsname.EqualSet\<close> decides equality of the sets of canonical names, and is false as
  soon as one of the lists holds an unacceptable name.
\<close>

theorem equal_set_decides:
  "EqualSet a b \<longleftrightarrow> valid_names a \<and> valid_names b \<and> name_set a = name_set b"
  by (rule EqualSet_iff)

text \<open>
  C28: the ASCII check of \<^verbatim>\<open>dnsname.Canonical\<close> runs after lower-casing, so a name that
  starts with the non-ASCII Kelvin sign (U+212A) is not rejected: it is accepted as the name
  that starts with the letter \<open>k\<close>.
\<close>

theorem canonical_accepts_kelvin_sign:
  assumes "dns_name (CHR ''k'' # n)"
  shows "Canonical ([CHR 0xE2, CHR 0x84, CHR 0xAA] @ n) = Inr (CHR ''k'' # n)"
proof -
  let ?s = "[CHR 0xE2, CHR 0x84, CHR 0xAA] @ n"
  have n: "n \<noteq> []" using assms by (auto simp: dns_name_def)
  have "trim_left space_runes ?s = ?s"
    by (rule trim_left_id) (auto simp: space_runes_def)
  moreover have "trim_left (map rev space_runes) (rev ?s) = rev ?s"
  proof (rule trim_left_id, intro ballI impI notI)
    fix e
    assume e: "e \<in> set (map rev space_runes)" "e \<noteq> []" "HasPrefix (rev ?s) e"
    then have "hd e = last n" using n HasPrefix_hd [of "rev ?s" e] by (simp add: hd_append hd_rev)
    moreover have "\<not> is_graph (hd e)"
      using e space_runes_not_graph by (auto simp: hd_rev)
    ultimately show False using dns_name_graph [OF assms] n by (simp add: list_all_iff)
  qed
  ultimately have "TrimSpace ?s = ?s" by (simp add: TrimSpace_def)
  moreover have "\<not> HasSuffix ?s ''.''"
    using dns_name_no_final_dot [OF assms] n by (simp add: HasSuffix_single)
  moreover have "ToLower ?s = CHR ''k'' # n"
    using dns_name_ToLower [OF assms] by (simp add: lower_byte_def)
  ultimately have "normal_name ?s = CHR ''k'' # n"
    by (simp add: normal_name_def TrimSuffix_def)
  with assms show ?thesis by (metis Canonical_complete)
qed

theorem canonical_accepts_kelvin_sign_witness:
  "dns_name ''key.example.org''
   \<and> Canonical ([CHR 0xE2, CHR 0x84, CHR 0xAA] @ ''ey.example.org'') = Inr ''key.example.org''"
proof -
  have h: "dns_name ''key.example.org''" by code_simp
  show ?thesis using h canonical_accepts_kelvin_sign [OF h] by simp
qed

end
