(* ===== verification/Go_Time.thy ===== *)
theory Go_Time
  imports Prelude
begin

text \<open>
  What certplane uses of Go's \<^verbatim>\<open>time\<close> package: instants, durations, their text forms.

  An instant is the number of nanoseconds since the Unix epoch (every instant certplane
  formats is in UTC or has just been converted to it); a duration is Go's \<^verbatim>\<open>int64\<close> count
  of nanoseconds, so \<^verbatim>\<open>Sub\<close> and \<^verbatim>\<open>Until\<close> saturate at its bounds. The current time is
  always an argument of the definitions that read the clock.
\<close>

section \<open>Instants and durations\<close>

type_synonym instant = int
type_synonym duration = int

abbreviation Second :: duration where "Second \<equiv> 1000000000"
abbreviation Minute :: duration where "Minute \<equiv> 60000000000"
abbreviation Hour :: duration where "Hour \<equiv> 3600000000000"

definition max_duration :: duration where
  "max_duration = 9223372036854775807"

definition min_duration :: duration where
  "min_duration = - 9223372036854775808"

definition in_int64 :: "int \<Rightarrow> bool" where
  "in_int64 d \<longleftrightarrow> min_duration \<le> d \<and> d \<le> max_duration"

text \<open>\<^verbatim>\<open>t.Sub(u)\<close> and \<^verbatim>\<open>time.Until(t)\<close>.\<close>

definition time_sub :: "instant \<Rightarrow> instant \<Rightarrow> duration" where
  "time_sub t u = max min_duration (min max_duration (t - u))"

definition time_until :: "instant \<Rightarrow> instant \<Rightarrow> duration" where
  "time_until now t = time_sub t now"

text \<open>The zero \<^verbatim>\<open>time.Time\<close> is midnight on 1 January of year 1.\<close>

definition zero_time :: instant where
  "zero_time = - 62135596800000000000"

section \<open>Decimal numerals\<close>

definition digit :: "nat \<Rightarrow> char" where
  "digit n = char_of (48 + n)"

fun decimal :: "nat \<Rightarrow> string" where
  "decimal n = (if n < 10 then [digit n] else decimal (n div 10) @ [digit (n mod 10)])"

declare decimal.simps [simp del]

fun pad :: "nat \<Rightarrow> nat \<Rightarrow> string" where
  "pad 0 n = []"
| "pad (Suc w) n = pad w (n div 10) @ [digit (n mod 10)]"

definition digit_val :: "char \<Rightarrow> nat option" where
  "digit_val c = (if 48 \<le> byte_code c \<and> byte_code c \<le> 57 then Some (byte_code c - 48) else None)"

fun number_from :: "nat \<Rightarrow> string \<Rightarrow> nat option" where
  "number_from acc [] = Some acc"
| "number_from acc (c # cs) =
     (case digit_val c of None \<Rightarrow> None | Some d \<Rightarrow> number_from (10 * acc + d) cs)"

section \<open>The calendar\<close>

text \<open>
  Days are counted from 1 March of year 0, so that a leap day is the last day of its
  400-, 100-, 4- and 1-year cycle; \<open>epoch_days\<close> is the number of 1 January 1970.
\<close>

definition epoch_days :: int where
  "epoch_days = 719468"

definition is_leap :: "int \<Rightarrow> bool" where
  "is_leap y \<longleftrightarrow> y mod 4 = 0 \<and> (y mod 100 \<noteq> 0 \<or> y mod 400 = 0)"

definition days_in :: "int \<Rightarrow> int \<Rightarrow> int" where
  "days_in y m =
     (if m = 2 then (if is_leap y then 29 else 28)
      else if m = 4 \<or> m = 6 \<or> m = 9 \<or> m = 11 then 30 else 31)"

definition civil_of_days :: "int \<Rightarrow> int \<times> int \<times> int" where
  "civil_of_days days =
     (let z = days + epoch_days;
          n400 = z div 146097; r400 = z mod 146097;
          n100 = min 3 (r400 div 36524); r100 = r400 - 36524 * n100;
          n4 = r100 div 1461; r4 = r100 mod 1461;
          n1 = min 3 (r4 div 365); doy = r4 - 365 * n1;
          mp = (5 * doy + 2) div 153;
          d = doy - (153 * mp + 2) div 5 + 1;
          m = (if mp < 10 then mp + 3 else mp - 9);
          y = 400 * n400 + 100 * n100 + 4 * n4 + n1
      in (if m \<le> 2 then y + 1 else y, m, d))"

definition days_of_civil :: "int \<Rightarrow> int \<Rightarrow> int \<Rightarrow> int" where
  "days_of_civil y0 m d =
     (let y = (if m \<le> 2 then y0 - 1 else y0);
          mp = (if 2 < m then m - 3 else m + 9);
          yoe = y mod 400;
          doy = (153 * mp + 2) div 5 + d - 1
      in 146097 * (y div 400) + (365 * yoe + yoe div 4 - yoe div 100) + doy - epoch_days)"

section \<open>RFC 3339\<close>

text \<open>\<^verbatim>\<open>t.UTC().Format(time.RFC3339)\<close>: whole seconds, at least four digits for the year.\<close>

definition fmt_year :: "int \<Rightarrow> string" where
  "fmt_year y =
     (let ds = (if \<bar>y\<bar> < 10000 then pad 4 (nat \<bar>y\<bar>) else decimal (nat \<bar>y\<bar>))
      in if y < 0 then CHR ''-'' # ds else ds)"

definition format_rfc3339 :: "instant \<Rightarrow> string" where
  "format_rfc3339 t =
     (let secs = t div Second; days = secs div 86400; tod = nat (secs mod 86400) in
      case civil_of_days days of (y, m, d) \<Rightarrow>
        fmt_year y @ ''-'' @ pad 2 (nat m) @ ''-'' @ pad 2 (nat d)
        @ ''T'' @ pad 2 (tod div 3600) @ '':'' @ pad 2 (tod div 60 mod 60)
        @ '':'' @ pad 2 (tod mod 60) @ ''Z'')"

text \<open>
  \<^verbatim>\<open>time.Parse(time.RFC3339, s)\<close> on the strict form of RFC 3339 in UTC that
  \<^verbatim>\<open>Format\<close> writes: twenty characters, every field in its range. Go's parser accepts more
  (fractions, numeric offsets, one-digit hours); certplane parses only strings it formatted.
\<close>

definition parse_rfc3339 :: "string \<Rightarrow> instant option" where
  "parse_rfc3339 s =
     (if length s \<noteq> 20 \<or> s ! 4 \<noteq> CHR ''-'' \<or> s ! 7 \<noteq> CHR ''-'' \<or> s ! 10 \<noteq> CHR ''T''
         \<or> s ! 13 \<noteq> CHR '':'' \<or> s ! 16 \<noteq> CHR '':'' \<or> s ! 19 \<noteq> CHR ''Z'' then None
      else
        case (number_from 0 (take 4 s), number_from 0 (take 2 (drop 5 s)),
              number_from 0 (take 2 (drop 8 s)), number_from 0 (take 2 (drop 11 s)),
              number_from 0 (take 2 (drop 14 s)), number_from 0 (take 2 (drop 17 s))) of
          (Some y, Some m, Some d, Some hh, Some mm, Some ss) \<Rightarrow>
            if 1 \<le> m \<and> m \<le> 12 \<and> 1 \<le> d \<and> int d \<le> days_in (int y) (int m)
               \<and> hh < 24 \<and> mm < 60 \<and> ss < 60
            then Some (Second * (86400 * days_of_civil (int y) (int m) (int d)
                                 + int (3600 * hh + 60 * mm + ss)))
            else None
        | _ \<Rightarrow> None)"

definition truncate_seconds :: "instant \<Rightarrow> instant" where
  "truncate_seconds t = Second * (t div Second)"

text \<open>The years RFC 3339 can write.\<close>

definition rfc3339_range :: "instant \<Rightarrow> bool" where
  "rfc3339_range t \<longleftrightarrow>
     (case civil_of_days (t div Second div 86400) of (y, _, _) \<Rightarrow> 0 \<le> y \<and> y \<le> 9999)"

section \<open>Duration.String\<close>

text \<open>
  \<^verbatim>\<open>fmtFrac\<close>: the fraction \<open>v / 10 ^ prec\<close> without trailing zeros, its dot included, and
  nothing at all for a whole number; the integral part is \<open>v div 10 ^ prec\<close>.
\<close>

fun strip_zeros :: "nat \<Rightarrow> nat \<Rightarrow> nat \<times> nat" where
  "strip_zeros 0 n = (0, n)"
| "strip_zeros (Suc w) n = (if n mod 10 = 0 then strip_zeros w (n div 10) else (Suc w, n))"

definition fmt_frac :: "nat \<Rightarrow> nat \<Rightarrow> string" where
  "fmt_frac v prec =
     decimal (v div 10 ^ prec)
     @ (case strip_zeros prec (v mod 10 ^ prec) of
          (0, _) \<Rightarrow> []
        | (w, n) \<Rightarrow> CHR ''.'' # pad w n)"

definition Duration_String :: "duration \<Rightarrow> string" where
  "Duration_String d =
     (let u = nat \<bar>d\<bar>;
          body =
            (if u = 0 then ''0s''
             else if u < 1000 then decimal u @ ''ns''
             else if u < 1000000 then fmt_frac u 3 @ [CHR 0xC2, CHR 0xB5, CHR ''s'']
             else if u < 1000000000 then fmt_frac u 6 @ ''ms''
             else
               let secs = u div 1000000000; mins = secs div 60; hours = mins div 60;
                   low = fmt_frac (u mod 60000000000) 9 @ ''s'' in
               if mins = 0 then low
               else if hours = 0 then decimal mins @ ''m'' @ low
               else decimal hours @ ''h'' @ decimal (mins mod 60) @ ''m'' @ low)
      in if d < 0 then CHR ''-'' # body else body)"



section \<open>Lemmas on instants\<close>

lemma time_until_le_iff:
  assumes "0 \<le> d" and "d < max_duration"
  shows "time_until now t \<le> d \<longleftrightarrow> t - now \<le> d"
  using assms by (auto simp: time_until_def time_sub_def min_duration_def max_duration_def)

section \<open>Lemmas on numerals\<close>

lemma digit_val_digit [simp]: "n < 10 \<Longrightarrow> digit_val (digit n) = Some n"
  by (simp add: digit_val_def digit_def)

lemma length_pad [simp]: "length (pad w n) = w"
  by (induction w n rule: pad.induct) auto

lemma number_from_append:
  "number_from acc (u @ v) = Option.bind (number_from acc u) (\<lambda>n. number_from n v)"
  by (induction acc u rule: number_from.induct) (auto split: option.splits)

lemma number_from_pad: "number_from acc (pad w n) = Some (acc * 10 ^ w + n mod 10 ^ w)"
proof (induction w arbitrary: n)
  case 0
  show ?case by simp
next
  case (Suc w)
  have "n mod 10 ^ Suc w = 10 * (n div 10 mod 10 ^ w) + n mod 10"
    by (simp add: mod_mult2_eq)
  with Suc show ?case by (simp add: number_from_append algebra_simps)
qed

section \<open>The calendar round trip\<close>

text \<open>
  The day of the year and the month are found from each other, and the day number stays
  within its month.
\<close>

lemma month_of_day:
  assumes "0 \<le> doy" and "doy \<le> 365"
  defines "mp \<equiv> (5 * doy + 2) div 153"
  shows "0 \<le> mp" and "mp \<le> (11::int)" and "0 \<le> doy - (153 * mp + 2) div 5"
    and "mp < 11 \<Longrightarrow> doy - (153 * mp + 2) div 5 < (if mp \<in> {1, 3, 6, 8} then 30 else 31)"
    and "mp = 11 \<Longrightarrow> doy - (153 * mp + 2) div 5 = doy - 337"
proof -
  show "0 \<le> mp" "mp \<le> 11" using assms by auto
  then have "mp = 0 \<or> mp = 1 \<or> mp = 2 \<or> mp = 3 \<or> mp = 4 \<or> mp = 5 \<or> mp = 6 \<or> mp = 7
      \<or> mp = 8 \<or> mp = 9 \<or> mp = 10 \<or> mp = 11"
    by presburger
  moreover have "153 * mp \<le> 5 * doy + 2" "5 * doy + 2 < 153 * mp + 153"
    unfolding mp_def by auto
  ultimately show "0 \<le> doy - (153 * mp + 2) div 5"
    and "mp < 11 \<Longrightarrow> doy - (153 * mp + 2) div 5 < (if mp \<in> {1, 3, 6, 8} then 30 else 31)"
    and "mp = 11 \<Longrightarrow> doy - (153 * mp + 2) div 5 = doy - 337"
    by auto
qed


text \<open>The years of a 400-year cycle, counted from March: four numbers and the day of the year.\<close>

lemma cycle_decomposition:
  fixes r400 :: int
  assumes "0 \<le> r400" and "r400 < 146097"
  defines "n100 \<equiv> min 3 (r400 div 36524)"
  defines "r100 \<equiv> r400 - 36524 * n100"
  defines "n4 \<equiv> r100 div 1461" and "r4 \<equiv> r100 mod 1461"
  defines "n1 \<equiv> min 3 (r4 div 365)"
  defines "doy \<equiv> r4 - 365 * n1"
  shows "0 \<le> n100" and "n100 \<le> 3" and "0 \<le> n4" and "n4 \<le> 24" and "0 \<le> n1" and "n1 \<le> 3"
    and "0 \<le> doy" and "doy \<le> 365"
    and "r400 = 36524 * n100 + 1461 * n4 + 365 * n1 + doy"
    and "doy = 365 \<Longrightarrow> n1 = 3 \<and> (n4 < 24 \<or> n100 = 3)"
proof -
  show n100: "0 \<le> n100" "n100 \<le> 3" using assms(1,2) by (auto simp: n100_def)
  have r100: "0 \<le> r100" "r100 < 36524 \<or> n100 = 3 \<and> r100 = 36524"
    using assms(1,2) unfolding r100_def n100_def by (auto simp: min_def split: if_splits)
  show n4: "0 \<le> n4" "n4 \<le> 24" using r100 by (auto simp: n4_def)
  have r4: "0 \<le> r4" "r4 < 1461" "r100 = 1461 * n4 + r4" by (auto simp: r4_def n4_def)
  show n1: "0 \<le> n1" "n1 \<le> 3" using r4 by (auto simp: n1_def)
  show doy: "0 \<le> doy" "doy \<le> 365"
    using r4 unfolding doy_def n1_def by (auto simp: min_def split: if_splits)
  show "r400 = 36524 * n100 + 1461 * n4 + 365 * n1 + doy"
    using r4 by (simp add: doy_def r100_def)
  show "n1 = 3 \<and> (n4 < 24 \<or> n100 = 3)" if "doy = 365"
  proof -
    have "n1 = 3" using that r4 n1 unfolding doy_def n1_def
      by (auto simp: min_def split: if_splits)
    moreover have "n4 < 24 \<or> n100 = 3" using that r4 r100 n4 \<open>n1 = 3\<close> by (auto simp: doy_def)
    ultimately show ?thesis by simp
  qed
qed

lemma civil_of_days_correct:
  assumes "civil_of_days days = (y, m, d)"
  shows "days_of_civil y m d = days" and "1 \<le> m" and "m \<le> 12" and "1 \<le> d" and "d \<le> days_in y m"
proof -
  define z where "z = days + epoch_days"
  define n400 where "n400 = z div 146097"
  define r400 where "r400 = z mod 146097"
  define n100 where "n100 = min 3 (r400 div 36524)"
  define r100 where "r100 = r400 - 36524 * n100"
  define n4 where "n4 = r100 div 1461"
  define r4 where "r4 = r100 mod 1461"
  define n1 where "n1 = min 3 (r4 div 365)"
  define doy where "doy = r4 - 365 * n1"
  define mp where "mp = (5 * doy + 2) div 153"
  define y' where "y' = 400 * n400 + 100 * n100 + 4 * n4 + n1"
  have z: "z = 146097 * n400 + r400" "0 \<le> r400" "r400 < 146097"
    by (auto simp: n400_def r400_def)
  note cyc = cycle_decomposition [OF z(2,3), folded n100_def, folded r100_def,
      folded n4_def r4_def, folded n1_def, folded doy_def]
  note mon = month_of_day [OF cyc(7,8), folded mp_def]
  have d: "d = doy - (153 * mp + 2) div 5 + 1"
    and m: "m = (if mp < 10 then mp + 3 else mp - 9)"
    and y: "y = (if m \<le> 2 then y' + 1 else y')"
    using assms [unfolded civil_of_days_def Let_def, folded z_def, folded n400_def r400_def,
        folded n100_def, folded r100_def, folded n4_def r4_def, folded n1_def, folded doy_def,
        folded mp_def, folded y'_def]
    by (auto simp only: prod.inject)
  have mp: "mp = (if 2 < m then m - 3 else m + 9)" and "1 \<le> m" "m \<le> 12"
    using mon(1,2) by (auto simp: m)
  then show "1 \<le> m" "m \<le> 12" by simp_all
  have yoe: "y' mod 400 = 100 * n100 + 4 * n4 + n1"
    using cyc(1-6) by (intro int_mod_pos_eq [where q = n400]) (auto simp: y'_def)
  have y400: "y' div 400 = n400"
    using cyc(1-6) by (intro int_div_pos_eq [where r = "100 * n100 + 4 * n4 + n1"]) (auto simp: y'_def)
  have "(100 * n100 + 4 * n4 + n1) div 4 = 25 * n100 + n4"
    using cyc(5,6) by (intro int_div_pos_eq [where r = n1]) auto
  moreover have "(100 * n100 + 4 * n4 + n1) div 100 = n100"
    using cyc(3-6) by (intro int_div_pos_eq [where r = "4 * n4 + n1"]) auto
  moreover have "(if m \<le> 2 then y - 1 else y) = y'" by (simp add: y)
  ultimately show "days_of_civil y m d = days"
    unfolding days_of_civil_def Let_def mp [symmetric]
    using yoe y400 cyc(9) z by (simp add: d z_def)
  show "1 \<le> d" using mon(3) by (simp add: d)
  have "is_leap (y' + 1)" if "doy = 365"
  proof -
    have y1: "y' + 1 = 4 * (100 * n400 + 25 * n100 + n4 + 1)" "y' + 1 = 100 * (4 * n400 + n100) + 4 * (n4 + 1)"
      using cyc(10) [OF that] by (simp_all add: y'_def)
    then have "(y' + 1) mod 4 = 0" by simp
    moreover have "(y' + 1) mod 100 \<noteq> 0 \<or> (y' + 1) mod 400 = 0"
    proof (cases "n4 < 24")
      case True
      then have "(y' + 1) mod 100 = 4 * (n4 + 1)"
        using cyc(3) by (intro int_mod_pos_eq [where q = "4 * n400 + n100"]) (auto simp: y1(2))
      then show ?thesis using cyc(3) by simp
    next
      case False
      then have "n4 = 24" "n100 = 3" using cyc(4) cyc(10) [OF that] by auto
      then have "y' + 1 = 400 * (n400 + 1)" by (simp add: y1(1))
      then show ?thesis by simp
    qed
    ultimately show ?thesis by (simp add: is_leap_def)
  qed
  then have "is_leap (y' + 1) \<or> doy \<le> 364" using cyc(8) by linarith
  then show "d \<le> days_in y m"
    using mon cyc(8) y by (auto simp: days_in_def d m split: if_splits)
qed


section \<open>The RFC 3339 round trip\<close>

lemma number_from_pad_0: "n < 10 ^ w \<Longrightarrow> number_from 0 (pad w n) = Some n"
  by (simp add: number_from_pad)

lemma parse_fields:
  assumes "length yy = 4" "length mo = 2" "length dd = 2" "length hh = 2" "length mi = 2" "length ss = 2"
    and "number_from 0 yy = Some y" "number_from 0 mo = Some m" "number_from 0 dd = Some d"
    and "number_from 0 hh = Some h" "number_from 0 mi = Some n" "number_from 0 ss = Some s"
    and "1 \<le> m" "m \<le> 12" "1 \<le> d" "int d \<le> days_in (int y) (int m)" "h < 24" "n < 60" "s < 60"
  shows "parse_rfc3339 (yy @ ''-'' @ mo @ ''-'' @ dd @ ''T'' @ hh @ '':'' @ mi @ '':'' @ ss @ ''Z'')
    = Some (Second * (86400 * days_of_civil (int y) (int m) (int d) + int (3600 * h + 60 * n + s)))"
  using assms by (simp add: parse_rfc3339_def nth_append)

lemma parse_format_rfc3339:
  assumes "rfc3339_range t"
  shows "parse_rfc3339 (format_rfc3339 t) = Some (truncate_seconds t)"
proof -
  define secs where "secs = t div Second"
  define days where "days = secs div 86400"
  define tod where "tod = nat (secs mod 86400)"
  obtain y m d where civil: "civil_of_days days = (y, m, d)"
    by (cases "civil_of_days days") auto
  note date = civil_of_days_correct [OF civil]
  have y: "0 \<le> y" "y \<le> 9999"
    using assms civil by (simp_all add: rfc3339_range_def secs_def days_def)
  have d31: "d \<le> 31" using date(5) by (auto simp: days_in_def split: if_splits)
  have tod: "tod < 86400" "int tod = secs mod 86400" by (auto simp: tod_def)
  have "tod div 3600 = tod div 60 div 60" by (simp add: div_mult2_eq [symmetric])
  then have hms: "3600 * (tod div 3600) + 60 * (tod div 60 mod 60) + tod mod 60 = tod"
    using mult_div_mod_eq [of 60 "tod div 60"] mult_div_mod_eq [of 60 tod] by linarith
  have fmt: "format_rfc3339 t = pad 4 (nat y) @ ''-'' @ pad 2 (nat m) @ ''-'' @ pad 2 (nat d)
      @ ''T'' @ pad 2 (tod div 3600) @ '':'' @ pad 2 (tod div 60 mod 60)
      @ '':'' @ pad 2 (tod mod 60) @ ''Z''"
    unfolding format_rfc3339_def Let_def secs_def [symmetric] days_def [symmetric]
      tod_def [symmetric] civil prod.case
    using y by (simp add: fmt_year_def)
  have "parse_rfc3339 (format_rfc3339 t) = Some (Second *
      (86400 * days_of_civil (int (nat y)) (int (nat m)) (int (nat d))
       + int (3600 * (tod div 3600) + 60 * (tod div 60 mod 60) + tod mod 60)))"
    unfolding fmt
    by (rule parse_fields) (use y date d31 tod(1) in \<open>auto intro!: number_from_pad_0\<close>)
  also have "\<dots> = Some (Second * (86400 * days + secs mod 86400))"
    unfolding hms using date y tod(2) by simp
  also have "86400 * days + secs mod 86400 = secs" by (simp add: days_def)
  finally show ?thesis by (simp add: truncate_seconds_def secs_def)
qed

lemma truncate_seconds_bounds: "truncate_seconds t \<le> t" "t - truncate_seconds t < Second"
  by (simp_all add: truncate_seconds_def minus_mult_div_eq_mod)

lemma truncate_seconds_id: "t mod Second = 0 \<Longrightarrow> truncate_seconds t = t"
  by (auto simp: truncate_seconds_def)

section \<open>Evaluation\<close>

text \<open>
  Code equations that compute with binary integers: the natural numbers of the definitions are
  small only in the digits.
\<close>

fun padi :: "nat \<Rightarrow> int \<Rightarrow> string" where
  "padi 0 n = []"
| "padi (Suc w) n = padi w (n div 10) @ [digit (nat (n mod 10))]"

lemma pad_padi: "pad w n = padi w (int n)"
  by (induction w arbitrary: n) (simp_all add: zdiv_int nat_mod_as_int)

lemma padi_nat: "0 \<le> n \<Longrightarrow> pad w (nat n) = padi w n"
  by (simp add: pad_padi)

lemma fmt_year_code [code]:
  "fmt_year y =
     (let ds = (if \<bar>y\<bar> < 10000 then padi 4 \<bar>y\<bar> else decimal (nat \<bar>y\<bar>))
      in if y < 0 then CHR ''-'' # ds else ds)"
  by (simp add: fmt_year_def padi_nat)

definition padn :: "nat \<Rightarrow> int \<Rightarrow> string" where
  "padn w n = (if n < 0 then pad w 0 else padi w n)"

lemma padn_nat: "pad w (nat n) = padn w n"
  by (simp add: padn_def padi_nat)

lemma format_rfc3339_code [code]:
  "format_rfc3339 t =
     (let secs = t div Second; days = secs div 86400; tod = secs mod 86400 in
      case civil_of_days days of (y, m, d) \<Rightarrow>
        fmt_year y @ ''-'' @ padn 2 m @ ''-'' @ padn 2 d
        @ ''T'' @ padn 2 (tod div 3600) @ '':'' @ padn 2 (tod div 60 mod 60)
        @ '':'' @ padn 2 (tod mod 60) @ ''Z'')"
proof -
  show ?thesis
    unfolding format_rfc3339_def Let_def padn_nat [symmetric]
    by (simp add: nat_div_distrib nat_mod_distrib pos_imp_zdiv_nonneg_iff)
qed

fun int_from :: "int \<Rightarrow> string \<Rightarrow> int option" where
  "int_from acc [] = Some acc"
| "int_from acc (c # cs) =
     (case digit_val c of None \<Rightarrow> None | Some d \<Rightarrow> int_from (10 * acc + int d) cs)"

lemma int_from_number: "int_from (int acc) s = map_option int (number_from acc s)"
proof (induction s arbitrary: acc)
  case (Cons c s)
  show ?case using Cons [of "10 * acc + d" for d] by (simp split: option.split)
qed simp

lemma parse_rfc3339_code [code]:
  "parse_rfc3339 s =
     (if length s \<noteq> 20 \<or> s ! 4 \<noteq> CHR ''-'' \<or> s ! 7 \<noteq> CHR ''-'' \<or> s ! 10 \<noteq> CHR ''T''
         \<or> s ! 13 \<noteq> CHR '':'' \<or> s ! 16 \<noteq> CHR '':'' \<or> s ! 19 \<noteq> CHR ''Z'' then None
      else
        case (int_from 0 (take 4 s), int_from 0 (take 2 (drop 5 s)),
              int_from 0 (take 2 (drop 8 s)), int_from 0 (take 2 (drop 11 s)),
              int_from 0 (take 2 (drop 14 s)), int_from 0 (take 2 (drop 17 s))) of
          (Some y, Some m, Some d, Some hh, Some mm, Some ss) \<Rightarrow>
            if 1 \<le> m \<and> m \<le> 12 \<and> 1 \<le> d \<and> d \<le> days_in y m \<and> hh < 24 \<and> mm < 60 \<and> ss < 60
            then Some (Second * (86400 * days_of_civil y m d + (3600 * hh + 60 * mm + ss)))
            else None
        | _ \<Rightarrow> None)"
proof -
  have 0: "int_from 0 t = map_option int (number_from 0 t)" for t
    using int_from_number [of 0 t] by simp
  have "1 \<le> int m \<longleftrightarrow> 1 \<le> m" "int m \<le> 12 \<longleftrightarrow> m \<le> 12" "int m < 24 \<longleftrightarrow> m < 24" "int m < 60 \<longleftrightarrow> m < 60" for m
    by linarith+
  then show ?thesis
    unfolding parse_rfc3339_def 0 by (simp split: option.split)
qed

end
