(* ===== verification/Go_Json.thy ===== *)
theory Go_Json
  imports Go_Time
begin

text \<open>
  What certplane uses of \<^verbatim>\<open>encoding/json\<close> when it hashes a policy: \<^verbatim>\<open>json.Marshal\<close> of
  structs of strings, integers and slices. The text of a string follows Go's encoder: HTML
  characters and control characters are escaped, valid UTF-8 is copied, an invalid byte
  becomes the replacement character.

  The text forms are prefix codes (locale \<open>prefix_code\<close>): two values whose texts begin the
  same input are equal. Hence equal hash inputs come from equal values.
\<close>

section \<open>Encoding\<close>

definition hex_digit :: "nat \<Rightarrow> char" where
  "hex_digit n = (if n < 10 then char_of (48 + n) else char_of (87 + n))"

text \<open>\<^verbatim>\<open>hex.EncodeToString\<close>.\<close>

definition hex_encode :: "string \<Rightarrow> string" where
  "hex_encode bs =
     concat (map (\<lambda>c. [hex_digit (byte_code c div 16), hex_digit (byte_code c mod 16)]) bs)"

text \<open>
  UTF-8: the byte sequences that encode one rune (no overlong forms, surrogates or values
  beyond U+10FFFF), and the size of the one a string starts with, 0 when there is none.
\<close>

definition is_cont :: "nat \<Rightarrow> bool" where
  "is_cont b \<longleftrightarrow> 128 \<le> b \<and> b \<le> 191"

fun is_rune :: "nat list \<Rightarrow> bool" where
  "is_rune [a] = (a < 128)"
| "is_rune [a, b] = (194 \<le> a \<and> a \<le> 223 \<and> is_cont b)"
| "is_rune [a, b, c] =
     ((a = 224 \<and> 160 \<le> b \<and> b \<le> 191
       \<or> (225 \<le> a \<and> a \<le> 236 \<or> a = 238 \<or> a = 239) \<and> is_cont b
       \<or> a = 237 \<and> 128 \<le> b \<and> b \<le> 159) \<and> is_cont c)"
| "is_rune [a, b, c, d] =
     ((a = 240 \<and> 144 \<le> b \<and> b \<le> 191 \<or> 241 \<le> a \<and> a \<le> 243 \<and> is_cont b
       \<or> a = 244 \<and> 128 \<le> b \<and> b \<le> 143) \<and> is_cont c \<and> is_cont d)"
| "is_rune _ = False"

abbreviation rune :: "string \<Rightarrow> bool" where
  "rune r \<equiv> is_rune (map of_char r)"

definition rune_size :: "string \<Rightarrow> nat" where
  "rune_size s =
     (if rune (take 1 s) then 1 else if rune (take 2 s) then 2
      else if rune (take 3 s) then 3 else if rune (take 4 s) then 4 else 0)"

text \<open>The text of one ASCII character inside a JSON string.\<close>

definition escape_byte :: "char \<Rightarrow> string" where
  "escape_byte c =
     (let b = byte_code c in
      if b = 34 \<or> b = 92 then [CHR 0x5C, c]
      else if b = 8 then [CHR 0x5C, CHR ''b'']
      else if b = 12 then [CHR 0x5C, CHR ''f'']
      else if b = 10 then [CHR 0x5C, CHR ''n'']
      else if b = 13 then [CHR 0x5C, CHR ''r'']
      else if b = 9 then [CHR 0x5C, CHR ''t'']
      else if b < 32 \<or> b = 38 \<or> b = 60 \<or> b = 62
        then [CHR 0x5C, CHR ''u'', CHR ''0'', CHR ''0'', hex_digit (b div 16), hex_digit (b mod 16)]
      else [c])"


text \<open>The text of a rune: ASCII escapes, and U+2028 and U+2029 are escaped too.\<close>

definition rune_text :: "string \<Rightarrow> string" where
  "rune_text r =
     (if length r = 1 then escape_byte (hd r)
      else if r = [CHR 0xE2, CHR 0x80, CHR 0xA8] then CHR 0x5C # ''u2028''
      else if r = [CHR 0xE2, CHR 0x80, CHR 0xA9] then CHR 0x5C # ''u2029''
      else r)"

function json_chars :: "string \<Rightarrow> string" where
  "json_chars s =
     (if s = [] then []
      else if rune_size s = 0 then (CHR 0x5C # ''ufffd'') @ json_chars (drop 1 s)
      else rune_text (take (rune_size s) s) @ json_chars (drop (rune_size s) s))"
  by pat_completeness auto
termination
  by (relation "measure length") auto

declare json_chars.simps [simp del]

definition json_string :: "string \<Rightarrow> string" where
  "json_string s = CHR 0x22 # json_chars s @ [CHR 0x22]"

definition json_array :: "('a \<Rightarrow> string) \<Rightarrow> 'a list \<Rightarrow> string" where
  "json_array enc xs = ''['' @ Join (map enc xs) '','' @ '']''"

text \<open>The text of an \<^verbatim>\<open>int\<close>.\<close>

definition json_int :: "int \<Rightarrow> string" where
  "json_int i = (if i < 0 then CHR ''-'' # decimal (nat (- i)) else decimal (nat i))"

function valid_utf8 :: "string \<Rightarrow> bool" where
  "valid_utf8 s =
     (if s = [] then True else if rune_size s = 0 then False
      else valid_utf8 (drop (rune_size s) s))"
  by pat_completeness auto
termination
  by (relation "measure length") auto

declare valid_utf8.simps [simp del]

section \<open>Reading a rune back\<close>

definition hex_val :: "char \<Rightarrow> nat" where
  "hex_val c = (if byte_code c < 87 then byte_code c - 48 else byte_code c - 87)"

definition unescape :: "char \<Rightarrow> char" where
  "unescape c =
     (if c = CHR ''b'' then CHR 0x08 else if c = CHR ''f'' then CHR 0x0C
      else if c = CHR ''n'' then CHR 0x0A else if c = CHR ''r'' then CHR 0x0D
      else if c = CHR ''t'' then CHR 0x09 else c)"

definition read_rune :: "string \<Rightarrow> string \<times> string" where
  "read_rune s =
     (if s ! 0 = CHR 0x5C then
        (if s ! 1 = CHR ''u'' then
           (if s ! 2 = CHR ''2''
            then ([CHR 0xE2, CHR 0x80, if s ! 5 = CHR ''8'' then CHR 0xA8 else CHR 0xA9], drop 6 s)
            else ([char_of (16 * hex_val (s ! 4) + hex_val (s ! 5))], drop 6 s))
         else ([unescape (s ! 1)], drop 2 s))
      else (take (rune_size s) s, drop (rune_size s) s))"

lemma hex_val_digit [simp]: "n < 16 \<Longrightarrow> hex_val (hex_digit n) = n"
  by (simp add: hex_val_def hex_digit_def)

lemma hex_encode_inject [simp]: "hex_encode a = hex_encode b \<longleftrightarrow> a = b"
proof (induction a arbitrary: b)
  case Nil
  then show ?case by (cases b) (simp_all add: hex_encode_def)
next
  case (Cons c a)
  have val: "hex_val (hex_digit (byte_code d div 16)) * 16 + hex_val (hex_digit (byte_code d mod 16))
      = byte_code d" for d
    using byte_code_less [of d] by (simp add: div_less_iff_less_mult)
  show ?case
  proof (cases b)
    case (Cons d b')
    have "hex_digit (byte_code c div 16) = hex_digit (byte_code d div 16) \<and>
        hex_digit (byte_code c mod 16) = hex_digit (byte_code d mod 16) \<longleftrightarrow> c = d"
      using val [of c] val [of d] by (metis of_char_eq_iff)
    with Cons.IH [of b'] Cons show ?thesis by (auto simp: hex_encode_def)
  qed (simp add: hex_encode_def)
qed

lemma rune_size_append: "rune r \<Longrightarrow> rune_size (r @ x) = length r"
  by (cases "map of_char r :: nat list" rule: is_rune.cases)
    (auto simp: rune_size_def map_eq_Cons_conv is_cont_def)

lemma rune_size_rune: "rune_size s \<noteq> 0 \<Longrightarrow> rune (take (rune_size s) s)"
  by (simp add: rune_size_def split: if_splits)

text \<open>The three shapes of an escaped ASCII character.\<close>

lemma escape_byte_short:
  "c \<in> set [CHR 0x22, CHR 0x5C, CHR 0x08, CHR 0x0C, CHR 0x0A, CHR 0x0D, CHR 0x09] \<Longrightarrow>
     \<exists>e. escape_byte c = [CHR 0x5C, e] \<and> e \<noteq> CHR ''u'' \<and> unescape e = c"
  by (simp, elim disjE; simp add: escape_byte_def unescape_def Let_def)

lemma escape_byte_other:
  assumes "c \<notin> set [CHR 0x22, CHR 0x5C, CHR 0x08, CHR 0x0C, CHR 0x0A, CHR 0x0D, CHR 0x09]"
  shows "escape_byte c =
     (if byte_code c < 32 \<or> c \<in> set ''&<>''
      then [CHR 0x5C, CHR ''u'', CHR ''0'', CHR ''0'', hex_digit (byte_code c div 16),
            hex_digit (byte_code c mod 16)]
      else [c])"
  using assms
  by (simp add: escape_byte_def Let_def char_eq_code del: of_char_eq_iff)

lemma read_rune_escape:
  assumes "byte_code c < 128"
  shows "read_rune (escape_byte c @ x) = ([c], x)"
proof (cases "c \<in> set [CHR 0x22, CHR 0x5C, CHR 0x08, CHR 0x0C, CHR 0x0A, CHR 0x0D, CHR 0x09]")
  case True
  then obtain e where "escape_byte c = [CHR 0x5C, e]" "e \<noteq> CHR ''u''" "unescape e = c"
    using escape_byte_short by blast
  then show ?thesis by (simp add: read_rune_def)
next
  case False
  have size: "rune_size (c # x) = 1"
    using assms rune_size_append [of "[c]" x] by simp
  have "char_of (16 * (byte_code c div 16) + byte_code c mod 16) = c"
    by (simp add: mult_div_mod_eq)
  moreover have "byte_code c div 16 < 16" using assms by simp
  ultimately show ?thesis
    using False size by (auto simp: escape_byte_other read_rune_def)
qed

lemma rune_not_backslash: "rune r \<Longrightarrow> length r \<noteq> 1 \<Longrightarrow> r \<noteq> [] \<and> 128 \<le> byte_code (hd r)"
  by (cases "map of_char r :: nat list" rule: is_rune.cases) (auto simp: map_eq_Cons_conv)

lemma read_rune_text:
  assumes "rune r"
  shows "read_rune (rune_text r @ x) = (r, x)"
proof (cases "length r = 1")
  case True
  then obtain c where "r = [c]" by (cases r) auto
  with assms show ?thesis by (simp add: rune_text_def read_rune_escape)
next
  case False
  then obtain c s where r: "r = c # s" "128 \<le> byte_code c"
    using rune_not_backslash [OF assms] by (cases r) auto
  then have "c \<noteq> CHR 0x5C" by auto
  with False r rune_size_append [OF assms, of x] show ?thesis
    by (simp add: rune_text_def read_rune_def)
qed

lemma rune_text_inject:
  "rune r \<Longrightarrow> rune r' \<Longrightarrow> rune_text r @ x = rune_text r' @ y \<Longrightarrow> r = r' \<and> x = y"
  by (metis read_rune_text prod.inject)


section \<open>Prefix codes\<close>

text \<open>
  A text form is a prefix code when the value can be read off the front of any input that
  starts with its text. Texts of arrays of such values are prefix codes again, as long as no
  text is empty or starts like the end of an array.
\<close>

locale prefix_code =
  fixes enc :: "'a \<Rightarrow> string" and ok :: "'a \<Rightarrow> bool"
  assumes code_inject: "ok a \<Longrightarrow> ok b \<Longrightarrow> enc a @ x = enc b @ y \<Longrightarrow> a = b \<and> x = y"
begin

lemma code_eq_iff: "ok a \<Longrightarrow> ok b \<Longrightarrow> enc a @ x = enc b @ y \<longleftrightarrow> a = b \<and> x = y"
  using code_inject by blast

lemma enc_eqD: "enc a = enc b \<Longrightarrow> ok a \<Longrightarrow> ok b \<Longrightarrow> a = b"
  using code_inject [of a b "[]" "[]"] by simp

end

locale json_value = prefix_code +
  assumes code_start: "ok a \<Longrightarrow> enc a \<noteq> [] \<and> hd (enc a) \<noteq> CHR '']''"
begin

lemma tail_inject:
  "list_all ok xs \<Longrightarrow> list_all ok ys \<Longrightarrow>
     concat (map (\<lambda>v. CHR '','' # enc v) xs) @ CHR '']'' # x
       = concat (map (\<lambda>v. CHR '','' # enc v) ys) @ CHR '']'' # y \<Longrightarrow> xs = ys \<and> x = y"
proof (induction xs arbitrary: ys)
  case Nil
  then show ?case by (cases ys) auto
next
  case (Cons a as)
  then obtain b bs where ys: "ys = b # bs" by (cases ys) auto
  with Cons.prems have "a = b \<and> concat (map (\<lambda>v. CHR '','' # enc v) as) @ CHR '']'' # x
       = concat (map (\<lambda>v. CHR '','' # enc v) bs) @ CHR '']'' # y"
    by (auto dest: code_inject)
  with Cons.IH [of bs] Cons.prems ys show ?case by simp
qed

lemma array_inject:
  assumes "list_all ok xs" and "list_all ok ys" and "json_array enc xs @ x = json_array enc ys @ y"
  shows "xs = ys \<and> x = y"
proof -
  have arr: "json_array enc zs @ z =
      CHR ''['' # (case zs of [] \<Rightarrow> CHR '']'' # z
        | a # as \<Rightarrow> enc a @ concat (map (\<lambda>v. CHR '','' # enc v) as) @ CHR '']'' # z)" for zs z
    by (cases zs) (simp_all add: json_array_def Join_tail comp_def)
  have ne: "enc a @ z \<noteq> CHR '']'' # w" "CHR '']'' # w \<noteq> enc a @ z" if "ok a" for a z w
    using code_start [OF that] by (cases "enc a"; simp)+
  show ?thesis
  proof (cases xs; cases ys)
    fix a as b bs
    assume xs: "xs = a # as" and ys: "ys = b # bs"
    with assms have "enc a @ concat (map (\<lambda>v. CHR '','' # enc v) as) @ CHR '']'' # x
        = enc b @ concat (map (\<lambda>v. CHR '','' # enc v) bs) @ CHR '']'' # y"
      by (simp add: arr)
    then have "a = b \<and> concat (map (\<lambda>v. CHR '','' # enc v) as) @ CHR '']'' # x
        = concat (map (\<lambda>v. CHR '','' # enc v) bs) @ CHR '']'' # y"
      using assms xs ys by (intro code_inject) auto
    with tail_inject [of as bs x y] assms(1,2) xs ys show ?thesis by simp
  qed (use assms ne in \<open>auto simp: arr\<close>)
qed

end

sublocale json_value \<subseteq> arr: prefix_code "json_array enc" "list_all ok"
  by unfold_locales (rule array_inject)

lemma rune_text_start: "rune r \<Longrightarrow> rune_text r \<noteq> [] \<and> hd (rune_text r) \<noteq> CHR 0x22"
proof (cases "length r = 1")
  case True
  then obtain c where r: "r = [c]" by (cases r) auto
  show ?thesis
  proof (cases "c \<in> set [CHR 0x22, CHR 0x5C, CHR 0x08, CHR 0x0C, CHR 0x0A, CHR 0x0D, CHR 0x09]")
    case True
    then obtain e where "escape_byte c = [CHR 0x5C, e]" using escape_byte_short by blast
    with r show ?thesis by (simp add: rune_text_def)
  next
    case False
    with escape_byte_other [of c] r show ?thesis by (simp add: rune_text_def)
  qed
next
  case False
  moreover assume "rune r"
  ultimately have "r \<noteq> [] \<and> 128 \<le> byte_code (hd r)" by (rule rune_not_backslash [rotated])
  moreover from this have "hd r \<noteq> CHR 0x22" by auto
  ultimately show ?thesis using False by (simp add: rune_text_def)
qed

lemma json_chars_inject:
  "valid_utf8 s \<Longrightarrow> valid_utf8 t \<Longrightarrow> json_chars s @ CHR 0x22 # x = json_chars t @ CHR 0x22 # y \<Longrightarrow>
     s = t \<and> x = y"
proof (induction s arbitrary: t rule: json_chars.induct)
  case (1 s)
  have step: "json_chars u = rune_text (take (rune_size u) u) @ json_chars (drop (rune_size u) u)"
    "rune (take (rune_size u) u)" "valid_utf8 (drop (rune_size u) u)" "rune_size u \<noteq> 0"
    if "valid_utf8 u" "u \<noteq> []" for u
    using that rune_size_rune [of u]
    by (simp_all add: json_chars.simps [of u] valid_utf8.simps [of u] split: if_splits)
  have empty: "json_chars [] = []" by (simp add: json_chars.simps)
  show ?case
  proof (cases "s = [] \<or> t = []")
    case True
    have "json_chars u @ CHR 0x22 # w \<noteq> CHR 0x22 # z" if u: "valid_utf8 u" "u \<noteq> []" for u w z
    proof -
      obtain c cs where "rune_text (take (rune_size u) u) = c # cs" "c \<noteq> CHR 0x22"
        using rune_text_start [OF step(2) [OF u]]
        by (cases "rune_text (take (rune_size u) u)") auto
      then show ?thesis by (simp add: step(1) [OF u])
    qed
    with True "1.prems" show ?thesis
      by (cases "s = []"; cases "t = []") (simp_all add: empty, metis)
  next
    case False
    let ?r = "take (rune_size s) s" and ?q = "take (rune_size t) t"
    let ?s = "drop (rune_size s) s" and ?t = "drop (rune_size t) t"
    have "?r = ?q \<and> json_chars ?s @ CHR 0x22 # x = json_chars ?t @ CHR 0x22 # y"
      using "1.prems" step [of s] step [of t] False by (intro rune_text_inject) auto
    moreover from this have "?s = ?t \<and> x = y"
      using "1.prems" step [of s] step [of t] False by (intro "1.IH") auto
    ultimately show ?thesis by (metis append_take_drop_id)
  qed
qed

interpretation js: json_value json_string valid_utf8
proof
  show "a = b \<and> x = y"
    if "valid_utf8 a" "valid_utf8 b" "json_string a @ x = json_string b @ y" for a b x y
    using that json_chars_inject [of a b x y] by (simp add: json_string_def)
qed (simp add: json_string_def)

section \<open>Reading strings, arrays and objects of strings\<close>

text \<open>
  \<^verbatim>\<open>json.Unmarshal\<close> into a slice or a map of strings, on the texts \<^verbatim>\<open>json.Marshal\<close> writes: no
  white space between tokens. Go's parser accepts more; the program reads only what it wrote.
\<close>

function read_chars :: "string \<Rightarrow> (string \<times> string) option" where
  "read_chars s =
     (case s of
        [] \<Rightarrow> None
      | c # s' \<Rightarrow>
          if c = CHR 0x22 then Some ([], s')
          else case read_rune s of
            (r, rest) \<Rightarrow>
              if length rest < length s
              then map_option (\<lambda>(t, u). (r @ t, u)) (read_chars rest) else None)"
  by pat_completeness auto
termination
  by (relation "measure length") auto

declare read_chars.simps [simp del]

definition read_string :: "string \<Rightarrow> (string \<times> string) option" where
  "read_string s = (case s of c # s' \<Rightarrow> if c = CHR 0x22 then read_chars s' else None | [] \<Rightarrow> None)"

fun read_list :: "nat \<Rightarrow> (string \<Rightarrow> ('a \<times> string) option) \<Rightarrow> char \<Rightarrow> string \<Rightarrow> ('a list \<times> string) option" where
  "read_list 0 item close s = None"
| "read_list (Suc n) item close s =
     (case item s of
        Some (a, c # rest) \<Rightarrow>
          if c = close then Some ([a], rest)
          else if c = CHR '','' then map_option (\<lambda>(as, u). (a # as, u)) (read_list n item close rest)
          else None
      | _ \<Rightarrow> None)"

definition unmarshal_strings :: "string \<Rightarrow> string list option" where
  "unmarshal_strings s =
     (if s = ''[]'' then Some []
      else case s of
        c # rest \<Rightarrow>
          if c = CHR ''['' then
            (case read_list (length s) read_string (CHR '']'') rest of Some (xs, []) \<Rightarrow> Some xs | _ \<Rightarrow> None)
          else None
      | [] \<Rightarrow> None)"

definition read_member :: "string \<Rightarrow> ((string \<times> string) \<times> string) option" where
  "read_member s =
     (case read_string s of
        Some (k, c # rest) \<Rightarrow>
          if c = CHR '':'' then map_option (\<lambda>(v, u). ((k, v), u)) (read_string rest) else None
      | _ \<Rightarrow> None)"

definition unmarshal_string_map :: "string \<Rightarrow> string strmap option" where
  "unmarshal_string_map s =
     (if s = ''{}'' then Some []
      else case s of
        c # rest \<Rightarrow>
          if c = CHR ''{'' then
            (case read_list (length s) read_member (CHR ''}'') rest of Some (xs, []) \<Rightarrow> Some xs | _ \<Rightarrow> None)
          else None
      | [] \<Rightarrow> None)"

lemma read_chars_json: "valid_utf8 t \<Longrightarrow> read_chars (json_chars t @ CHR 0x22 # x) = Some (t, x)"
proof (induction t rule: json_chars.induct)
  case (1 t)
  show ?case
  proof (cases "t = []")
    case True
    then show ?thesis by (simp add: json_chars.simps read_chars.simps)
  next
    case False
    let ?r = "take (rune_size t) t" and ?t = "drop (rune_size t) t"
    have size: "rune_size t \<noteq> 0" and valid: "valid_utf8 ?t" and r: "rune ?r"
      using "1.prems" False rune_size_rune [of t] by (simp_all add: valid_utf8.simps [of t] split: if_splits)
    have split: "json_chars t = rune_text ?r @ json_chars ?t" using False size by (simp add: json_chars.simps [of t])
    obtain c cs where c: "rune_text ?r = c # cs" "c \<noteq> CHR 0x22"
      using rune_text_start [OF r] by (cases "rune_text ?r") auto
    have "read_rune (json_chars t @ CHR 0x22 # x) = (?r, json_chars ?t @ CHR 0x22 # x)"
      using read_rune_text [OF r] by (simp add: split)
    moreover have "read_chars (json_chars ?t @ CHR 0x22 # x) = Some (?t, x)"
      using "1.IH" False size valid by simp
    ultimately show ?thesis
      using c by (simp add: split read_chars.simps [of "c # cs @ y" for y])
  qed
qed

lemma read_string_json: "valid_utf8 t \<Longrightarrow> read_string (json_string t @ x) = Some (t, x)"
  by (simp add: read_string_def json_string_def read_chars_json)

text \<open>A list of items is read back when every item is.\<close>

lemma read_list_items:
  assumes "\<And>a x. a \<in> set xs \<Longrightarrow> item (enc a @ x) = Some (a, x)" and "xs \<noteq> []" and "length xs \<le> n"
    and "close \<noteq> CHR '',''"
  shows "read_list n item close (Join (map enc xs) '','' @ close # y) = Some (xs, y)"
  using assms(1-3)
proof (induction xs arbitrary: n)
  case (Cons a as)
  then obtain m where n: "n = Suc m" by (cases n) auto
  show ?case
  proof (cases "as = []")
    case True
    then show ?thesis using Cons.prems(1) n by simp
  next
    case False
    have "item (enc a @ '','' @ Join (map enc as) '','' @ close # y)
        = Some (a, '','' @ Join (map enc as) '','' @ close # y)"
      using Cons.prems(1) [of a] by simp
    moreover have "read_list m item close (Join (map enc as) '','' @ close # y) = Some (as, y)"
      using Cons False n by simp
    moreover have "Join (map enc (a # as)) '','' = enc a @ '','' @ Join (map enc as) '',''"
      using False by (simp add: Join_Cons)
    ultimately show ?thesis using assms(4) n by simp
  qed
qed simp

lemma json_string_length: "2 \<le> length (json_string s)"
  by (simp add: json_string_def)

lemma length_Join_items: "\<forall>a \<in> set xs. 1 \<le> length (enc a) \<Longrightarrow> length xs \<le> length (Join (map enc xs) sep)"
proof (induction xs)
  case (Cons a as)
  then show ?case by (cases as) (auto simp: Join_Cons)
qed simp

lemma unmarshal_strings_json:
  assumes "list_all valid_utf8 xs"
  shows "unmarshal_strings (json_array json_string xs) = Some xs"
proof (cases "xs = []")
  case True
  then show ?thesis by (simp add: json_array_def unmarshal_strings_def)
next
  case False
  let ?s = "json_array json_string xs"
  have body: "?s = CHR ''['' # Join (map json_string xs) '','' @ '']''" by (simp add: json_array_def)
  have "length xs \<le> length (Join (map json_string xs) '','')"
    by (rule length_Join_items) (simp add: json_string_def)
  then have len: "length xs \<le> length ?s" by (simp add: body)
  have "read_list (length ?s) read_string (CHR '']'') (Join (map json_string xs) '','' @ CHR '']'' # []) = Some (xs, [])"
    using assms False len by (intro read_list_items) (auto simp: list_all_iff read_string_json)
  moreover have "?s \<noteq> ''[]''"
    using False by (cases xs) (auto simp: json_array_def Join_tail json_string_def)
  ultimately show ?thesis by (simp add: unmarshal_strings_def body)
qed

definition member_text :: "string \<Rightarrow> string \<Rightarrow> string" where
  "member_text name val = json_string name @ '':'' @ val"

text \<open>Maps are written with their keys in order.\<close>

definition json_string_map :: "string strmap \<Rightarrow> string" where
  "json_string_map m =
     ''{'' @ Join (map (\<lambda>(k, v). member_text k (json_string v))
        (map (\<lambda>k. (k, map_at [] m k)) (sort (map_keys m)))) '','' @ ''}''"

lemma unmarshal_members:
  assumes "xs \<noteq> []" and "\<forall>(k, v) \<in> set xs. valid_utf8 k \<and> valid_utf8 v"
  shows "unmarshal_string_map (''{'' @ Join (map (\<lambda>(k, v). member_text k (json_string v)) xs) '','' @ ''}'') = Some xs"
proof -
  let ?enc = "\<lambda>(k, v). member_text k (json_string v)"
  let ?s = "''{'' @ Join (map ?enc xs) '','' @ ''}''"
  have "length xs \<le> length (Join (map ?enc xs) '','')"
    by (rule length_Join_items) (auto simp: member_text_def json_string_def)
  then have len: "length xs \<le> length ?s" by simp
  have "read_list (length ?s) read_member (CHR ''}'') (Join (map ?enc xs) '','' @ CHR ''}'' # []) = Some (xs, [])"
  proof (rule read_list_items)
    fix a x
    assume "a \<in> set xs"
    with assms(2) show "read_member (?enc a @ x) = Some (a, x)"
      by (auto simp: read_member_def member_text_def read_string_json)
  qed (use assms(1) len in simp_all)
  moreover have "?s \<noteq> ''{}''"
    using assms(1) by (cases xs) (auto simp: Join_tail member_text_def json_string_def)
  ultimately show ?thesis by (simp add: unmarshal_string_map_def)
qed

lemma unmarshal_string_map_json:
  assumes "\<forall>(k, v) \<in> set m. valid_utf8 k \<and> valid_utf8 v"
  shows "unmarshal_string_map (json_string_map m) = Some (map (\<lambda>k. (k, map_at [] m k)) (sort (map_keys m)))"
proof (cases "m = []")
  case True
  then show ?thesis by (simp add: json_string_map_def unmarshal_string_map_def)
next
  case False
  have "valid_utf8 k \<and> valid_utf8 (map_at [] m k)" if "k \<in> set (map_keys m)" for k
  proof -
    have "map_get m k \<noteq> None" using \<open>k \<in> set (map_keys m)\<close> by (simp add: map_of_eq_None_iff)
    then obtain v where "map_get m k = Some v" by blast
    with assms show ?thesis by (auto dest: map_of_SomeD)
  qed
  then have "\<forall>(k, v) \<in> set (map (\<lambda>k. (k, map_at [] m k)) (sort (map_keys m))). valid_utf8 k \<and> valid_utf8 v" by auto
  moreover have "length (map (\<lambda>k. (k, map_at [] m k)) (sort (map_keys m))) \<noteq> 0" using False by simp
  then have "map (\<lambda>k. (k, map_at [] m k)) (sort (map_keys m)) \<noteq> []" by (rule contrapos_nn) (simp only: list.size)
  ultimately show ?thesis unfolding json_string_map_def by (intro unmarshal_members)
qed

end
