(* ===== verification/X509.thy ===== *)
theory X509
  imports Go_Json
begin

text \<open>
  X.509 data as certplane reads it, and the operations of Go's \<^verbatim>\<open>crypto\<close> packages and of
  \<^verbatim>\<open>encoding/pem\<close> that it calls. The fields of certificates and requests are the ones the
  source reads. The cryptographic operations are not modelled: they are the fields of the
  record \<open>crypto\<close>, an argument of every definition that uses them, so that what is proved
  holds for whatever they compute.
\<close>

type_synonym public_key = string
type_synonym private_key = string

definition ExtKeyUsageClientAuth :: nat where
  "ExtKeyUsageClientAuth = 2"

record certificate =
  certRaw :: string
  certCommonName :: string
  certIsCA :: bool
  certNotBefore :: instant
  certNotAfter :: instant
  certExtKeyUsage :: "nat list"
  certDNSNames :: "string list"
  certPublicKey :: public_key
  certSerialNumber :: "int option"

record certificate_request =
  csrCommonName :: string
  csrDNSNames :: "string list"
  csrPublicKey :: public_key

record crypto =
  sha256 :: "string \<Rightarrow> string"
  pem_decode :: "string \<Rightarrow> (string \<times> string) option"
  pem_encode :: "string \<Rightarrow> string \<Rightarrow> string"
  parse_certificate :: "string \<Rightarrow> certificate option"
  parse_request :: "string \<Rightarrow> certificate_request option"
  check_signature :: "certificate_request \<Rightarrow> bool"
  marshal_public :: "public_key \<Rightarrow> string option"
  parse_pkcs8 :: "string \<Rightarrow> private_key option"
  parse_ec :: "string \<Rightarrow> private_key option"
  is_signer :: "private_key \<Rightarrow> bool"
  marshal_pkcs8 :: "private_key \<Rightarrow> string option"
  public_of :: "private_key \<Rightarrow> public_key"
  create_request :: "certificate_request \<Rightarrow> private_key \<Rightarrow> string option"


text \<open>
  One concrete choice of the operations, at which the theorems below are applied: texts are
  their own digests, and the DER forms are short literals.
\<close>

definition example_certificate :: certificate where
  "example_certificate = \<lparr>certRaw = ''der'', certCommonName = ''host-1'', certIsCA = False,
     certNotBefore = 0, certNotAfter = 100 * 24 * Hour, certExtKeyUsage = [ExtKeyUsageClientAuth],
     certDNSNames = [''a.example.com''], certPublicKey = ''pub'', certSerialNumber = Some 7\<rparr>"

definition example_request :: certificate_request where
  "example_request = \<lparr>csrCommonName = ''a.example.com'', csrDNSNames = [''a.example.com''],
     csrPublicKey = ''pub''\<rparr>"

definition example_crypto :: crypto where
  "example_crypto = \<lparr>sha256 = (\<lambda>s. s),
     pem_decode = (\<lambda>s. case split_on (CHR '':'') s of [t, b] \<Rightarrow> Some (t, b) | _ \<Rightarrow> None),
     pem_encode = (\<lambda>t b. t @ '':'' @ b),
     parse_certificate = (\<lambda>s. if s = ''der'' then Some example_certificate else None),
     parse_request = (\<lambda>s. if s = ''req'' then Some example_request else None),
     check_signature = (\<lambda>_. True),
     marshal_public = (\<lambda>k. Some k),
     parse_pkcs8 = (\<lambda>s. if s = ''key'' then Some ''key'' else None),
     parse_ec = (\<lambda>_. None),
     is_signer = (\<lambda>_. True),
     marshal_pkcs8 = (\<lambda>k. Some k),
     public_of = (\<lambda>_. ''pub''),
     create_request = (\<lambda>_ _. Some ''req'')\<rparr>"

end
