(* ===== verification/Policy.thy ===== *)
theory Policy
  imports Dnsname X509
begin

text \<open>
  Package \<^verbatim>\<open>internal/broker/policy\<close>: a policy file is compiled once into maps of profiles and
  hosts, and every certificate request is authorised against the compiled policy.

  \<open>Compile\<close> is shown to accept exactly the well-formed configurations, its result satisfies the
  invariant \<open>policy_wf\<close>, and \<open>Authorize\<close> grants exactly what the configuration says, so the
  compilation refines the declarative reading \<open>config_grants\<close> of the file.
\<close>

section \<open>Configuration and compiled policy\<close>

definition CurrentVersion :: int where
  "CurrentVersion = 1"

record raw_acme =
  rawChallenge :: string
  rawCredentials :: string

record raw_profile =
  rawType :: string
  rawDNSNames :: "string list"
  rawACME :: raw_acme
  rawRenewBefore :: duration

record raw_host =
  rawIdentity :: string
  rawProfiles :: "string list"

record policy_config =
  cfgVersion :: int
  cfgProfiles :: "raw_profile strmap"
  cfgHosts :: "raw_host strmap"

record compiled_acme =
  Challenge :: string
  Credentials :: string

record compiled_profile =
  profName :: string
  profType :: string
  profDNSNames :: "string list"
  profACME :: compiled_acme
  profRenewBefore :: duration
  profHash :: string

type_synonym profile_set = "bool strmap"

record compiled_host =
  hostName :: string
  hostIdentity :: string
  hostProfiles :: profile_set

record compiled_policy =
  polVersion :: int
  polProfiles :: "compiled_profile strmap"
  HostsByName :: "compiled_host strmap"
  HostsByIdentity :: "compiled_host strmap"
  polHash :: string
  LoadedAt :: instant

text \<open>The zero values Go reads for an absent map key.\<close>

definition zero_profile :: raw_profile where
  "zero_profile = \<lparr>rawType = [], rawDNSNames = [], rawACME = \<lparr>rawChallenge = [], rawCredentials = []\<rparr>,
     rawRenewBefore = 0\<rparr>"

definition zero_host :: raw_host where
  "zero_host = \<lparr>rawIdentity = [], rawProfiles = []\<rparr>"

definition zero_compiled_profile :: compiled_profile where
  "zero_compiled_profile = \<lparr>profName = [], profType = [], profDNSNames = [],
     profACME = \<lparr>Challenge = [], Credentials = []\<rparr>, profRenewBefore = 0, profHash = []\<rparr>"

definition zero_compiled_host :: compiled_host where
  "zero_compiled_host = \<lparr>hostName = [], hostIdentity = [], hostProfiles = []\<rparr>"

section \<open>Sets of profile names\<close>

definition NewProfileSet :: "string list \<Rightarrow> profile_set" where
  "NewProfileSet names = fold (\<lambda>name s. map_put name True s) names []"

definition ProfileSet_Contains :: "profile_set \<Rightarrow> string \<Rightarrow> bool" where
  "ProfileSet_Contains s name = (case map_get s name of None \<Rightarrow> False | Some b \<Rightarrow> b)"

definition ProfileSet_Names :: "profile_set \<Rightarrow> string list" where
  "ProfileSet_Names s = map_keys s"

definition AllowsProfile :: "compiled_host \<Rightarrow> string \<Rightarrow> bool" where
  "AllowsProfile h name = ProfileSet_Contains (hostProfiles h) name"

definition sortedMapKeys :: "'v strmap \<Rightarrow> string list" where
  "sortedMapKeys m = sort (map_keys m)"

section \<open>Hashes\<close>

text \<open>
  The texts \<^verbatim>\<open>json.Marshal\<close> writes for \<^verbatim>\<open>profileHashInput\<close> and \<^verbatim>\<open>policyHashInput\<close>. Marshalling
  structs of strings, integers and non-nil slices cannot fail, so \<^verbatim>\<open>hashCanonical\<close> returns no
  error.
\<close>

definition profile_hash_json :: "compiled_profile \<Rightarrow> string" where
  "profile_hash_json p =
     ''{'' @ json_string ''type'' @ '':'' @ json_string (profType p)
     @ '','' @ json_string ''dns_names'' @ '':'' @ json_array json_string (profDNSNames p)
     @ '','' @ json_string ''acme'' @ '':'' @
        ''{'' @ json_string ''challenge'' @ '':'' @ json_string (Challenge (profACME p))
        @ '','' @ json_string ''credentials'' @ '':'' @ json_string (Credentials (profACME p)) @ ''}''
     @ '','' @ json_string ''renew_before'' @ '':'' @ json_string (Duration_String (profRenewBefore p)) @ ''}''"

type_synonym profile_hash_record = "string \<times> string"
type_synonym host_hash_record = "string \<times> string \<times> string list"

definition profile_record_json :: "profile_hash_record \<Rightarrow> string" where
  "profile_record_json r =
     ''{'' @ json_string ''name'' @ '':'' @ json_string (fst r)
     @ '','' @ json_string ''hash'' @ '':'' @ json_string (snd r) @ ''}''"

definition host_record_json :: "host_hash_record \<Rightarrow> string" where
  "host_record_json r =
     ''{'' @ json_string ''name'' @ '':'' @ json_string (fst r)
     @ '','' @ json_string ''identity'' @ '':'' @ json_string (fst (snd r))
     @ '','' @ json_string ''profiles'' @ '':'' @ json_array json_string (snd (snd r)) @ ''}''"

definition profile_records :: "compiled_policy \<Rightarrow> profile_hash_record list" where
  "profile_records p =
     map (\<lambda>name. let profile = map_at zero_compiled_profile (polProfiles p) name
                 in (profName profile, profHash profile))
       (sortedMapKeys (polProfiles p))"

definition host_records :: "compiled_policy \<Rightarrow> host_hash_record list" where
  "host_records p =
     map (\<lambda>name. let host = map_at zero_compiled_host (HostsByName p) name
                 in (hostName host, hostIdentity host, sort (map_keys (hostProfiles host))))
       (sortedMapKeys (HostsByName p))"

definition policy_hash_json :: "compiled_policy \<Rightarrow> string" where
  "policy_hash_json p =
     ''{'' @ json_string ''version'' @ '':'' @ json_int (polVersion p)
     @ '','' @ json_string ''profiles'' @ '':'' @ json_array profile_record_json (profile_records p)
     @ '','' @ json_string ''hosts'' @ '':'' @ json_array host_record_json (host_records p) @ ''}''"

definition hashCanonical :: "crypto \<Rightarrow> string \<Rightarrow> string" where
  "hashCanonical cr data = hex_encode (sha256 cr data)"

definition computeProfileHash :: "crypto \<Rightarrow> compiled_profile \<Rightarrow> string" where
  "computeProfileHash cr profile = hashCanonical cr (profile_hash_json profile)"

definition computePolicyHash :: "crypto \<Rightarrow> compiled_policy \<Rightarrow> string" where
  "computePolicyHash cr p = hashCanonical cr (policy_hash_json p)"

section \<open>Compilation\<close>

datatype profile_error =
    ProfileNameRequired
  | TypeRequired
  | DNSNamesError dns_error
  | DNSNamesRequired
  | ChallengeRequired
  | NonWildcardName string
  | WildcardNeedsDNS01
  | WildcardInMultiSAN string
  | MultiSANNeedsDNS01
  | UnsupportedType string
  | NegativeRenewBefore

datatype compile_error =
    UnsupportedVersion int
  | NoProfiles
  | NoHosts
  | ProfileFailed string profile_error
  | HostNameRequired
  | HostIdentityRequired string
  | HostNeedsProfile string
  | HostEmptyProfileRef string
  | HostUnknownProfile string string
  | DuplicateIdentity string

definition defaultRenewBefore :: duration where
  "defaultRenewBefore = 30 * 24 * Hour"

definition validateProfileType :: "string \<Rightarrow> string list \<Rightarrow> compiled_acme \<Rightarrow> profile_error option" where
  "validateProfileType profileType dnsNames acme =
     (if Challenge acme = [] then Some ChallengeRequired
      else if profileType = ''wildcard'' then
        (case find (\<lambda>name. \<not> IsValidWildcard name) dnsNames of
           Some name \<Rightarrow> Some (NonWildcardName name)
         | None \<Rightarrow> if Challenge acme \<noteq> ''dns-01'' then Some WildcardNeedsDNS01 else None)
      else if profileType = ''multi_san'' then
        (case find IsValidWildcard dnsNames of
           Some name \<Rightarrow> Some (WildcardInMultiSAN name)
         | None \<Rightarrow> if Challenge acme \<noteq> ''dns-01'' then Some MultiSANNeedsDNS01 else None)
      else Some (UnsupportedType profileType))"

definition compileProfile :: "crypto \<Rightarrow> string \<Rightarrow> raw_profile \<Rightarrow> (profile_error, compiled_profile) result" where
  "compileProfile cr name0 raw =
     (let name = TrimSpace name0; profileType = TrimSpace (rawType raw) in
      if name = [] then Inl ProfileNameRequired
      else if profileType = [] then Inl TypeRequired
      else case CanonicalList (rawDNSNames raw) of
        Inl e \<Rightarrow> Inl (DNSNamesError e)
      | Inr canonicalNames \<Rightarrow>
          if canonicalNames = [] then Inl DNSNamesRequired
          else
            let acme = \<lparr>Challenge = TrimSpace (rawChallenge (rawACME raw)),
                        Credentials = TrimSpace (rawCredentials (rawACME raw))\<rparr> in
            case validateProfileType profileType canonicalNames acme of
              Some e \<Rightarrow> Inl e
            | None \<Rightarrow>
                let renewBefore = (if rawRenewBefore raw = 0 then defaultRenewBefore else rawRenewBefore raw) in
                if renewBefore < 0 then Inl NegativeRenewBefore
                else
                  let profile = \<lparr>profName = name, profType = profileType, profDNSNames = canonicalNames,
                        profACME = acme, profRenewBefore = renewBefore, profHash = []\<rparr>
                  in Inr (profile\<lparr>profHash := computeProfileHash cr profile\<rparr>))"

fun host_profiles_loop ::
  "string \<Rightarrow> compiled_profile strmap \<Rightarrow> profile_set \<Rightarrow> string list \<Rightarrow> (compile_error, profile_set) result" where
  "host_profiles_loop name profiles allowed [] = Inr allowed"
| "host_profiles_loop name profiles allowed (ref # refs) =
     (let profileName = TrimSpace ref in
      if profileName = [] then Inl (HostEmptyProfileRef name)
      else case map_get profiles profileName of
        None \<Rightarrow> Inl (HostUnknownProfile name profileName)
      | Some _ \<Rightarrow> host_profiles_loop name profiles (map_put profileName True allowed) refs)"

definition compileHost ::
  "string \<Rightarrow> raw_host \<Rightarrow> compiled_profile strmap \<Rightarrow> (compile_error, compiled_host) result" where
  "compileHost name0 raw profiles =
     (let name = TrimSpace name0; identity = TrimSpace (rawIdentity raw) in
      if name = [] then Inl HostNameRequired
      else if identity = [] then Inl (HostIdentityRequired name)
      else if rawProfiles raw = [] then Inl (HostNeedsProfile name)
      else case host_profiles_loop name profiles [] (rawProfiles raw) of
        Inl e \<Rightarrow> Inl e
      | Inr allowed \<Rightarrow> Inr \<lparr>hostName = name, hostIdentity = identity, hostProfiles = allowed\<rparr>)"

fun compile_profiles_loop ::
  "crypto \<Rightarrow> raw_profile strmap \<Rightarrow> compiled_profile strmap \<Rightarrow> string list
   \<Rightarrow> (compile_error, compiled_profile strmap) result" where
  "compile_profiles_loop cr raws acc [] = Inr acc"
| "compile_profiles_loop cr raws acc (name # names) =
     (case compileProfile cr name (map_at zero_profile raws name) of
        Inl e \<Rightarrow> Inl (ProfileFailed name e)
      | Inr profile \<Rightarrow> compile_profiles_loop cr raws (map_put name profile acc) names)"

fun compile_hosts_loop ::
  "raw_host strmap \<Rightarrow> compiled_profile strmap \<Rightarrow> compiled_host strmap \<Rightarrow> compiled_host strmap \<Rightarrow> string list
   \<Rightarrow> (compile_error, compiled_host strmap \<times> compiled_host strmap) result" where
  "compile_hosts_loop raws profiles byName byIdentity [] = Inr (byName, byIdentity)"
| "compile_hosts_loop raws profiles byName byIdentity (name # names) =
     (case compileHost name (map_at zero_host raws name) profiles of
        Inl e \<Rightarrow> Inl e
      | Inr host \<Rightarrow>
          (case map_get byIdentity (hostIdentity host) of
             Some _ \<Rightarrow> Inl (DuplicateIdentity (hostIdentity host))
           | None \<Rightarrow> compile_hosts_loop raws profiles (map_put name host byName)
                       (map_put (hostIdentity host) host byIdentity) names))"

definition Compile :: "crypto \<Rightarrow> instant \<Rightarrow> policy_config \<Rightarrow> (compile_error, compiled_policy) result" where
  "Compile cr now cfg =
     (let version = (if cfgVersion cfg = 0 then CurrentVersion else cfgVersion cfg) in
      if version \<noteq> CurrentVersion then Inl (UnsupportedVersion version)
      else if cfgProfiles cfg = [] then Inl NoProfiles
      else if cfgHosts cfg = [] then Inl NoHosts
      else case compile_profiles_loop cr (cfgProfiles cfg) [] (sortedMapKeys (cfgProfiles cfg)) of
        Inl e \<Rightarrow> Inl e
      | Inr profiles \<Rightarrow>
          (case compile_hosts_loop (cfgHosts cfg) profiles [] [] (sortedMapKeys (cfgHosts cfg)) of
             Inl e \<Rightarrow> Inl e
           | Inr (byName, byIdentity) \<Rightarrow>
               let compiled = \<lparr>polVersion = version, polProfiles = profiles, HostsByName = byName,
                     HostsByIdentity = byIdentity, polHash = [], LoadedAt = now\<rparr>
               in Inr (compiled\<lparr>polHash := computePolicyHash cr compiled\<rparr>)))"

section \<open>Authorisation\<close>

datatype authorize_error =
    ErrUnknownIdentity
  | ErrUnknownProfile
  | ErrProfileNotAllowed
  | ErrCSRNamesMismatch
  | ErrInvalidCSR "dns_error option"

fun sameStringSet_loop :: "string list \<Rightarrow> string list \<Rightarrow> bool" where
  "sameStringSet_loop (a # as) (b # bs) = (if a \<noteq> b then False else sameStringSet_loop as bs)"
| "sameStringSet_loop _ _ = True"

definition sameStringSet :: "string list \<Rightarrow> string list \<Rightarrow> bool" where
  "sameStringSet a b = (if length a \<noteq> length b then False else sameStringSet_loop a b)"

text \<open>\<^verbatim>\<open>Authorize\<close> returns a profile and an error; both may be present.\<close>

definition Authorize ::
  "compiled_policy \<Rightarrow> string \<Rightarrow> string \<Rightarrow> certificate_request option
   \<Rightarrow> compiled_profile option \<times> authorize_error option" where
  "Authorize p identity profileName csr =
     (case csr of
        None \<Rightarrow> (None, Some (ErrInvalidCSR None))
      | Some req \<Rightarrow>
          (case map_get (HostsByIdentity p) identity of
             None \<Rightarrow> (None, Some ErrUnknownIdentity)
           | Some host \<Rightarrow>
               if \<not> AllowsProfile host profileName then (None, Some ErrProfileNotAllowed)
               else case map_get (polProfiles p) profileName of
                 None \<Rightarrow> (None, Some ErrUnknownProfile)
               | Some profile \<Rightarrow>
                   (case CanonicalList (csrDNSNames req) of
                      Inl e \<Rightarrow> (Some profile, Some (ErrInvalidCSR (Some e)))
                    | Inr csrNames \<Rightarrow>
                        if \<not> sameStringSet csrNames (profDNSNames profile)
                        then (Some profile, Some ErrCSRNamesMismatch)
                        else (Some profile, None))))"


section \<open>What a configuration means\<close>

text \<open>
  The declarative reading of a configuration: which profiles and hosts are well formed, and
  which requests it grants. Nothing here mentions compiled maps.
\<close>

definition valid_profile :: "string \<Rightarrow> raw_profile \<Rightarrow> bool" where
  "valid_profile name r \<longleftrightarrow>
     TrimSpace name \<noteq> [] \<and> valid_names (rawDNSNames r) \<and> rawDNSNames r \<noteq> []
     \<and> TrimSpace (rawChallenge (rawACME r)) = ''dns-01''
     \<and> (TrimSpace (rawType r) = ''wildcard'' \<and> (\<forall>n \<in> name_set (rawDNSNames r). wildcard_name n)
        \<or> TrimSpace (rawType r) = ''multi_san'' \<and> (\<forall>n \<in> name_set (rawDNSNames r). \<not> wildcard_name n))
     \<and> 0 \<le> rawRenewBefore r"

definition valid_host :: "string set \<Rightarrow> string \<Rightarrow> raw_host \<Rightarrow> bool" where
  "valid_host profiles name h \<longleftrightarrow>
     TrimSpace name \<noteq> [] \<and> TrimSpace (rawIdentity h) \<noteq> [] \<and> rawProfiles h \<noteq> []
     \<and> (\<forall>ref \<in> set (rawProfiles h). TrimSpace ref \<noteq> [] \<and> TrimSpace ref \<in> profiles)"

definition valid_config :: "policy_config \<Rightarrow> bool" where
  "valid_config cfg \<longleftrightarrow>
     (cfgVersion cfg = 0 \<or> cfgVersion cfg = CurrentVersion)
     \<and> cfgProfiles cfg \<noteq> [] \<and> cfgHosts cfg \<noteq> []
     \<and> (\<forall>(name, r) \<in> set (cfgProfiles cfg). valid_profile name r)
     \<and> (\<forall>(name, h) \<in> set (cfgHosts cfg). valid_host (set (map_keys (cfgProfiles cfg))) name h)
     \<and> distinct (map (\<lambda>(name, h). TrimSpace (rawIdentity h)) (cfgHosts cfg))"

definition config_wf :: "policy_config \<Rightarrow> bool" where
  "config_wf cfg \<longleftrightarrow> map_wf (cfgProfiles cfg) \<and> map_wf (cfgHosts cfg)"

definition config_grants :: "policy_config \<Rightarrow> string \<Rightarrow> string \<Rightarrow> string list \<Rightarrow> bool" where
  "config_grants cfg identity profile names \<longleftrightarrow>
     (\<exists>(hname, h) \<in> set (cfgHosts cfg).
        TrimSpace (rawIdentity h) = identity \<and> profile \<in> TrimSpace ` set (rawProfiles h))
     \<and> (\<exists>(key, r) \<in> set (cfgProfiles cfg).
          key = profile \<and> valid_names names \<and> name_set names = name_set (rawDNSNames r))"

section \<open>Compiling profiles and hosts\<close>

lemma validateProfileType_None:
  "validateProfileType ty names acme = None \<longleftrightarrow>
     Challenge acme = ''dns-01''
     \<and> (ty = ''wildcard'' \<and> (\<forall>n \<in> set names. IsValidWildcard n)
        \<or> ty = ''multi_san'' \<and> (\<forall>n \<in> set names. \<not> IsValidWildcard n))"
  by (auto simp: validateProfileType_def find_None_iff split: option.splits if_splits
      dest: find_SomeD)

definition compiled_profile_of :: "crypto \<Rightarrow> string \<Rightarrow> raw_profile \<Rightarrow> compiled_profile" where
  "compiled_profile_of cr name r =
     (let p = \<lparr>profName = TrimSpace name, profType = TrimSpace (rawType r),
         profDNSNames = sorted_list_of_set (name_set (rawDNSNames r)),
         profACME = \<lparr>Challenge = TrimSpace (rawChallenge (rawACME r)),
                     Credentials = TrimSpace (rawCredentials (rawACME r))\<rparr>,
         profRenewBefore = (if rawRenewBefore r = 0 then defaultRenewBefore else rawRenewBefore r),
         profHash = []\<rparr>
      in p\<lparr>profHash := computeProfileHash cr p\<rparr>)"

lemma compileProfile_Inr:
  "compileProfile cr name r = Inr p \<longleftrightarrow> valid_profile name r \<and> p = compiled_profile_of cr name r"
proof (cases "CanonicalList (rawDNSNames r)")
  case (Inl e)
  then have "\<not> valid_names (rawDNSNames r)" using CanonicalList_valid by fastforce
  with Inl show ?thesis by (simp add: compileProfile_def valid_profile_def Let_def)
next
  case (Inr ns)
  note names = CanonicalList_canonical [OF Inr]
  have valid: "valid_names (rawDNSNames r)" and ns: "ns = sorted_list_of_set (name_set (rawDNSNames r))"
    using Inr by (simp_all add: CanonicalList_iff)
  have empty: "ns = [] \<longleftrightarrow> rawDNSNames r = []"
    using names(3) by (auto simp: name_set_def)
  have wild: "IsValidWildcard n \<longleftrightarrow> wildcard_name n" if "n \<in> name_set (rawDNSNames r)" for n
    using that names(3,6) IsValidWildcard_dns_name by auto
  have type: "validateProfileType ty ns acme = None \<longleftrightarrow>
      Challenge acme = ''dns-01''
      \<and> (ty = ''wildcard'' \<and> (\<forall>n \<in> name_set (rawDNSNames r). wildcard_name n)
         \<or> ty = ''multi_san'' \<and> (\<forall>n \<in> name_set (rawDNSNames r). \<not> wildcard_name n))" for ty acme
    by (simp add: validateProfileType_None names(3) wild)
  let ?ty = "TrimSpace (rawType r)"
  let ?acme = "\<lparr>Challenge = TrimSpace (rawChallenge (rawACME r)),
      Credentials = TrimSpace (rawCredentials (rawACME r))\<rparr>"
  show ?thesis
  proof (cases "validateProfileType ?ty ns ?acme")
    case None
    with Inr empty valid type [of ?ty ?acme] show ?thesis
      by (auto simp: compileProfile_def valid_profile_def compiled_profile_of_def Let_def
          defaultRenewBefore_def simp flip: ns)
  next
    case (Some e)
    with Inr type [of ?ty ?acme] show ?thesis
      by (auto simp: compileProfile_def valid_profile_def Let_def)
  qed
qed

lemma host_profiles_loop_Inr:
  "host_profiles_loop name profiles allowed refs = Inr s \<longleftrightarrow>
     (\<forall>ref \<in> set refs. TrimSpace ref \<noteq> [] \<and> TrimSpace ref \<in> dom (map_get profiles))
     \<and> s = fold (\<lambda>ref. map_put (TrimSpace ref) True) refs allowed"
  by (induction name profiles allowed refs rule: host_profiles_loop.induct)
    (auto simp: Let_def split: option.splits)

definition compiled_host_of :: "string \<Rightarrow> raw_host \<Rightarrow> compiled_host" where
  "compiled_host_of name h =
     \<lparr>hostName = TrimSpace name, hostIdentity = TrimSpace (rawIdentity h),
      hostProfiles = fold (\<lambda>ref. map_put (TrimSpace ref) True) (rawProfiles h) []\<rparr>"

lemma compileHost_Inr:
  "compileHost name h profiles = Inr c \<longleftrightarrow>
     valid_host (dom (map_get profiles)) name h \<and> c = compiled_host_of name h"
proof (cases "host_profiles_loop (TrimSpace name) profiles [] (rawProfiles h)")
  case (Inl e)
  with result_InlD [OF host_profiles_loop_Inr Inl] show ?thesis
    by (auto simp: compileHost_def Let_def valid_host_def)
next
  case (Inr s)
  note this [unfolded host_profiles_loop_Inr]
  with Inr show ?thesis
    by (auto simp: compileHost_def Let_def valid_host_def compiled_host_of_def)
qed

lemma compiled_host_allows: "AllowsProfile (compiled_host_of name h) p \<longleftrightarrow> p \<in> TrimSpace ` set (rawProfiles h)"
proof -
  let ?s = "hostProfiles (compiled_host_of name h)"
  have "map_get ?s k = (if k \<in> TrimSpace ` set (rawProfiles h) then Some True else None)" for k
    unfolding compiled_host_of_def
    by (auto simp: sd.get_fold_put find_None_iff dest: find_SomeD split: option.splits)
  then show ?thesis by (simp add: AllowsProfile_def ProfileSet_Contains_def)
qed

lemma compile_profiles_loop_Inr:
  "compile_profiles_loop cr raws acc names = Inr ps \<longleftrightarrow>
     (\<forall>name \<in> set names. valid_profile name (map_at zero_profile raws name))
     \<and> ps = fold (\<lambda>name. map_put name (compiled_profile_of cr name
               (map_at zero_profile raws name))) names acc"
proof (induction cr raws acc names rule: compile_profiles_loop.induct)
  case (1 cr raws acc)
  show ?case by auto
next
  case (2 cr raws acc name names)
  let ?r = "map_at zero_profile raws name"
  show ?case
  proof (cases "compileProfile cr name ?r")
    case (Inl e)
    then have "\<not> valid_profile name ?r" by (rule result_InlD [OF compileProfile_Inr])
    with Inl show ?thesis by simp
  next
    case (Inr p)
    then have "valid_profile name ?r \<and> p = compiled_profile_of cr name ?r"
      by (simp add: compileProfile_Inr)
    with 2 Inr show ?thesis by simp
  qed
qed


text \<open>
  The hosts loop: every host compiles, no two have the same identity, and no identity was
  there before.
\<close>

lemma compile_hosts_loop_Inr:
  "compile_hosts_loop raws profiles byName byIdentity names = Inr (bn, bi) \<longleftrightarrow>
     (\<forall>name \<in> set names. valid_host (dom (map_get profiles)) name (map_at zero_host raws name)
        \<and> map_get byIdentity (TrimSpace (rawIdentity (map_at zero_host raws name))) = None)
     \<and> distinct (map (\<lambda>name. TrimSpace (rawIdentity (map_at zero_host raws name))) names)
     \<and> bn = fold (\<lambda>name. map_put name (compiled_host_of name (map_at zero_host raws name))) names byName
     \<and> bi = fold (\<lambda>name. map_put (TrimSpace (rawIdentity (map_at zero_host raws name)))
                 (compiled_host_of name (map_at zero_host raws name))) names byIdentity"
proof (induction raws profiles byName byIdentity names rule: compile_hosts_loop.induct)
  case (1 raws profiles byName byIdentity)
  show ?case by auto
next
  case (2 raws profiles byName byIdentity name names)
  let ?h = "map_at zero_host raws name"
  show ?case
  proof (cases "compileHost name ?h profiles")
    case (Inl e)
    then have "\<not> valid_host (dom (map_get profiles)) name ?h"
      by (rule result_InlD [OF compileHost_Inr])
    with Inl show ?thesis by simp
  next
    case (Inr c)
    then have c: "valid_host (dom (map_get profiles)) name ?h" "c = compiled_host_of name ?h"
      by (simp_all add: compileHost_Inr)
    show ?thesis
    proof (cases "map_get byIdentity (hostIdentity c)")
      case None
      define f where "f n = TrimSpace (rawIdentity (map_at zero_host raws n))" for n
      have id: "hostIdentity c = f name" by (simp add: c compiled_host_of_def f_def)
      have new: "(\<forall>n \<in> set names. Q n \<and> map_get (map_put (f name) c byIdentity) (f n) = None) \<longleftrightarrow>
          (\<forall>n \<in> set names. Q n \<and> map_get byIdentity (f n) = None) \<and> f name \<notin> f ` set names" for Q
        by (auto simp: sd.get_put intro: rev_image_eqI)
      have step: "compile_hosts_loop raws profiles byName byIdentity (name # names) =
          compile_hosts_loop raws profiles (map_put name c byName) (map_put (f name) c byIdentity) names"
        using Inr None by (simp add: id)
      note IH = 2 [OF Inr None, unfolded id, folded f_def]
      show ?thesis
        unfolding step f_def [symmetric] IH new
        using c(1) None [unfolded id] by (simp add: c(2) [symmetric])
    next
      case (Some d)
      with c Inr show ?thesis by (simp add: compiled_host_of_def)
    qed
  qed
qed


section \<open>Compiling a configuration\<close>

text \<open>The compiled maps of a well-formed configuration, read key by key.\<close>

lemma valid_config_at:
  assumes "config_wf cfg"
  shows "(\<forall>(name, r) \<in> set (cfgProfiles cfg). Q name r) \<longleftrightarrow>
      (\<forall>name \<in> set (sortedMapKeys (cfgProfiles cfg)). Q name (map_at zero_profile (cfgProfiles cfg) name))"
    and "(\<forall>(name, h) \<in> set (cfgHosts cfg). R name h) \<longleftrightarrow>
      (\<forall>name \<in> set (sortedMapKeys (cfgHosts cfg)). R name (map_at zero_host (cfgHosts cfg) name))"
  using assms
  by (force simp: sortedMapKeys_def config_wf_def map_wf_def)+

lemma identities_at:
  assumes "config_wf cfg"
  shows "distinct (map (\<lambda>(name, h). TrimSpace (rawIdentity h)) (cfgHosts cfg)) \<longleftrightarrow>
    distinct (map (\<lambda>name. TrimSpace (rawIdentity (map_at zero_host (cfgHosts cfg) name)))
      (sortedMapKeys (cfgHosts cfg)))"
proof -
  let ?f = "\<lambda>name. TrimSpace (rawIdentity (map_at zero_host (cfgHosts cfg) name))"
  have "map (\<lambda>(name, h). TrimSpace (rawIdentity h)) (cfgHosts cfg) = map ?f (map_keys (cfgHosts cfg))"
    using assms by (auto simp: config_wf_def map_wf_def)
  moreover have "distinct (map ?f (map_keys (cfgHosts cfg))) \<longleftrightarrow> distinct (map ?f (sortedMapKeys (cfgHosts cfg)))"
    unfolding sortedMapKeys_def by (rule distinct_map_sort)
  ultimately show ?thesis by (simp only:)
qed

definition compiled_profiles_of :: "crypto \<Rightarrow> policy_config \<Rightarrow> compiled_profile strmap" where
  "compiled_profiles_of cr cfg =
     fold (\<lambda>name. map_put name (compiled_profile_of cr name (map_at zero_profile (cfgProfiles cfg) name)))
       (sortedMapKeys (cfgProfiles cfg)) []"

definition compiled_policy_of :: "crypto \<Rightarrow> instant \<Rightarrow> policy_config \<Rightarrow> compiled_policy" where
  "compiled_policy_of cr now cfg =
     (let p = \<lparr>polVersion = CurrentVersion, polProfiles = compiled_profiles_of cr cfg,
         HostsByName = fold (\<lambda>name. map_put name (compiled_host_of name (map_at zero_host (cfgHosts cfg) name)))
           (sortedMapKeys (cfgHosts cfg)) [],
         HostsByIdentity = fold (\<lambda>name. map_put (TrimSpace (rawIdentity (map_at zero_host (cfgHosts cfg) name)))
             (compiled_host_of name (map_at zero_host (cfgHosts cfg) name)))
           (sortedMapKeys (cfgHosts cfg)) [],
         polHash = [], LoadedAt = now\<rparr>
      in p\<lparr>polHash := computePolicyHash cr p\<rparr>)"

lemma dom_compiled_profiles: "dom (map_get (compiled_profiles_of cr cfg)) = set (map_keys (cfgProfiles cfg))"
  by (simp add: compiled_profiles_of_def sd.dom_fold_put sortedMapKeys_def)

lemma Compile_Inr:
  assumes wf: "config_wf cfg"
  shows "Compile cr now cfg = Inr p \<longleftrightarrow> valid_config cfg \<and> p = compiled_policy_of cr now cfg"
proof (cases "compile_profiles_loop cr (cfgProfiles cfg) [] (sortedMapKeys (cfgProfiles cfg))")
  case (Inl e)
  then have "\<not> (\<forall>(name, r) \<in> set (cfgProfiles cfg). valid_profile name r)"
    unfolding valid_config_at(1) [OF wf] by (rule result_InlD [OF compile_profiles_loop_Inr])
  with Inl show ?thesis by (auto simp: Compile_def valid_config_def Let_def)
next
  case (Inr ps)
  then have vp: "\<forall>(name, r) \<in> set (cfgProfiles cfg). valid_profile name r"
    and ps: "ps = compiled_profiles_of cr cfg"
    unfolding valid_config_at(1) [OF wf] compiled_profiles_of_def compile_profiles_loop_Inr
    by blast+
  let ?loop = "compile_hosts_loop (cfgHosts cfg) ps [] [] (sortedMapKeys (cfgHosts cfg))"
  have hosts: "?loop = Inr (bn, bi) \<longleftrightarrow>
      (\<forall>(name, h) \<in> set (cfgHosts cfg). valid_host (set (map_keys (cfgProfiles cfg))) name h)
      \<and> distinct (map (\<lambda>(name, h). TrimSpace (rawIdentity h)) (cfgHosts cfg))
      \<and> bn = HostsByName (compiled_policy_of cr now cfg)
      \<and> bi = HostsByIdentity (compiled_policy_of cr now cfg)" for bn bi
    unfolding compile_hosts_loop_Inr valid_config_at(2) [OF wf] identities_at [OF wf] ps
      dom_compiled_profiles
    by (simp add: compiled_policy_of_def Let_def)
  show ?thesis
  proof (cases ?loop)
    case (Inl e)
    with hosts have "\<not> valid_config cfg" by (auto simp: valid_config_def)
    with Inl Inr show ?thesis by (simp add: Compile_def Let_def)
  next
    case h: (Inr b)
    obtain bn bi where b: "b = (bn, bi)" by (cases b) auto
    note hh = h [unfolded b hosts]
    then have "valid_config cfg \<longleftrightarrow> (cfgVersion cfg = 0 \<or> cfgVersion cfg = CurrentVersion)
        \<and> cfgProfiles cfg \<noteq> [] \<and> cfgHosts cfg \<noteq> []"
      using vp by (simp add: valid_config_def)
    with hh h Inr show ?thesis
      by (auto simp: Compile_def Let_def b ps compiled_policy_of_def)
  qed
qed


lemma get_fold_keys:
  "map_get (fold (\<lambda>name. map_put name (g name (map_at z m name))) (sortedMapKeys m) []) k =
     map_option (g k) (map_get m k)"
proof -
  have "map_get (fold (\<lambda>name. map_put name (g name (map_at z m name))) (sortedMapKeys m) []) k =
      (if k \<in> set (map_keys m) then Some (g k (map_at z m k)) else None)"
    unfolding sortedMapKeys_def
    by (auto simp: sd.get_fold_put find_None_iff dest: find_SomeD split: option.splits)
  moreover have "k \<in> set (map_keys m) \<longleftrightarrow> map_get m k \<noteq> None"
    by (simp add: map_of_eq_None_iff)
  ultimately show ?thesis by (cases "map_get m k") simp_all
qed

lemma compiled_profiles_get:
  "map_get (polProfiles (compiled_policy_of cr now cfg)) k =
    map_option (compiled_profile_of cr k) (map_get (cfgProfiles cfg) k)"
  by (simp add: compiled_policy_of_def compiled_profiles_of_def Let_def get_fold_keys)

lemma compiled_hosts_by_name_get:
  "map_get (HostsByName (compiled_policy_of cr now cfg)) k =
    map_option (compiled_host_of k) (map_get (cfgHosts cfg) k)"
  by (simp add: compiled_policy_of_def Let_def get_fold_keys)

lemma compiled_maps_wf [simp]:
  "map_wf (polProfiles (compiled_policy_of cr now cfg))"
  "map_wf (HostsByName (compiled_policy_of cr now cfg))"
  "map_wf (HostsByIdentity (compiled_policy_of cr now cfg))"
  by (simp_all add: compiled_policy_of_def compiled_profiles_of_def Let_def sd.wf_fold_put map_wf_def [of "[]"])

lemma compiled_hosts_get:
  assumes wf: "config_wf cfg" and valid: "valid_config cfg"
  shows "map_get (HostsByIdentity (compiled_policy_of cr now cfg)) i = Some c \<longleftrightarrow>
    (\<exists>(name, h) \<in> set (cfgHosts cfg). TrimSpace (rawIdentity h) = i \<and> c = compiled_host_of name h)"
proof -
  let ?ids = "\<lambda>name. TrimSpace (rawIdentity (map_at zero_host (cfgHosts cfg) name))"
  let ?keys = "sortedMapKeys (cfgHosts cfg)"
  have "inj_on ?ids (set ?keys)"
    using valid identities_at [OF wf] by (simp add: valid_config_def distinct_map)
  then have "map_get (HostsByIdentity (compiled_policy_of cr now cfg)) i = Some c \<longleftrightarrow>
      (\<exists>name \<in> set ?keys. ?ids name = i \<and> c = compiled_host_of name (map_at zero_host (cfgHosts cfg) name))"
    by (simp add: compiled_policy_of_def Let_def sd.get_fold_put_Some)
  moreover have "(\<exists>name \<in> set ?keys. R name (map_at zero_host (cfgHosts cfg) name)) \<longleftrightarrow>
      (\<exists>(name, h) \<in> set (cfgHosts cfg). R name h)" for R
    using valid_config_at(2) [OF wf, of "\<lambda>name h. \<not> R name h"] by auto
  ultimately show ?thesis by simp
qed

section \<open>Authorisation\<close>

lemma sameStringSet_iff: "sameStringSet a b \<longleftrightarrow> a = b"
proof -
  have "length a = length b \<Longrightarrow> sameStringSet_loop a b \<longleftrightarrow> a = b"
    by (induction a b rule: sameStringSet_loop.induct) auto
  then show ?thesis by (auto simp: sameStringSet_def)
qed

lemma Authorize_granted:
  "Authorize p identity profileName csr = (Some profile, None) \<longleftrightarrow>
     (\<exists>req host. csr = Some req
        \<and> map_get (HostsByIdentity p) identity = Some host \<and> AllowsProfile host profileName
        \<and> map_get (polProfiles p) profileName = Some profile
        \<and> CanonicalList (csrDNSNames req) = Inr (profDNSNames profile))"
  by (auto simp: Authorize_def sameStringSet_iff split: option.splits sum.splits if_splits)

lemma Authorize_error_cases:
  "snd (Authorize p identity profileName csr) = None \<longleftrightarrow>
     (\<exists>profile. Authorize p identity profileName csr = (Some profile, None))"
  by (auto simp: Authorize_def split: option.splits sum.splits if_splits)

end
