(* ===== verification/Policy_Meaning.thy ===== *)
theory Policy_Meaning
  imports Policy
begin

text \<open>
  What the policy package promises: which configurations compile, the invariant of compiled
  policies, which requests they grant, and how far the two hashes identify a profile and a
  policy.
\<close>

section \<open>The invariant of compiled policies\<close>

definition profile_ok :: "crypto \<Rightarrow> compiled_profile \<Rightarrow> bool" where
  "profile_ok cr p \<longleftrightarrow>
     profName p \<noteq> [] \<and> profDNSNames p \<noteq> [] \<and> sorted (profDNSNames p) \<and> distinct (profDNSNames p)
     \<and> list_all dns_name (profDNSNames p)
     \<and> (profType p = ''wildcard'' \<and> list_all wildcard_name (profDNSNames p)
        \<or> profType p = ''multi_san'' \<and> list_all (\<lambda>n. \<not> wildcard_name n) (profDNSNames p))
     \<and> Challenge (profACME p) = ''dns-01''
     \<and> 0 < profRenewBefore p
     \<and> profHash p = computeProfileHash cr p"

definition policy_wf :: "crypto \<Rightarrow> compiled_policy \<Rightarrow> bool" where
  "policy_wf cr p \<longleftrightarrow>
     polVersion p = CurrentVersion
     \<and> map_wf (polProfiles p) \<and> map_wf (HostsByName p) \<and> map_wf (HostsByIdentity p)
     \<and> polProfiles p \<noteq> [] \<and> HostsByName p \<noteq> []
     \<and> list_all (\<lambda>(k, profile). profName profile = TrimSpace k \<and> profile_ok cr profile) (polProfiles p)
     \<and> list_all (\<lambda>(k, host). hostName host = TrimSpace k \<and> hostIdentity host \<noteq> [] \<and> hostProfiles host \<noteq> []
          \<and> map_wf (hostProfiles host) \<and> list_all snd (hostProfiles host)
          \<and> list_all (\<lambda>profile. map_get (polProfiles p) profile \<noteq> None) (map_keys (hostProfiles host)))
          (HostsByName p)
     \<and> list_all (\<lambda>(i, host). hostIdentity host = i) (HostsByIdentity p)
     \<and> set (map snd (HostsByIdentity p)) = set (map snd (HostsByName p))
     \<and> polHash p = computePolicyHash cr p"

lemma compiled_profile_ok:
  assumes "valid_profile name r"
  shows "profile_ok cr (compiled_profile_of cr name r)"
proof -
  obtain ns where ns: "CanonicalList (rawDNSNames r) = Inr ns"
    using assms CanonicalList_valid by (auto simp: valid_profile_def)
  note names = CanonicalList_canonical [OF ns]
  have eq: "sorted_list_of_set (name_set (rawDNSNames r)) = ns"
    using ns by (simp add: CanonicalList_iff)
  have "ns \<noteq> []" using names(3) assms by (auto simp: valid_profile_def name_set_def)
  moreover have "0 < profRenewBefore (compiled_profile_of cr name r)"
    using assms by (auto simp: compiled_profile_of_def Let_def valid_profile_def defaultRenewBefore_def)
  ultimately show ?thesis
    using assms names
    by (auto simp: profile_ok_def compiled_profile_of_def Let_def eq valid_profile_def list_all_iff
        computeProfileHash_def profile_hash_json_def)
qed

lemma map_get_in: "map_wf m \<Longrightarrow> map_get m k = Some v \<longleftrightarrow> (k, v) \<in> set m"
  by (simp add: map_wf_def map_of_eq_Some_iff)

lemma map_get_not_None: "map_get m k \<noteq> None \<longleftrightarrow> k \<in> set (map_keys m)"
  by (simp add: map_of_eq_None_iff)

lemma compiled_host_keys:
  "set (map_keys (hostProfiles (compiled_host_of name h))) = TrimSpace ` set (rawProfiles h)"
proof -
  let ?m = "hostProfiles (compiled_host_of name h)"
  have "dom (map_get ?m) = TrimSpace ` set (rawProfiles h)"
    by (simp add: compiled_host_of_def sd.dom_fold_put)
  then show ?thesis by (simp add: dom_map_of_conv_image_fst)
qed

lemma compiled_host_values:
  "map_wf (hostProfiles (compiled_host_of name h))" "list_all snd (hostProfiles (compiled_host_of name h))"
proof -
  let ?m = "hostProfiles (compiled_host_of name h)"
  show wf: "map_wf ?m"
    by (simp add: compiled_host_of_def sd.wf_fold_put map_wf_def [of "[]"])
  have "b" if "(k, b) \<in> set ?m" for k b
  proof -
    have "map_get ?m k = Some b" using that wf by (simp add: map_get_in)
    moreover have "k \<in> TrimSpace ` set (rawProfiles h)"
      using that compiled_host_keys [of name h] by force
    then have "AllowsProfile (compiled_host_of name h) k" by (simp add: compiled_host_allows)
    ultimately show ?thesis by (simp add: AllowsProfile_def ProfileSet_Contains_def)
  qed
  then show "list_all snd ?m" by (auto simp: list_all_iff)
qed

lemma compiled_entries:
  assumes wf: "config_wf cfg"
  shows "(k, q) \<in> set (polProfiles (compiled_policy_of cr now cfg)) \<longleftrightarrow>
      (\<exists>r. (k, r) \<in> set (cfgProfiles cfg) \<and> q = compiled_profile_of cr k r)"
    and "(k, c) \<in> set (HostsByName (compiled_policy_of cr now cfg)) \<longleftrightarrow>
      (\<exists>h. (k, h) \<in> set (cfgHosts cfg) \<and> c = compiled_host_of k h)"
    and "valid_config cfg \<Longrightarrow> (i, c) \<in> set (HostsByIdentity (compiled_policy_of cr now cfg)) \<longleftrightarrow>
      (\<exists>(name, h) \<in> set (cfgHosts cfg). TrimSpace (rawIdentity h) = i \<and> c = compiled_host_of name h)"
  using wf compiled_hosts_get [OF wf]
  by (auto simp: config_wf_def compiled_profiles_get compiled_hosts_by_name_get simp flip: map_get_in)

lemma compiled_policy_wf:
  assumes wf: "config_wf cfg" and valid: "valid_config cfg"
  shows "policy_wf cr (compiled_policy_of cr now cfg)"
proof -
  let ?p = "compiled_policy_of cr now cfg"
  note entries = compiled_entries [OF wf]
  have profiles: "list_all (\<lambda>(k, q). profName q = TrimSpace k \<and> profile_ok cr q) (polProfiles ?p)"
    using valid compiled_profile_ok
    by (fastforce simp: list_all_iff entries valid_config_def compiled_profile_of_def Let_def)
  have hosts: "list_all (\<lambda>(k, host). hostName host = TrimSpace k \<and> hostIdentity host \<noteq> []
        \<and> hostProfiles host \<noteq> [] \<and> map_wf (hostProfiles host) \<and> list_all snd (hostProfiles host)
        \<and> list_all (\<lambda>profile. map_get (polProfiles ?p) profile \<noteq> None) (map_keys (hostProfiles host)))
        (HostsByName ?p)"
  proof -
    have "hostName c = TrimSpace k \<and> hostIdentity c \<noteq> [] \<and> hostProfiles c \<noteq> []
        \<and> map_wf (hostProfiles c) \<and> list_all snd (hostProfiles c)
        \<and> (\<forall>profile \<in> set (map_keys (hostProfiles c)). map_get (polProfiles ?p) profile \<noteq> None)"
      if kc: "(k, c) \<in> set (HostsByName ?p)" for k c
    proof -
      obtain h where h: "(k, h) \<in> set (cfgHosts cfg)" "c = compiled_host_of k h"
        using kc by (auto simp: entries)
      then have "valid_host (set (map_keys (cfgProfiles cfg))) k h"
        using valid by (auto simp: valid_config_def)
      moreover have "map_get (polProfiles ?p) profile \<noteq> None \<longleftrightarrow> profile \<in> set (map_keys (cfgProfiles cfg))"
        for profile unfolding compiled_profiles_get by (simp add: map_of_eq_None_iff)
      moreover have "hostProfiles c = [] \<longleftrightarrow> rawProfiles h = []"
        using compiled_host_keys [of k h] h by auto
      ultimately show ?thesis
        using h compiled_host_keys [of k h] compiled_host_values [of k h]
        by (auto simp: valid_host_def compiled_host_of_def)
    qed
    then show ?thesis by (fastforce simp: list_all_iff)
  qed
  have ids: "list_all (\<lambda>(i, host). hostIdentity host = i) (HostsByIdentity ?p)"
    by (auto simp: list_all_iff entries valid compiled_host_of_def)
  have same: "set (map snd (HostsByIdentity ?p)) = set (map snd (HostsByName ?p))"
  proof (rule set_eqI)
    have mem: "c \<in> set (map snd m) \<longleftrightarrow> (\<exists>k. (k, c) \<in> set m)" for c and m :: "compiled_host strmap"
      by force
    show "c \<in> set (map snd (HostsByIdentity ?p)) \<longleftrightarrow> c \<in> set (map snd (HostsByName ?p))" for c
      unfolding mem entries(2) entries(3) [OF valid] by auto
  qed
  have "polProfiles ?p \<noteq> []" "HostsByName ?p \<noteq> []"
    using valid entries(1,2) unfolding valid_config_def
    by (metis list.set_intros(1) list.set_cases neq_Nil_conv prod.exhaust empty_iff empty_set)+
  moreover have "polVersion ?p = CurrentVersion" "polHash ?p = computePolicyHash cr ?p"
    by (simp_all add: compiled_policy_of_def Let_def computePolicyHash_def policy_hash_json_def
        profile_records_def host_records_def)
  ultimately show ?thesis
    unfolding policy_wf_def using profiles hosts ids same by simp
qed

section \<open>Examples\<close>

definition example_profile :: raw_profile where
  "example_profile = \<lparr>rawType = ''multi_san'', rawDNSNames = [''a.example.com''],
     rawACME = \<lparr>rawChallenge = ''dns-01'', rawCredentials = ''dns''\<rparr>, rawRenewBefore = 0\<rparr>"

definition example_config :: policy_config where
  "example_config = \<lparr>cfgVersion = 1, cfgProfiles = [(''web'', example_profile)],
     cfgHosts = [(''one'', \<lparr>rawIdentity = ''host-1'', rawProfiles = [''web'']\<rparr>)]\<rparr>"

definition compiled_or :: "compiled_policy \<Rightarrow> (compile_error, compiled_policy) result \<Rightarrow> compiled_policy" where
  "compiled_or d r = (case r of Inl _ \<Rightarrow> d | Inr p \<Rightarrow> p)"

lemma example_config_ok: "config_wf example_config" "valid_config example_config"
  by code_simp+

section \<open>Properties\<close>



text \<open>
  C16: every policy that \<^verbatim>\<open>policy.Compile\<close> returns satisfies the invariant of compiled policies:
  profiles carry canonical, sorted names and their own hash, hosts refer to declared profiles
  only, and the map by identity holds the same hosts as the map by name under their identities.
\<close>

theorem compile_establishes_policy_wf:
  assumes "config_wf cfg" and "Compile cr now cfg = Inr p"
  shows "policy_wf cr p"
  using assms compiled_policy_wf Compile_Inr by metis

theorem compile_establishes_policy_wf_witness:
  "config_wf example_config
   \<and> Compile example_crypto 0 example_config = Inr (compiled_policy_of example_crypto 0 example_config)
   \<and> policy_wf example_crypto (compiled_policy_of example_crypto 0 example_config)"
  using compile_establishes_policy_wf [of example_config example_crypto 0] example_config_ok
    Compile_Inr [OF example_config_ok(1)] by simp

lemma Authorize_compiled:
  assumes "config_wf cfg" and "Compile cr now cfg = Inr p"
  shows "snd (Authorize p identity profile (Some csr)) = None
     \<longleftrightarrow> config_grants cfg identity profile (csrDNSNames csr)"
proof -
  have valid: "valid_config cfg" and p: "p = compiled_policy_of cr now cfg"
    using assms Compile_Inr by auto
  have host: "(\<exists>host. map_get (HostsByIdentity p) identity = Some host \<and> AllowsProfile host profile) \<longleftrightarrow>
      (\<exists>(hname, h) \<in> set (cfgHosts cfg).
         TrimSpace (rawIdentity h) = identity \<and> profile \<in> TrimSpace ` set (rawProfiles h))"
    unfolding p compiled_hosts_get [OF assms(1) valid] by (force simp: compiled_host_allows)
  have same: "sorted_list_of_set (name_set a) = sorted_list_of_set (name_set b) \<longleftrightarrow> name_set a = name_set b"
    for a b by (metis finite_name_set sorted_list_of_set.set_sorted_key_list_of_set)
  have names: "profDNSNames (compiled_profile_of cr k r) = sorted_list_of_set (name_set (rawDNSNames r))"
    for k r by (simp add: compiled_profile_of_def Let_def)
  have prof: "(\<exists>q. map_get (polProfiles p) profile = Some q
        \<and> CanonicalList (csrDNSNames csr) = Inr (profDNSNames q)) \<longleftrightarrow>
      (\<exists>r. (profile, r) \<in> set (cfgProfiles cfg) \<and> valid_names (csrDNSNames csr)
          \<and> name_set (csrDNSNames csr) = name_set (rawDNSNames r))"
    using assms(1) unfolding p compiled_profiles_get
    by (auto simp: CanonicalList_iff names same config_wf_def simp flip: map_get_in)
  show ?thesis
    unfolding Authorize_error_cases Authorize_granted config_grants_def using host prof by auto
qed

text \<open>
  C14: compilation refines the declarative reading of the configuration. The compiled policy
  grants a request exactly when some host of the file has the caller's identity and lists the
  profile, and the CSR's names are, as a set of canonical names, those of the profile.
\<close>

theorem authorize_refines_config:
  assumes "config_wf cfg" and "Compile cr now cfg = Inr p"
  shows "snd (Authorize p identity profile (Some csr)) = None
     \<longleftrightarrow> config_grants cfg identity profile (csrDNSNames csr)"
  by (rule Authorize_compiled [OF assms])

theorem authorize_refines_config_witness:
  "config_grants example_config ''host-1'' ''web'' [''A.example.com.'']
   \<and> snd (Authorize (compiled_policy_of example_crypto 0 example_config) ''host-1'' ''web''
       (Some (example_request\<lparr>csrDNSNames := [''A.example.com.'']\<rparr>))) = None"
proof -
  have "config_grants example_config ''host-1'' ''web'' [''A.example.com.'']" by code_simp
  then show ?thesis
    using authorize_refines_config [of example_config example_crypto 0 _ "''host-1''" "''web''"
        "example_request\<lparr>csrDNSNames := [''A.example.com.'']\<rparr>"]
      example_config_ok Compile_Inr [OF example_config_ok(1)] by simp
qed

text \<open>
  C18: every outcome of \<^verbatim>\<open>Authorize\<close> and the condition for it, in the order of the code's checks.
  The profile is returned with the error once it has been found.
\<close>

theorem authorize_classifies:
  "Authorize p identity profile csr =
     (if csr = None then (None, Some (ErrInvalidCSR None))
      else if identity \<notin> set (map_keys (HostsByIdentity p)) then (None, Some ErrUnknownIdentity)
      else if \<not> AllowsProfile (the (map_get (HostsByIdentity p) identity)) profile
        then (None, Some ErrProfileNotAllowed)
      else if profile \<notin> set (map_keys (polProfiles p)) then (None, Some ErrUnknownProfile)
      else (map_get (polProfiles p) profile,
        (if \<not> valid_names (csrDNSNames (the csr))
         then Some (ErrInvalidCSR (case CanonicalList (csrDNSNames (the csr)) of Inl e \<Rightarrow> Some e | _ \<Rightarrow> None))
         else if sorted_list_of_set (name_set (csrDNSNames (the csr)))
             \<noteq> profDNSNames (the (map_get (polProfiles p) profile))
         then Some ErrCSRNamesMismatch else None)))"
proof -
  have key: "k \<in> set (map_keys m) \<longleftrightarrow> (\<exists>v. map_get m k = Some v)" for k :: string and m :: "'v strmap"
    using map_get_not_None [of m k] by auto
  have names: "valid_names ns \<longleftrightarrow> (\<exists>cs. CanonicalList ns = Inr cs)" for ns
    by (simp add: CanonicalList_iff)
  show ?thesis
    unfolding Authorize_def key names sameStringSet_iff
    by (auto simp: CanonicalList_iff CanonicalList_valid split: option.splits sum.splits)
qed

text \<open>
  On a compiled policy a host is only ever allowed declared profiles, so \<^verbatim>\<open>Authorize\<close> never
  answers \<^verbatim>\<open>ErrUnknownProfile\<close>: an unknown profile is reported as one the host may not use.
\<close>

theorem compiled_policy_never_unknown_profile:
  assumes "config_wf cfg" and "Compile cr now cfg = Inr p"
  shows "snd (Authorize p identity profile csr) \<noteq> Some ErrUnknownProfile"
proof -
  have valid: "valid_config cfg" and p: "p = compiled_policy_of cr now cfg"
    using assms Compile_Inr by auto
  have "map_get (polProfiles p) profile \<noteq> None"
    if "map_get (HostsByIdentity p) identity = Some host" "AllowsProfile host profile" for host
  proof -
    from that(1) obtain name h where h: "(name, h) \<in> set (cfgHosts cfg)" "host = compiled_host_of name h"
      unfolding p compiled_hosts_get [OF assms(1) valid] by auto
    then have "profile \<in> set (map_keys (cfgProfiles cfg))"
      using that(2) valid by (fastforce simp: compiled_host_allows valid_config_def valid_host_def)
    then show ?thesis unfolding p compiled_profiles_get by (simp add: map_of_eq_None_iff)
  qed
  then show ?thesis
    by (cases "map_get (HostsByIdentity p) identity"; cases "map_get (polProfiles p) profile")
      (auto simp: Authorize_def split: option.splits sum.splits)
qed

theorem compiled_policy_never_unknown_profile_witness:
  "snd (Authorize (compiled_policy_of example_crypto 0 example_config) ''host-1'' ''db'' (Some example_request))
     \<noteq> Some ErrUnknownProfile"
  using compiled_policy_never_unknown_profile [of example_config example_crypto 0]
    example_config_ok Compile_Inr [OF example_config_ok(1)] by simp

lemma compile_loops_cong:
  assumes "map_get m = map_get m'"
  shows "compile_profiles_loop cr m acc names = compile_profiles_loop cr m' acc names"
  using assms by (induction names arbitrary: acc) (auto split: sum.splits)

lemma compile_hosts_cong:
  assumes "map_get m = map_get m'"
  shows "compile_hosts_loop m ps bn bi names = compile_hosts_loop m' ps bn bi names"
  using assms by (induction names arbitrary: bn bi) (auto split: sum.splits option.splits)



text \<open>
  Profile keys of the file are used untrimmed while the references of hosts are trimmed, so
  a profile whose key has surrounding white space can be granted to nobody.
\<close>

theorem padded_profile_key_never_granted:
  assumes "config_wf cfg" and "Compile cr now cfg = Inr p" and "TrimSpace profile \<noteq> profile"
  shows "snd (Authorize p identity profile csr) \<noteq> None"
proof -
  have valid: "valid_config cfg" and p: "p = compiled_policy_of cr now cfg"
    using assms Compile_Inr by auto
  have "\<not> AllowsProfile host profile" if "map_get (HostsByIdentity p) identity = Some host" for host
    using that assms(3) TrimSpace_idem unfolding p compiled_hosts_get [OF assms(1) valid]
    by (auto simp: compiled_host_allows)
  then show ?thesis by (auto simp: Authorize_def split: option.splits)
qed

definition padded_config :: policy_config where
  "padded_config = example_config\<lparr>cfgProfiles := [(''web'', example_profile), ('' api'', example_profile)]\<rparr>"

lemma padded_config_ok: "config_wf padded_config" "valid_config padded_config"
  by code_simp+

theorem padded_profile_key_never_granted_witness:
  "is_ok (Compile example_crypto 0 padded_config)
   \<and> snd (Authorize (compiled_policy_of example_crypto 0 padded_config) ''host-1'' '' api'' (Some example_request))
     \<noteq> None"
proof -
  have "TrimSpace '' api'' \<noteq> '' api''" by code_simp
  then show ?thesis
    using padded_profile_key_never_granted [of padded_config example_crypto 0]
      padded_config_ok Compile_Inr [OF padded_config_ok(1)] by (auto simp: is_ok_iff)
qed

section \<open>What the hashes identify\<close>

interpretation prj: json_value profile_record_json "\<lambda>r. valid_utf8 (fst r) \<and> valid_utf8 (snd r)"
proof
  show "a = b \<and> x = y" if "valid_utf8 (fst a) \<and> valid_utf8 (snd a)" "valid_utf8 (fst b) \<and> valid_utf8 (snd b)"
    "profile_record_json a @ x = profile_record_json b @ y" for a b x y
    using that by (auto simp: profile_record_json_def prod_eq_iff js.code_eq_iff)
qed (simp add: profile_record_json_def)

interpretation hrj: json_value host_record_json
  "\<lambda>r. valid_utf8 (fst r) \<and> valid_utf8 (fst (snd r)) \<and> list_all valid_utf8 (snd (snd r))"
proof
  show "a = b \<and> x = y"
    if "valid_utf8 (fst a) \<and> valid_utf8 (fst (snd a)) \<and> list_all valid_utf8 (snd (snd a))"
      "valid_utf8 (fst b) \<and> valid_utf8 (fst (snd b)) \<and> list_all valid_utf8 (snd (snd b))"
      "host_record_json a @ x = host_record_json b @ y" for a b x y
    using that by (auto simp: host_record_json_def prod_eq_iff js.code_eq_iff js.arr.code_eq_iff)
qed (simp add: host_record_json_def)

lemma valid_utf8_ascii: "is_ascii s \<Longrightarrow> valid_utf8 s"
proof (induction s rule: valid_utf8.induct)
  case (1 s)
  show ?case
  proof (cases s)
    case (Cons c s')
    with "1.prems" have "rune_size s = 1"
      using rune_size_append [of "[c]" s'] by (simp add: is_ascii_def)
    with 1 Cons show ?thesis by (simp add: valid_utf8.simps [of "c # s'"] is_ascii_def)
  qed (simp add: valid_utf8.simps)
qed

lemma hex_encode_ascii: "is_ascii (hex_encode s)"
proof -
  have "byte_code (hex_digit n) \<le> 127" if "n < 16" for n
    using that by (simp add: hex_digit_def)
  moreover have "byte_code c div 16 < 16" for c
    using byte_code_less [of c] by (simp add: div_less_iff_less_mult)
  ultimately show ?thesis by (auto simp: is_ascii_def hex_encode_def list_all_iff)
qed

text \<open>
  Texts are compared rather than digests: the texts that are hashed for a policy, and the
  condition that all its strings are UTF-8, which a YAML document guarantees.
\<close>

definition profile_utf8 :: "compiled_profile \<Rightarrow> bool" where
  "profile_utf8 q \<longleftrightarrow> valid_utf8 (profName q) \<and> valid_utf8 (profType q) \<and> list_all valid_utf8 (profDNSNames q)
     \<and> valid_utf8 (Challenge (profACME q)) \<and> valid_utf8 (Credentials (profACME q))"

definition host_utf8 :: "compiled_host \<Rightarrow> bool" where
  "host_utf8 h \<longleftrightarrow> valid_utf8 (hostName h) \<and> valid_utf8 (hostIdentity h)
     \<and> list_all valid_utf8 (map_keys (hostProfiles h))"

definition policy_utf8 :: "compiled_policy \<Rightarrow> bool" where
  "policy_utf8 p \<longleftrightarrow> list_all (profile_utf8 \<circ> snd) (polProfiles p) \<and> list_all (host_utf8 \<circ> snd) (HostsByName p)"

definition keys_trimmed :: "compiled_policy \<Rightarrow> bool" where
  "keys_trimmed p \<longleftrightarrow> list_all (\<lambda>k. TrimSpace k = k) (map_keys (polProfiles p))"

definition hash_texts :: "compiled_policy \<Rightarrow> string list" where
  "hash_texts p = policy_hash_json p # map (profile_hash_json \<circ> snd) (polProfiles p)"

lemma profile_hash_json_inject:
  assumes "profile_utf8 q" and "profile_utf8 r" and "profile_hash_json q = profile_hash_json r"
  shows "profType q = profType r \<and> profDNSNames q = profDNSNames r \<and> profACME q = profACME r"
  using assms
  by (simp add: profile_hash_json_def profile_utf8_def js.code_eq_iff js.arr.code_eq_iff
      compiled_acme.equality)

lemma map_at_entry: "map_wf m \<Longrightarrow> (k, v) \<in> set m \<Longrightarrow> map_at z m k = v"
  by (simp add: map_wf_def)

lemma map_sorted_keys_set:
  "map_wf m \<Longrightarrow> set (map (\<lambda>k. g (map_at z m k)) (sortedMapKeys m)) = (g \<circ> snd) ` set m"
  by (force simp: sortedMapKeys_def map_at_entry image_iff)

lemma profile_records_set:
  "policy_wf cr p \<Longrightarrow> set (profile_records p) = (\<lambda>q. (profName q, profHash q)) ` set (map snd (polProfiles p))"
  using map_sorted_keys_set [of "polProfiles p" "\<lambda>q. (profName q, profHash q)" zero_compiled_profile]
  by (simp add: policy_wf_def profile_records_def Let_def image_comp)

lemma host_records_set:
  "policy_wf cr p \<Longrightarrow> set (host_records p) =
     (\<lambda>h. (hostName h, hostIdentity h, sort (map_keys (hostProfiles h)))) ` set (map snd (HostsByName p))"
  using map_sorted_keys_set [of "HostsByName p"
      "\<lambda>h. (hostName h, hostIdentity h, sort (map_keys (hostProfiles h)))" zero_compiled_host]
  by (simp add: policy_wf_def host_records_def Let_def image_comp)

lemma policy_hash_json_inject:
  assumes p: "policy_wf cr p" "policy_utf8 p" and q: "policy_wf cr q" "policy_utf8 q"
    and eq: "policy_hash_json p = policy_hash_json q"
  shows "profile_records p = profile_records q \<and> host_records p = host_records q"
proof -
  have prs: "list_all (\<lambda>r. valid_utf8 (fst r) \<and> valid_utf8 (snd r)) (profile_records s)"
    if "policy_wf cr s" "policy_utf8 s" for s
  proof -
    have "\<forall>(k, c) \<in> set (polProfiles s). valid_utf8 (profName c) \<and> valid_utf8 (profHash c)"
      using that valid_utf8_ascii [OF hex_encode_ascii]
      by (fastforce simp: policy_wf_def policy_utf8_def list_all_iff profile_ok_def profile_utf8_def
          computeProfileHash_def hashCanonical_def)
    then show ?thesis by (auto simp: list_all_iff profile_records_set [OF that(1)])
  qed
  have hrs: "list_all (\<lambda>r. valid_utf8 (fst r) \<and> valid_utf8 (fst (snd r)) \<and> list_all valid_utf8 (snd (snd r)))
      (host_records s)" if "policy_wf cr s" "policy_utf8 s" for s
    using that(2) by (auto simp: list_all_iff host_records_set [OF that(1)] policy_utf8_def host_utf8_def)
  have "polVersion p = polVersion q" using p q by (simp add: policy_wf_def)
  with eq show ?thesis
    using prs [OF p] prs [OF q] hrs [OF p] hrs [OF q]
    by (simp add: policy_hash_json_def prj.arr.code_eq_iff hrj.arr.enc_eqD)
qed

lemma allows_key:
  assumes "policy_wf cr p" and "h \<in> set (map snd (HostsByName p))"
  shows "AllowsProfile h profile \<longleftrightarrow> profile \<in> set (map_keys (hostProfiles h))"
proof -
  have h: "map_wf (hostProfiles h)" "list_all snd (hostProfiles h)"
    using assms unfolding policy_wf_def list_all_iff by fastforce+
  have "AllowsProfile h profile \<longleftrightarrow> (profile, True) \<in> set (hostProfiles h)"
    unfolding map_get_in [OF h(1), symmetric]
    by (auto simp: AllowsProfile_def ProfileSet_Contains_def split: option.splits)
  moreover have "(profile, True) \<in> set (hostProfiles h)" if "profile \<in> set (map_keys (hostProfiles h))"
    using that h(2) by (force simp: list_all_iff)
  ultimately show ?thesis by force
qed

lemma identity_lookup:
  assumes "policy_wf cr p"
  shows "map_get (HostsByIdentity p) i = Some h \<longleftrightarrow> h \<in> set (map snd (HostsByName p)) \<and> hostIdentity h = i"
proof -
  have "map_wf (HostsByIdentity p)" "list_all (\<lambda>(i, host). hostIdentity host = i) (HostsByIdentity p)"
    and same: "set (map snd (HostsByName p)) = set (map snd (HostsByIdentity p))"
    using assms by (simp_all add: policy_wf_def)
  then show ?thesis
    unfolding same by (force simp: list_all_iff map_get_in)
qed

text \<open>Two policies decide alike when their hosts and profiles do.\<close>

lemma Authorize_decides_alike:
  assumes "rel_option (\<lambda>h h'. AllowsProfile h profile \<longleftrightarrow> AllowsProfile h' profile)
      (map_get (HostsByIdentity p) identity) (map_get (HostsByIdentity q) identity)"
    and "rel_option (\<lambda>a b. profDNSNames a = profDNSNames b)
      (map_get (polProfiles p) profile) (map_get (polProfiles q) profile)"
  shows "snd (Authorize p identity profile csr) = snd (Authorize q identity profile csr)"
  using assms
  by (auto simp: Authorize_def option_rel_Some1 option_rel_Some2 split: option.splits sum.splits)

lemma rel_option_by_lookup:
  assumes "\<And>a. x = Some a \<Longrightarrow> \<exists>b. y = Some b \<and> R a b" and "\<And>b. y = Some b \<Longrightarrow> x \<noteq> None"
  shows "rel_option R x y"
  using assms by (cases x; cases y) auto

lemma host_with_same_record:
  assumes p: "policy_wf cr p" and q: "policy_wf cr q" and eq: "host_records p = host_records q"
    and h: "map_get (HostsByIdentity p) i = Some h"
  shows "\<exists>h'. map_get (HostsByIdentity q) i = Some h' \<and> (AllowsProfile h k \<longleftrightarrow> AllowsProfile h' k)"
proof -
  have mem: "h \<in> set (map snd (HostsByName p))" and i: "hostIdentity h = i"
    using h identity_lookup [OF p] by auto
  then have "(hostName h, i, sort (map_keys (hostProfiles h))) \<in> set (host_records q)"
    unfolding eq [symmetric] host_records_set [OF p] by blast
  then obtain h' where h': "h' \<in> set (map snd (HostsByName q))" "hostIdentity h' = i"
    "sort (map_keys (hostProfiles h)) = sort (map_keys (hostProfiles h'))"
    unfolding host_records_set [OF q] by blast
  then have "set (map_keys (hostProfiles h)) = set (map_keys (hostProfiles h'))"
    by (metis set_sort)
  then have "AllowsProfile h k \<longleftrightarrow> AllowsProfile h' k"
    using allows_key [OF p mem] allows_key [OF q h'(1)] by simp
  then show ?thesis using identity_lookup [OF q] h' by blast
qed

lemma profile_with_same_record:
  assumes p: "policy_wf cr p" "keys_trimmed p" and q: "policy_wf cr q" "keys_trimmed q"
    and eq: "profile_records p = profile_records q" and a: "map_get (polProfiles p) k = Some a"
  shows "\<exists>b. map_get (polProfiles q) k = Some b \<and> profHash a = profHash b"
proof -
  have entry: "profName c = k'" if "policy_wf cr s" "keys_trimmed s" "(k', c) \<in> set (polProfiles s)" for s k' c
    using that by (fastforce simp: policy_wf_def keys_trimmed_def list_all_iff)
  have "(k, a) \<in> set (polProfiles p)" using a by (rule map_of_SomeD)
  then have "(k, profHash a) \<in> set (profile_records q)"
    using entry [OF p] profile_records_set [OF p(1)] eq by force
  then obtain k' b where b: "(k', b) \<in> set (polProfiles q)" "profName b = k" "profHash b = profHash a"
    unfolding profile_records_set [OF q(1)] by auto
  with entry [OF q] have "(k, b) \<in> set (polProfiles q)" by blast
  then have "map_get (polProfiles q) k = Some b" using q(1) by (simp add: policy_wf_def map_get_in)
  with b show ?thesis by auto
qed

lemma policies_with_equal_records_decide_alike:
  assumes p: "policy_wf cr p" "keys_trimmed p" and q: "policy_wf cr q" "keys_trimmed q"
    and prs: "profile_records p = profile_records q" and hrs: "host_records p = host_records q"
    and names: "\<And>a b. (k, a) \<in> set (polProfiles p) \<Longrightarrow> (k, b) \<in> set (polProfiles q) \<Longrightarrow>
      profHash a = profHash b \<Longrightarrow> profDNSNames a = profDNSNames b"
  shows "snd (Authorize p i k csr) = snd (Authorize q i k csr)"
proof (rule Authorize_decides_alike)
  show "rel_option (\<lambda>h h'. AllowsProfile h k \<longleftrightarrow> AllowsProfile h' k)
      (map_get (HostsByIdentity p) i) (map_get (HostsByIdentity q) i)"
    using host_with_same_record [OF p(1) q(1) hrs] host_with_same_record [OF q(1) p(1) hrs [symmetric]]
    by (intro rel_option_by_lookup) blast+
  show "rel_option (\<lambda>a b. profDNSNames a = profDNSNames b) (map_get (polProfiles p) k) (map_get (polProfiles q) k)"
    using profile_with_same_record [OF p q prs] profile_with_same_record [OF q p prs [symmetric]] names
    by (intro rel_option_by_lookup) (blast dest: map_of_SomeD)+
qed

text \<open>
  C17: two compiled policies with the same hash decide every request alike, provided their
  strings are UTF-8, no profile key has surrounding white space, and SHA-256 has no collision
  among the texts hashed for the two policies.
\<close>

theorem equal_policy_hash_equal_decisions:
  assumes "policy_wf cr p" and "policy_wf cr q" and "policy_utf8 p" and "policy_utf8 q"
    and "keys_trimmed p" and "keys_trimmed q"
    and "inj_on (sha256 cr) (set (hash_texts p) \<union> set (hash_texts q))"
    and "polHash p = polHash q"
  shows "snd (Authorize p identity profile csr) = snd (Authorize q identity profile csr)"
proof -
  have "sha256 cr (policy_hash_json p) = sha256 cr (policy_hash_json q)"
    using assms(1,2,8) by (simp add: policy_wf_def computePolicyHash_def hashCanonical_def)
  then have "policy_hash_json p = policy_hash_json q"
    by (rule inj_onD [OF assms(7)]) (auto simp: hash_texts_def)
  then have records: "profile_records p = profile_records q" "host_records p = host_records q"
    using policy_hash_json_inject assms(1-4) by blast+
  have names: "profDNSNames a = profDNSNames b"
    if "(profile, a) \<in> set (polProfiles p)" "(profile, b) \<in> set (polProfiles q)" "profHash a = profHash b" for a b
  proof -
    have ok: "profile_ok cr a" "profile_ok cr b" "profile_utf8 a" "profile_utf8 b"
      using assms(1-4) that(1,2) by (fastforce simp: policy_wf_def policy_utf8_def list_all_iff)+
    moreover have "profile_hash_json a \<in> set (hash_texts p)" "profile_hash_json b \<in> set (hash_texts q)"
      using that(1,2) by (force simp: hash_texts_def)+
    moreover from ok(1,2) that(3) have "sha256 cr (profile_hash_json a) = sha256 cr (profile_hash_json b)"
      by (simp add: profile_ok_def computeProfileHash_def hashCanonical_def)
    ultimately have "profile_hash_json a = profile_hash_json b"
      using inj_onD [OF assms(7)] by blast
    then show ?thesis using profile_hash_json_inject ok by blast
  qed
  show ?thesis
    by (rule policies_with_equal_records_decide_alike [OF assms(1,5,2,6) records names])
qed

lemma example_sha256: "sha256 example_crypto = (\<lambda>s. s)"
  by (simp add: example_crypto_def)

lemma example_policy_strings:
  "policy_utf8 (compiled_policy_of cr now example_config)"
  "keys_trimmed (compiled_policy_of cr now example_config)"
proof -
  have trims: "TrimSpace ''web'' = ''web''" "TrimSpace ''one'' = ''one''" "TrimSpace ''host-1'' = ''host-1''"
    "TrimSpace ''dns'' = ''dns''" "TrimSpace ''dns-01'' = ''dns-01''" "TrimSpace ''multi_san'' = ''multi_san''"
    by code_simp+
  have valid: "valid_utf8 ''web''" "valid_utf8 ''one''" "valid_utf8 ''host-1''" "valid_utf8 ''dns''"
    "valid_utf8 ''dns-01''" "valid_utf8 ''multi_san''" "valid_utf8 ''a.example.com''"
    by code_simp+
  have names: "normal_name ''a.example.com'' = ''a.example.com''" by code_simp
  have sets: "set (cfgProfiles example_config) = {(''web'', example_profile)}"
    "set (cfgHosts example_config) = {(''one'', \<lparr>rawIdentity = ''host-1'', rawProfiles = [''web'']\<rparr>)}"
    by (simp_all add: example_config_def)
  note entries = compiled_entries [OF example_config_ok(1)] sets
  show "policy_utf8 (compiled_policy_of cr now example_config)"
    using valid
    by (auto simp: policy_utf8_def list_all_iff entries
        profile_utf8_def host_utf8_def example_profile_def compiled_profile_of_def
        compiled_host_of_def Let_def trims names)
  show "keys_trimmed (compiled_policy_of cr now example_config)"
    by (auto simp: keys_trimmed_def list_all_iff entries trims)
qed

theorem equal_policy_hash_equal_decisions_witness:
  "snd (Authorize (compiled_policy_of example_crypto 0 example_config) ''host-1'' ''web'' (Some example_request))
   = snd (Authorize (compiled_policy_of example_crypto 5 example_config) ''host-1'' ''web'' (Some example_request))"
proof (rule equal_policy_hash_equal_decisions [of example_crypto])
  show "polHash (compiled_policy_of example_crypto 0 example_config)
       = polHash (compiled_policy_of example_crypto 5 example_config)"
    by (simp add: compiled_policy_of_def Let_def computePolicyHash_def policy_hash_json_def
        profile_records_def host_records_def)
qed (simp_all add: compiled_policy_wf example_config_ok example_policy_strings example_sha256)

lemma profile_records_compiled:
  assumes "config_wf cfg"
  shows "profile_records (compiled_policy_of cr now cfg) =
     map (\<lambda>k. (TrimSpace k, profHash (compiled_profile_of cr [] (map_at zero_profile (cfgProfiles cfg) k))))
       (sortedMapKeys (cfgProfiles cfg))"
proof -
  let ?p = "compiled_policy_of cr now cfg"
  have "dom (map_get (polProfiles ?p)) = dom (map_get (cfgProfiles cfg))"
    by (auto simp: compiled_profiles_get)
  then have keys: "sortedMapKeys (polProfiles ?p) = sortedMapKeys (cfgProfiles cfg)"
    using assms by (simp add: sortedMapKeys_def sd.sorted_keys config_wf_def)
  have "map_get (cfgProfiles cfg) k \<noteq> None" if "k \<in> set (sortedMapKeys (cfgProfiles cfg))" for k
    using that by (simp add: sortedMapKeys_def map_of_eq_None_iff)
  then show ?thesis
    unfolding profile_records_def keys Let_def
    by (intro map_cong refl)
      (fastforce simp: compiled_profiles_get compiled_profile_of_def Let_def computeProfileHash_def
        profile_hash_json_def)
qed

definition hash_twin :: "string \<Rightarrow> string \<Rightarrow> policy_config" where
  "hash_twin key1 key2 = example_config\<lparr>cfgProfiles := [(key1, example_profile),
     (key2, example_profile\<lparr>rawDNSNames := [''b.example.com'']\<rparr>)]\<rparr>"

lemma hash_twin_ok:
  "config_wf (hash_twin ''web'' ''web '')" "valid_config (hash_twin ''web'' ''web '')"
  "config_wf (hash_twin '' web'' ''web'')" "valid_config (hash_twin '' web'' ''web'')"
  by code_simp+

text \<open>
  C26: the policy hash is taken over trimmed profile names, while requests are looked up under
  the keys as written. With a padded key two policies that grant different names under the same
  profile have the same hash, whatever the hash function.
\<close>

theorem padded_keys_confuse_policy_hash:
  "\<exists>p q. Compile cr now (hash_twin ''web'' ''web '') = Inr p
     \<and> Compile cr now (hash_twin '' web'' ''web'') = Inr q
     \<and> polHash p = polHash q
     \<and> snd (Authorize p ''host-1'' ''web'' (Some example_request)) = None
     \<and> snd (Authorize q ''host-1'' ''web'' (Some example_request)) \<noteq> None"
proof -
  let ?c = "hash_twin ''web'' ''web ''" and ?d = "hash_twin '' web'' ''web''"
  have c: "Compile cr now ?c = Inr (compiled_policy_of cr now ?c)"
    and d: "Compile cr now ?d = Inr (compiled_policy_of cr now ?d)"
    using hash_twin_ok by (simp_all add: Compile_Inr)
  have keys: "sortedMapKeys (cfgProfiles ?c) = [''web'', ''web '']"
    "sortedMapKeys (cfgProfiles ?d) = ['' web'', ''web'']"
    "cfgHosts ?c = cfgHosts ?d" by code_simp+
  have trims: "TrimSpace ''web '' = ''web''" "TrimSpace '' web'' = ''web''" "TrimSpace ''web'' = ''web''"
    by code_simp+
  have "profile_records (compiled_policy_of cr now ?c) = profile_records (compiled_policy_of cr now ?d)"
    by (simp add: profile_records_compiled hash_twin_ok keys trims) (simp add: hash_twin_def)
  then have "polHash (compiled_policy_of cr now ?c) = polHash (compiled_policy_of cr now ?d)"
    by (simp add: compiled_policy_of_def Let_def computePolicyHash_def policy_hash_json_def
        profile_records_def host_records_def keys)
  moreover have "config_grants ?c ''host-1'' ''web'' (csrDNSNames example_request)"
    "\<not> config_grants ?d ''host-1'' ''web'' (csrDNSNames example_request)" by code_simp+
  ultimately show ?thesis
    using c d Authorize_compiled [OF hash_twin_ok(1) c] Authorize_compiled [OF hash_twin_ok(3) d]
    by blast
qed

end
