(* ===== verification/Os.thy ===== *)
theory Os
  imports Prelude
begin

text \<open>
  What the program uses of Go's \<^verbatim>\<open>os\<close> and \<^verbatim>\<open>path/filepath\<close>: files under path strings, with every
  call able to fail.

  \<open>faults\<close> says which calls fail, counted by \<open>calls\<close>, \<open>short\<close> how many bytes a failing write
  leaves behind, and \<open>temp_suffix\<close> which random suffix \<^verbatim>\<open>os.CreateTemp\<close> draws; theorems hold for
  every choice of them. \<open>history\<close> lists the contents of the disk after every call that changed
  it, so that a statement about all of them covers a crash and a concurrent reader. Directories
  have no state: \<^verbatim>\<open>os.MkdirAll\<close> succeeds or fails. Two different path strings name different
  files.
\<close>

section \<open>Paths\<close>

fun clean_segments :: "bool \<Rightarrow> string list \<Rightarrow> string list \<Rightarrow> string list" where
  "clean_segments rooted out [] = rev out"
| "clean_segments rooted out (seg # segs) =
     (if seg = [] \<or> seg = ''.'' then clean_segments rooted out segs
      else if seg = ''..'' then
        (case out of
           [] \<Rightarrow> if rooted then clean_segments rooted out segs else clean_segments rooted [seg] segs
         | prev # rest \<Rightarrow>
             if prev = ''..'' then clean_segments rooted (seg # out) segs else clean_segments rooted rest segs)
      else clean_segments rooted (seg # out) segs)"

definition Clean :: "string \<Rightarrow> string" where
  "Clean path =
     (let rooted = HasPrefix path ''/'';
          body = Join (clean_segments rooted [] (split_on (CHR ''/'') path)) ''/'';
          out = (if rooted then ''/'' else []) @ body
      in if out = [] then ''.'' else out)"

definition Dir :: "string \<Rightarrow> string" where
  "Dir path = Clean (rev (dropWhile (\<lambda>c. c \<noteq> CHR ''/'') (rev path)))"

definition Base_raw :: "string \<Rightarrow> string" where
  "Base_raw path = rev (takeWhile (\<lambda>c. c \<noteq> CHR ''/'') (rev path))"

section \<open>Files\<close>

record os_file =
  content :: string
  mode :: nat

record os =
  files :: "os_file strmap"
  calls :: nat
  faults :: "nat \<Rightarrow> bool"
  short :: "nat \<Rightarrow> nat"
  temp_suffix :: "nat \<Rightarrow> string"
  history :: "os_file strmap list"

datatype os_error = ErrNotExist | ErrExist | OsFault

definition tick :: "os \<Rightarrow> os" where
  "tick s = s\<lparr>calls := Suc (calls s)\<rparr>"

definition failing :: "os \<Rightarrow> bool" where
  "failing s = faults s (calls s)"

definition change :: "os_file strmap \<Rightarrow> os \<Rightarrow> os" where
  "change m s = s\<lparr>files := m, history := history s @ [m]\<rparr>"

text \<open>A call that only fails or succeeds: \<^verbatim>\<open>MkdirAll\<close>, \<^verbatim>\<open>Sync\<close>, \<^verbatim>\<open>Close\<close>, opening a directory.\<close>

definition os_call :: "os \<Rightarrow> bool \<times> os" where
  "os_call s = (\<not> failing s, tick s)"

definition os_Stat :: "string \<Rightarrow> os \<Rightarrow> (os_error, unit) result \<times> os" where
  "os_Stat path s =
     ((if failing s then Inl OsFault
       else if map_get (files s) path = None then Inl ErrNotExist else Inr ()), tick s)"

definition os_ReadFile :: "string \<Rightarrow> os \<Rightarrow> (os_error, string) result \<times> os" where
  "os_ReadFile path s =
     ((if failing s then Inl OsFault
       else case map_get (files s) path of None \<Rightarrow> Inl ErrNotExist | Some f \<Rightarrow> Inr (content f)), tick s)"

definition os_CreateTemp :: "string \<Rightarrow> string \<Rightarrow> os \<Rightarrow> (os_error, string) result \<times> os" where
  "os_CreateTemp dir prefix s =
     (let name = (if HasSuffix dir ''/'' then dir else dir @ ''/'') @ prefix @ temp_suffix s (calls s) in
      if failing s \<or> map_get (files s) name \<noteq> None then (Inl OsFault, tick s)
      else (Inr name, change (map_put name \<lparr>content = [], mode = 384\<rparr> (files s)) (tick s)))"

text \<open>
  \<^verbatim>\<open>OpenFile\<close> for writing, with \<^verbatim>\<open>O_CREATE\<close> and \<^verbatim>\<open>O_APPEND\<close>, and with \<^verbatim>\<open>O_CREATE\<close> and \<^verbatim>\<open>O_EXCL\<close>.
\<close>

definition os_OpenAppend :: "string \<Rightarrow> nat \<Rightarrow> os \<Rightarrow> bool \<times> os" where
  "os_OpenAppend path m s =
     (if failing s then (False, tick s)
      else case map_get (files s) path of
        Some _ \<Rightarrow> (True, tick s)
      | None \<Rightarrow> (True, change (map_put path \<lparr>content = [], mode = m\<rparr> (files s)) (tick s)))"

definition os_OpenExcl :: "string \<Rightarrow> nat \<Rightarrow> os \<Rightarrow> os_error option \<times> os" where
  "os_OpenExcl path m s =
     (if failing s then (Some OsFault, tick s)
      else case map_get (files s) path of
        Some _ \<Rightarrow> (Some ErrExist, tick s)
      | None \<Rightarrow> (None, change (map_put path \<lparr>content = [], mode = m\<rparr> (files s)) (tick s)))"

text \<open>
  A write appends at the end of the file (the program only writes files it has just created or
  opened with \<^verbatim>\<open>O_APPEND\<close>). A failing write may leave a part of the data. A file that has been
  removed meanwhile has no name: writing to it changes nothing on the disk.
\<close>

definition os_Write :: "string \<Rightarrow> string \<Rightarrow> os \<Rightarrow> bool \<times> os" where
  "os_Write path data s =
     (let data' = (if failing s then take (short s (calls s)) data else data) in
      (\<not> failing s,
       case map_get (files s) path of
         None \<Rightarrow> tick s
       | Some f \<Rightarrow> change (map_put path (f\<lparr>content := content f @ data'\<rparr>) (files s)) (tick s)))"

definition os_Chmod :: "string \<Rightarrow> nat \<Rightarrow> os \<Rightarrow> bool \<times> os" where
  "os_Chmod path m s =
     (if failing s then (False, tick s)
      else (True, case map_get (files s) path of
         None \<Rightarrow> tick s
       | Some f \<Rightarrow> change (map_put path (f\<lparr>mode := m\<rparr>) (files s)) (tick s)))"

definition map_del :: "string \<Rightarrow> 'v strmap \<Rightarrow> 'v strmap" where
  "map_del k m = filter (\<lambda>(k', v). k' \<noteq> k) m"

definition os_Remove :: "string \<Rightarrow> os \<Rightarrow> os_error option \<times> os" where
  "os_Remove path s =
     (if failing s then (Some OsFault, tick s)
      else if map_get (files s) path = None then (Some ErrNotExist, tick s)
      else (None, change (map_del path (files s)) (tick s)))"

definition os_Rename :: "string \<Rightarrow> string \<Rightarrow> os \<Rightarrow> bool \<times> os" where
  "os_Rename old new s =
     (if failing s then (False, tick s)
      else case map_get (files s) old of
        None \<Rightarrow> (False, tick s)
      | Some f \<Rightarrow> (True, change (map_put new f (map_del old (files s))) (tick s)))"

section \<open>Lemmas\<close>

lemma get_map_del [simp]: "map_get (map_del k m) = (map_get m)(k := None)"
proof
  fix k'
  show "map_get (map_del k m) k' = ((map_get m)(k := None)) k'"
    by (induction m) (auto simp: map_del_def)
qed

lemma tick_simps [simp]:
  "files (tick s) = files s" "history (tick s) = history s" "faults (tick s) = faults s"
  "short (tick s) = short s" "temp_suffix (tick s) = temp_suffix s" "calls (tick s) = Suc (calls s)"
  by (simp_all add: tick_def)

lemma change_simps [simp]:
  "files (change m s) = m" "history (change m s) = history s @ [m]" "faults (change m s) = faults s"
  "short (change m s) = short s" "temp_suffix (change m s) = temp_suffix s" "calls (change m s) = calls s"
  by (simp_all add: change_def)

lemmas os_defs = os_call_def os_Stat_def os_ReadFile_def os_CreateTemp_def os_OpenAppend_def
  os_OpenExcl_def os_Write_def os_Chmod_def os_Remove_def os_Rename_def

end
