(* ===== verification/Fileutil.thy ===== *)
theory Fileutil
  imports Os Go_Time
begin

text \<open>
  Package \<^verbatim>\<open>internal/fileutil\<close>: replacing a file by renaming a temporary one, and lock files.

  \<open>WriteFileAtomic\<close> is shown never to expose anything but the old file or the complete new one,
  whichever calls fail; the lock is shown to exclude two holders and to stay taken for ever
  when its holder dies.
\<close>

section \<open>Files\<close>

definition FileExists :: "string \<Rightarrow> os \<Rightarrow> (os_error, bool) result \<times> os" where
  "FileExists path s =
     (case os_Stat path s of
        (Inr _, s) \<Rightarrow> (Inr True, s)
      | (Inl e, s) \<Rightarrow> if e = ErrNotExist then (Inr False, s) else (Inl e, s))"

datatype write_error =
    MkdirFailed | CreateTempFailed | WriteFailed | ChmodFailed | SyncFailed | CloseFailed
  | RenameFailed | DirOpenFailed | DirSyncFailed

text \<open>
  The calls on the temporary file: an error closes it (except when closing is what failed).
\<close>

definition fill_temp :: "string \<Rightarrow> string \<Rightarrow> nat \<Rightarrow> os \<Rightarrow> write_error option \<times> os" where
  "fill_temp tmpName data m s =
     (case os_Write tmpName data s of
        (False, s) \<Rightarrow> (Some WriteFailed, snd (os_call s))
      | (True, s) \<Rightarrow>
     (case os_Chmod tmpName m s of
        (False, s) \<Rightarrow> (Some ChmodFailed, snd (os_call s))
      | (True, s) \<Rightarrow>
     (case os_call s of
        (False, s) \<Rightarrow> (Some SyncFailed, snd (os_call s))
      | (True, s) \<Rightarrow>
     (case os_call s of
        (False, s) \<Rightarrow> (Some CloseFailed, s)
      | (True, s) \<Rightarrow> (None, s)))))"

definition syncDir :: "os \<Rightarrow> write_error option \<times> os" where
  "syncDir s =
     (case os_call s of
        (False, s) \<Rightarrow> (Some DirOpenFailed, s)
      | (True, s) \<Rightarrow>
          (case os_call s of
             (False, s) \<Rightarrow> (Some DirSyncFailed, snd (os_call s))
           | (True, s) \<Rightarrow> (None, snd (os_call s))))"

definition WriteFileAtomic :: "string \<Rightarrow> string \<Rightarrow> nat \<Rightarrow> os \<Rightarrow> write_error option \<times> os" where
  "WriteFileAtomic path data m s =
     (case os_call s of
        (False, s) \<Rightarrow> (Some MkdirFailed, s)
      | (True, s) \<Rightarrow>
     (case os_CreateTemp (Dir path) ''.certplane-'' s of
        (Inl _, s) \<Rightarrow> (Some CreateTempFailed, s)
      | (Inr tmpName, s) \<Rightarrow>
     (case fill_temp tmpName data m s of
        (Some e, s) \<Rightarrow> (Some e, snd (os_Remove tmpName s))
      | (None, s) \<Rightarrow>
     (case os_Rename tmpName path s of
        (False, s) \<Rightarrow> (Some RenameFailed, snd (os_Remove tmpName s))
      | (True, s) \<Rightarrow> syncDir s))))"

section \<open>Locks\<close>

text \<open>A lock is the path of its file; the handle is open as long as the lock is held.\<close>

datatype lock_error = LockDirFailed | LockExists | LockCreateFailed

definition AcquireLock :: "string \<Rightarrow> nat \<Rightarrow> os \<Rightarrow> (lock_error, string) result \<times> os" where
  "AcquireLock path pid s =
     (case os_call s of
        (False, s) \<Rightarrow> (Inl LockDirFailed, s)
      | (True, s) \<Rightarrow>
     (case os_OpenExcl path 384 s of
        (Some e, s) \<Rightarrow> if e = ErrExist then (Inl LockExists, s) else (Inl LockCreateFailed, s)
      | (None, s) \<Rightarrow> (Inr path, snd (os_Write path (decimal pid @ [CHR 0x0A]) s))))"

datatype release_error = LockCloseFailed | LockRemoveFailed

definition Release :: "string option \<Rightarrow> os \<Rightarrow> release_error option \<times> os" where
  "Release l s =
     (case l of
        None \<Rightarrow> (None, s)
      | Some path \<Rightarrow>
          (case os_call s of
             (closed, s) \<Rightarrow>
               (case os_Remove path s of
                  (rmErr, s) \<Rightarrow>
                    let err = (if closed then None else Some LockCloseFailed) in
                    ((if rmErr \<noteq> None \<and> rmErr \<noteq> Some ErrNotExist \<and> err = None
                      then Some LockRemoveFailed else err), s))))"

section \<open>Frames\<close>

text \<open>
  \<open>touches A s s'\<close>: the calls between the two states changed no file outside \<open>A\<close>, in no state on
  the way.
\<close>

definition touches :: "string set \<Rightarrow> os \<Rightarrow> os \<Rightarrow> bool" where
  "touches A s s' \<longleftrightarrow>
     temp_suffix s' = temp_suffix s \<and> faults s' = faults s \<and>
     (\<exists>h. history s' = history s @ h
        \<and> (\<forall>m \<in> insert (files s') (set h). \<forall>k. k \<notin> A \<longrightarrow> map_get m k = map_get (files s) k))"

lemma touches_refl [simp]: "touches A s s"
  by (auto simp: touches_def)

lemma touches_trans:
  assumes "touches A s t" and "touches A t u"
  shows "touches A s u"
proof -
  obtain h where h: "history t = history s @ h"
    "\<forall>m \<in> insert (files t) (set h). \<forall>k. k \<notin> A \<longrightarrow> map_get m k = map_get (files s) k"
    using assms(1) unfolding touches_def by blast
  obtain h' where h': "history u = history t @ h'"
    "\<forall>m \<in> insert (files u) (set h'). \<forall>k. k \<notin> A \<longrightarrow> map_get m k = map_get (files t) k"
    using assms(2) unfolding touches_def by blast
  have "history u = history s @ (h @ h')" using h h' by simp
  moreover have "\<forall>m \<in> insert (files u) (set (h @ h')). \<forall>k. k \<notin> A \<longrightarrow> map_get m k = map_get (files s) k"
    using h h' by auto
  ultimately show ?thesis
    using assms unfolding touches_def by metis
qed

lemma touches_tick [simp]: "touches A s (tick s)"
  by (simp add: touches_def)

lemma touches_change: "(\<And>k. k \<notin> A \<Longrightarrow> map_get m k = map_get (files s) k) \<Longrightarrow> touches A s (change m (tick s))"
  by (auto simp: touches_def)

lemma touches_calls:
  "touches A s (snd (os_call s))"
  "p \<in> A \<Longrightarrow> touches A s (snd (os_Write p data s))"
  "p \<in> A \<Longrightarrow> touches A s (snd (os_Chmod p m s))"
  "p \<in> A \<Longrightarrow> touches A s (snd (os_Remove p s))"
  "p \<in> A \<Longrightarrow> touches A s (snd (os_OpenAppend p m s))"
  "p \<in> A \<Longrightarrow> touches A s (snd (os_OpenExcl p m s))"
  "touches A s (snd (os_Stat q s))"
  "touches A s (snd (os_ReadFile q s))"
  by (auto simp: os_defs sd.get_put Let_def intro!: touches_change split: option.splits)

section \<open>Writing a file\<close>

lemma touches_snd: "f = (r, s') \<Longrightarrow> touches A s (snd f) \<Longrightarrow> touches A s s'"
  by simp

lemma fill_temp_touches: "touches {tmp} s (snd (fill_temp tmp data m s))"
proof -
  note calls = touches_calls(1) touches_calls(2,3) [of tmp "{tmp}", simplified]
  obtain r1 s1 where 1: "os_Write tmp data s = (r1, s1)" by (cases "os_Write tmp data s")
  obtain r2 s2 where 2: "os_Chmod tmp m s1 = (r2, s2)" by (cases "os_Chmod tmp m s1")
  obtain r3 s3 where 3: "os_call s2 = (r3, s3)" by (cases "os_call s2")
  obtain r4 s4 where 4: "os_call s3 = (r4, s4)" by (cases "os_call s3")
  have "touches {tmp} s s1" "touches {tmp} s1 s2" "touches {tmp} s2 s3" "touches {tmp} s3 s4"
    using calls 1 2 3 4 by (metis snd_conv)+
  then have "touches {tmp} s s1" "touches {tmp} s s2" "touches {tmp} s s3" "touches {tmp} s s4"
    by (blast intro: touches_trans)+
  then show ?thesis
    using calls(1) by (auto simp: fill_temp_def 1 2 3 4 intro: touches_trans split: bool.splits)
qed

lemma fill_temp_done:
  assumes "map_get (files s) tmp = Some \<lparr>content = [], mode = 384\<rparr>" and "fill_temp tmp data m s = (None, s')"
  shows "map_get (files s') tmp = Some \<lparr>content = data, mode = m\<rparr>"
  using assms
  by (auto simp: fill_temp_def os_defs sd.get_put Let_def split: if_splits option.splits bool.splits prod.splits)

lemma fill_temp_error: "fst (fill_temp tmp data m s) \<notin> {Some DirOpenFailed, Some DirSyncFailed, Some MkdirFailed,
    Some CreateTempFailed, Some RenameFailed}"
  by (auto simp: fill_temp_def split: prod.splits bool.splits)

definition is_temp :: "os \<Rightarrow> string \<Rightarrow> bool" where
  "is_temp s tmp \<longleftrightarrow> map_get (files s) tmp = None
     \<and> (\<exists>d n. tmp = d @ ''/'' @ ''.certplane-'' @ temp_suffix s n)"

definition committed :: "write_error option \<Rightarrow> bool" where
  "committed r \<longleftrightarrow> r \<in> {None, Some DirOpenFailed, Some DirSyncFailed}"

lemma syncDir_frame: "files (snd (syncDir s)) = files s" "history (snd (syncDir s)) = history s"
  "committed (fst (syncDir s))"
  by (auto simp: syncDir_def os_call_def committed_def split: bool.splits)

lemma CreateTemp_cases:
  assumes "os_CreateTemp dir ''.certplane-'' s = (r, s')"
  shows "(\<exists>e. r = Inl e) \<and> s' = tick s
    \<or> (\<exists>tmp. r = Inr tmp \<and> is_temp s tmp \<and> touches {tmp} s s'
         \<and> map_get (files s') tmp = Some \<lparr>content = [], mode = 384\<rparr>)"
proof -
  define name where "name = (if HasSuffix dir ''/'' then dir else dir @ ''/'') @ ''.certplane-'' @ temp_suffix s (calls s)"
  have "\<exists>d. (if HasSuffix dir ''/'' then dir else dir @ ''/'') = d @ ''/''"
    by (cases dir rule: rev_cases) (auto simp: HasSuffix_def HasPrefix_def)
  then obtain d where "(if HasSuffix dir ''/'' then dir else dir @ ''/'') = d @ ''/''" ..
  then have "name = d @ ''/'' @ ''.certplane-'' @ temp_suffix s (calls s)"
    by (simp add: name_def)
  then have temp: "is_temp s name" if "map_get (files s) name = None"
    unfolding is_temp_def using that by blast
  have step: "os_CreateTemp dir ''.certplane-'' s =
      (if failing s \<or> map_get (files s) name \<noteq> None then (Inl OsFault, tick s)
       else (Inr name, change (map_put name \<lparr>content = [], mode = 384\<rparr> (files s)) (tick s)))"
    by (simp add: os_CreateTemp_def Let_def name_def)
  show ?thesis
  proof (cases "failing s \<or> map_get (files s) name \<noteq> None")
    case True
    with assms step show ?thesis by auto
  next
    case False
    then have "r = Inr name" "s' = change (map_put name \<lparr>content = [], mode = 384\<rparr> (files s)) (tick s)"
      using assms step by auto
    with False temp show ?thesis by (auto simp: sd.get_put intro!: touches_change split: if_splits)
  qed
qed

text \<open>
  The outcome of \<open>WriteFileAtomic\<close>: before the rename only the temporary file is touched; the
  rename removes it and replaces the target in one step.
\<close>

lemma WriteFileAtomic_outcome:
  assumes "WriteFileAtomic path data m s = (r, s')"
  shows "\<exists>tmp. (if committed r
      then is_temp s tmp \<and> (\<exists>t. touches {tmp} s t
          \<and> files s' = map_put path \<lparr>content = data, mode = m\<rparr> (map_del tmp (files t))
          \<and> history s' = history t @ [files s'])
      else touches {tmp} s s' \<and> (is_temp s tmp \<or> touches {} s s'))"
proof -
  obtain s1 where 1: "os_call s = (\<not> failing s, s1)" "s1 = tick s" by (simp add: os_call_def)
  obtain c s2 where 2: "os_CreateTemp (Dir path) ''.certplane-'' s1 = (c, s2)"
    by (cases "os_CreateTemp (Dir path) ''.certplane-'' s1")
  show ?thesis
  proof (cases "failing s \<or> (\<exists>e. c = Inl e)")
    case True
    then have "touches {} s s' \<and> \<not> committed r"
      using assms 1 2 CreateTemp_cases [OF 2]
        touches_trans [OF touches_tick touches_tick]
      by (auto simp: WriteFileAtomic_def committed_def split: bool.splits)
    then show ?thesis by (auto simp: touches_def)
  next
    case False
    then obtain tmp where c: "c = Inr tmp" "is_temp s1 tmp" "touches {tmp} s1 s2"
      "map_get (files s2) tmp = Some \<lparr>content = [], mode = 384\<rparr>"
      using CreateTemp_cases [OF 2] by auto
    obtain f s3 where 3: "fill_temp tmp data m s2 = (f, s3)" by (cases "fill_temp tmp data m s2")
    have temp: "is_temp s tmp" using c(2) 1 by (simp add: is_temp_def)
    have t3: "touches {tmp} s s3"
      using fill_temp_touches [of tmp s2 data m] 3 c(3) 1 touches_tick [of "{tmp}" s] by (metis snd_conv touches_trans)
    have W: "WriteFileAtomic path data m s = (case f of
        Some e \<Rightarrow> (Some e, snd (os_Remove tmp s3))
      | None \<Rightarrow> (case os_Rename tmp path s3 of
            (False, s) \<Rightarrow> (Some RenameFailed, snd (os_Remove tmp s))
          | (True, s) \<Rightarrow> syncDir s))"
      using False 2 3 by (simp add: WriteFileAtomic_def 1 c(1))
    show ?thesis
    proof (cases f)
      case (Some e)
      with assms W have "r = Some e" "touches {tmp} s s'"
        using touches_trans [OF t3] touches_calls(4) [of tmp "{tmp}" s3] by auto
      moreover have "\<not> committed r" using fill_temp_error [of tmp data m s2] 3 Some calculation
        by (auto simp: committed_def)
      ultimately show ?thesis using temp by auto
    next
      case None
      have new: "map_get (files s3) tmp = Some \<lparr>content = data, mode = m\<rparr>"
        using fill_temp_done [OF c(4)] 3 None by simp
      show ?thesis
      proof (cases "failing s3")
        case True
        then have "r = Some RenameFailed" "s' = snd (os_Remove tmp (tick s3))"
          using assms W None by (auto simp: os_Rename_def)
        moreover have "touches {tmp} s (snd (os_Remove tmp (tick s3)))"
          using touches_trans [OF t3] touches_trans touches_tick touches_calls(4) [of tmp "{tmp}"] by blast
        ultimately show ?thesis using temp by (auto simp: committed_def)
      next
        case False
        let ?m = "map_put path \<lparr>content = data, mode = m\<rparr> (map_del tmp (files s3))"
        have "syncDir (change ?m (tick s3)) = (r, s')"
          using assms W None new False by (simp add: os_Rename_def)
        then have "files s' = ?m" "history s' = history s3 @ [?m]" "committed r"
          using syncDir_frame [of "change ?m (tick s3)"] by simp_all
        then show ?thesis using temp t3 by auto
      qed
    qed
  qed
qed

text \<open>A path that the program does not also use for temporary files.\<close>

definition plain_path :: "os \<Rightarrow> string \<Rightarrow> bool" where
  "plain_path s path \<longleftrightarrow> \<not> HasPrefix (Base_raw path) ''.certplane-'' \<and> (\<forall>n. CHR ''/'' \<notin> set (temp_suffix s n))"

lemma plain_path_not_temp:
  assumes "plain_path s path" and "is_temp s tmp"
  shows "path \<noteq> tmp"
proof
  assume "path = tmp"
  with assms(2) obtain d n where p: "path = d @ ''/'' @ ''.certplane-'' @ temp_suffix s n"
    by (auto simp: is_temp_def)
  have "CHR ''/'' \<notin> set (''.certplane-'' @ temp_suffix s n)"
    using assms(1) by (simp add: plain_path_def)
  then have "takeWhile (\<lambda>c. c \<noteq> CHR ''/'') (rev (''.certplane-'' @ temp_suffix s n) @ CHR ''/'' # rev d)
      = rev (''.certplane-'' @ temp_suffix s n)"
    by (subst takeWhile_append2) auto
  then have "Base_raw path = ''.certplane-'' @ temp_suffix s n"
    unfolding Base_raw_def p by simp
  with assms(1) show False by (simp add: plain_path_def HasPrefix_def)
qed

lemma touches_files: "touches A s s' \<Longrightarrow> k \<notin> A \<Longrightarrow> map_get (files s') k = map_get (files s) k"
  by (auto simp: touches_def)

lemma touches_history:
  "touches A s s' \<Longrightarrow> k \<notin> A \<Longrightarrow>
     \<exists>h. history s' = history s @ h \<and> (\<forall>m \<in> set h. map_get m k = map_get (files s) k)"
  by (auto simp: touches_def)

section \<open>Properties of writing\<close>

lemma WriteFileAtomic_states:
  assumes "plain_path s path" and "WriteFileAtomic path data m s = (r, s')"
  shows "\<exists>h. history s' = history s @ h
     \<and> (\<forall>d \<in> set h. map_get d path = map_get (files s) path
          \<or> map_get d path = Some \<lparr>content = data, mode = m\<rparr>)"
proof -
  obtain tmp where out: "if committed r
      then is_temp s tmp \<and> (\<exists>t. touches {tmp} s t
          \<and> files s' = map_put path \<lparr>content = data, mode = m\<rparr> (map_del tmp (files t))
          \<and> history s' = history t @ [files s'])
      else touches {tmp} s s' \<and> (is_temp s tmp \<or> touches {} s s')"
    using WriteFileAtomic_outcome [OF assms(2)] by blast
  have ne: "path \<notin> {tmp}" if "is_temp s tmp"
    using plain_path_not_temp [OF assms(1) that] by simp
  show ?thesis
  proof (cases "committed r")
    case True
    with out obtain t where t: "touches {tmp} s t" "is_temp s tmp"
      "files s' = map_put path \<lparr>content = data, mode = m\<rparr> (map_del tmp (files t))"
      "history s' = history t @ [files s']" by auto
    from touches_history [OF t(1) ne [OF t(2)]]
    obtain h where "history t = history s @ h" "\<forall>d \<in> set h. map_get d path = map_get (files s) path" by blast
    with t(3,4) show ?thesis by (intro exI [of _ "h @ [files s']"]) (simp add: sd.get_put)
  next
    case False
    with out ne have "\<exists>A. touches A s s' \<and> path \<notin> A" by fastforce
    with touches_history show ?thesis by blast
  qed
qed

text \<open>
  C21: whichever calls fail, in every state of the disk during \<^verbatim>\<open>WriteFileAtomic\<close> the target is
  either as it was before or the complete new file.
\<close>

theorem write_file_atomic_old_or_new:
  assumes "plain_path s path" and "WriteFileAtomic path data m s = (r, s')"
  shows "\<exists>h. history s' = history s @ h
     \<and> (\<forall>d \<in> set h. map_get d path = map_get (files s) path
          \<or> map_get d path = Some \<lparr>content = data, mode = m\<rparr>)"
  by (rule WriteFileAtomic_states [OF assms])

definition example_os :: os where
  "example_os = \<lparr>files = [(''/c/key'', \<lparr>content = ''old'', mode = 384\<rparr>)], calls = 0, faults = (\<lambda>n. n = 2),
     short = (\<lambda>_. 1), temp_suffix = (\<lambda>_. ''1''), history = []\<rparr>"

lemma example_os_plain: "plain_path example_os ''/c/key''"
proof -
  have "\<not> HasPrefix (Base_raw ''/c/key'') ''.certplane-''" by code_simp
  then show ?thesis by (simp add: plain_path_def example_os_def)
qed

theorem write_file_atomic_old_or_new_witness:
  "fst (WriteFileAtomic ''/c/key'' ''new'' 420 example_os) = Some WriteFailed
   \<and> (\<exists>h. history (snd (WriteFileAtomic ''/c/key'' ''new'' 420 example_os)) = history example_os @ h
     \<and> (\<forall>d \<in> set h. map_get d ''/c/key'' = map_get (files example_os) ''/c/key''
          \<or> map_get d ''/c/key'' = Some \<lparr>content = ''new'', mode = 420\<rparr>))"
proof -
  have "fst (WriteFileAtomic ''/c/key'' ''new'' 420 example_os) = Some WriteFailed" by code_simp
  then show ?thesis
    using write_file_atomic_old_or_new [OF example_os_plain, of "''new''" 420] by (metis prod.collapse)
qed

lemma WriteFileAtomic_result:
  assumes "plain_path s path" and "WriteFileAtomic path data m s = (r, s')"
  shows "if r = None \<or> r = Some DirOpenFailed \<or> r = Some DirSyncFailed
    then map_get (files s') = (map_get (files s))(path \<mapsto> \<lparr>content = data, mode = m\<rparr>)
    else map_get (files s') path = map_get (files s) path
      \<and> (\<forall>k f. map_get (files s) k = Some f \<longrightarrow> map_get (files s') k = Some f)"
proof -
  obtain tmp where out: "if committed r
      then is_temp s tmp \<and> (\<exists>t. touches {tmp} s t
          \<and> files s' = map_put path \<lparr>content = data, mode = m\<rparr> (map_del tmp (files t))
          \<and> history s' = history t @ [files s'])
      else touches {tmp} s s' \<and> (is_temp s tmp \<or> touches {} s s')"
    using WriteFileAtomic_outcome [OF assms(2)] by blast
  show ?thesis
  proof (cases "committed r")
    case True
    with out obtain t where t: "touches {tmp} s t" "is_temp s tmp"
      "files s' = map_put path \<lparr>content = data, mode = m\<rparr> (map_del tmp (files t))" by auto
    have "map_get (files s') k = ((map_get (files s))(path \<mapsto> \<lparr>content = data, mode = m\<rparr>)) k" for k
      using t(2,3) touches_files [OF t(1), of k] by (cases "k = tmp") (auto simp: sd.get_put is_temp_def)
    with True show ?thesis by (auto simp: committed_def)
  next
    case False
    have "map_get (files s') path = map_get (files s) path
      \<and> (\<forall>k f. map_get (files s) k = Some f \<longrightarrow> map_get (files s') k = Some f)"
    proof (cases "is_temp s tmp")
      case True
      then have "map_get (files s) tmp = None" "path \<noteq> tmp"
        using plain_path_not_temp [OF assms(1)] by (auto simp: is_temp_def)
      then show ?thesis
        using out False touches_files [of "{tmp}" s s'] by (metis option.distinct(1) singletonD)
    next
      case None: False
      then have "touches {} s s'" using out False by simp
      then show ?thesis using touches_files [of "{}" s s'] by auto
    qed
    with False show ?thesis by (auto simp: committed_def)
  qed
qed

lemma WriteFileAtomic_done:
  assumes "plain_path s path" and "WriteFileAtomic path data m s = (None, s')"
  shows "map_get (files s') k = (if k = path then Some \<lparr>content = data, mode = m\<rparr> else map_get (files s) k)"
  using WriteFileAtomic_result [OF assms] by simp

text \<open>
  The outcome of \<^verbatim>\<open>WriteFileAtomic\<close> as seen in its result. Without an error, or with an
  error from flushing the directory, the target is the new file, no temporary file is left and
  nothing else has changed; with any other error the target and every file that existed are
  unchanged.
\<close>

theorem write_file_atomic_result:
  assumes "plain_path s path" and "WriteFileAtomic path data m s = (r, s')"
  shows "if r = None \<or> r = Some DirOpenFailed \<or> r = Some DirSyncFailed
    then map_get (files s') = (map_get (files s))(path \<mapsto> \<lparr>content = data, mode = m\<rparr>)
    else map_get (files s') path = map_get (files s) path
      \<and> (\<forall>k f. map_get (files s) k = Some f \<longrightarrow> map_get (files s') k = Some f)"
  by (rule WriteFileAtomic_result [OF assms])

theorem write_file_atomic_result_witness:
  "fst (WriteFileAtomic ''/c/key'' ''new'' 420 (example_os\<lparr>faults := (\<lambda>n. False)\<rparr>)) = None
   \<and> map_get (files (snd (WriteFileAtomic ''/c/key'' ''new'' 420 (example_os\<lparr>faults := (\<lambda>n. False)\<rparr>))))
       = (map_get (files example_os))(''/c/key'' \<mapsto> \<lparr>content = ''new'', mode = 420\<rparr>)"
proof -
  let ?s = "example_os\<lparr>faults := (\<lambda>n. False)\<rparr>"
  obtain r s' where W: "WriteFileAtomic ''/c/key'' ''new'' 420 ?s = (r, s')"
    by (cases "WriteFileAtomic ''/c/key'' ''new'' 420 ?s")
  have "fst (WriteFileAtomic ''/c/key'' ''new'' 420 ?s) = None" by code_simp
  then have "r = None" using W by simp
  moreover have "plain_path ?s ''/c/key''" using example_os_plain by (simp add: plain_path_def)
  ultimately show ?thesis using write_file_atomic_result [OF _ W] W by (simp add: fun_upd_def)
qed

section \<open>Locks between processes\<close>

text \<open>
  Processes sharing a lock file: acquiring, failing to, releasing, dying while holding it, and
  any other change to the disk that leaves the lock file alone.
\<close>

inductive lock_step :: "string \<Rightarrow> os \<times> nat list \<Rightarrow> os \<times> nat list \<Rightarrow> bool" for path where
  acquire: "AcquireLock path p s = (Inr path, s') \<Longrightarrow> lock_step path (s, hs) (s', p # hs)"
| refuse: "AcquireLock path p s = (Inl e, s') \<Longrightarrow> lock_step path (s, hs) (s', hs)"
| release: "p \<in> set hs \<Longrightarrow> Release (Some path) s = (e, s') \<Longrightarrow> lock_step path (s, hs) (s', removeAll p hs)"
| crash: "p \<in> set hs \<Longrightarrow> lock_step path (s, hs) (s, removeAll p hs)"
| other: "touches A s s' \<Longrightarrow> path \<notin> A \<Longrightarrow> lock_step path (s, hs) (s', hs)"

abbreviation locked :: "string \<Rightarrow> os \<Rightarrow> bool" where
  "locked path s \<equiv> map_get (files s) path \<noteq> None"

lemma AcquireLock_cases:
  assumes "AcquireLock path p s = (r, s')"
  shows "r = Inr path \<and> \<not> locked path s \<and> locked path s' \<or> (\<exists>e. r = Inl e) \<and> files s' = files s"
  using assms
  by (auto simp: AcquireLock_def os_defs sd.get_put Let_def split: if_splits option.splits bool.splits)

lemma lock_step_inv:
  assumes "lock_step path x y" and "length (snd x) \<le> 1" and "snd x \<noteq> [] \<longrightarrow> locked path (fst x)"
  shows "length (snd y) \<le> 1 \<and> (snd y \<noteq> [] \<longrightarrow> locked path (fst y))"
  using assms
proof cases
  case (release p hs s e s')
  then have "hs = [p]" using assms(2) by (cases hs) auto
  with release show ?thesis by simp
next
  case (crash p hs s)
  then have "hs = [p]" using assms(2) by (cases hs) auto
  with crash show ?thesis by simp
qed (use assms in \<open>auto dest!: AcquireLock_cases dest: touches_files\<close>)

text \<open>
  C22: mutual exclusion. However processes acquire, release, fail and die, at most one holds the
  lock at a time, and while one does the lock file exists.
\<close>

theorem lock_mutual_exclusion:
  assumes "(lock_step path)\<^sup>*\<^sup>* (s, []) (s', hs)"
  shows "length hs \<le> 1 \<and> (hs \<noteq> [] \<longrightarrow> locked path s')"
proof -
  have "length (snd y) \<le> 1 \<and> (snd y \<noteq> [] \<longrightarrow> locked path (fst y))" if "(lock_step path)\<^sup>*\<^sup>* (s, []) y" for y
    using that by (induction rule: rtranclp_induct) (auto dest: lock_step_inv)
  from this [OF assms] show ?thesis by simp
qed

definition calm_os :: os where
  "calm_os = example_os\<lparr>faults := (\<lambda>n. False)\<rparr>"

lemma calm_acquire:
  "AcquireLock ''/run/lock'' 7 calm_os = (Inr ''/run/lock'', snd (AcquireLock ''/run/lock'' 7 calm_os))"
proof -
  have "fst (AcquireLock ''/run/lock'' 7 calm_os) = Inr ''/run/lock''" by code_simp
  then show ?thesis by (metis prod.collapse)
qed

theorem lock_mutual_exclusion_witness:
  "(lock_step ''/run/lock'')\<^sup>*\<^sup>* (calm_os, []) (snd (AcquireLock ''/run/lock'' 7 calm_os), [7])
   \<and> length [7 :: nat] \<le> 1 \<and> locked ''/run/lock'' (snd (AcquireLock ''/run/lock'' 7 calm_os))"
proof -
  have "(lock_step ''/run/lock'')\<^sup>*\<^sup>* (calm_os, []) (snd (AcquireLock ''/run/lock'' 7 calm_os), [7])"
    using lock_step.acquire [OF calm_acquire, of "[]"] by blast
  then show ?thesis using lock_mutual_exclusion by blast
qed

text \<open>
  C27: the lock file holds the process id of its owner, but nobody reads it. Once a process has
  died holding the lock, no process ever acquires it again, until the file is removed by hand.
\<close>

theorem dead_holder_blocks_for_ever:
  assumes "locked path s" and "(lock_step path)\<^sup>*\<^sup>* (s, []) (s', hs)"
  shows "hs = [] \<and> locked path s' \<and> (\<exists>e. fst (AcquireLock path p s') = Inl e)"
proof -
  have "snd y = [] \<and> locked path (fst y)" if "(lock_step path)\<^sup>*\<^sup>* (s, []) y" for y
    using that
  proof (induction rule: rtranclp_induct)
    case base
    then show ?case using assms(1) by simp
  next
    case (step y z)
    from step(2,3) show ?case
      by cases (auto dest!: AcquireLock_cases dest: touches_files)
  qed
  from this [OF assms(2)] have "hs = []" "locked path s'" by simp_all
  with AcquireLock_cases [of path p s'] show ?thesis by (metis prod.collapse)
qed

theorem dead_holder_blocks_for_ever_witness:
  "\<exists>e. fst (AcquireLock ''/run/lock'' 8 (snd (AcquireLock ''/run/lock'' 7 calm_os))) = Inl e"
proof -
  have "locked ''/run/lock'' (snd (AcquireLock ''/run/lock'' 7 calm_os))"
    using AcquireLock_cases [OF calm_acquire] by simp
  then show ?thesis using dead_holder_blocks_for_ever by blast
qed

end
