(* ===== verification/Pki.thy ===== *)
theory Pki
  imports Dnsname X509 Fileutil
begin

text \<open>
  Package \<^verbatim>\<open>internal/pki\<close>: certificates, certificate requests and private keys in PEM form, and
  bundles written to disk.
\<close>

section \<open>Certificates\<close>

datatype pki_error =
    NoPEMBlock
  | UnexpectedPEMType string
  | ParseCertificateFailed
  | ParseRequestFailed
  | InvalidSignature
  | MarshalPublicKeyFailed
  | PublicKeyMismatch
  | CertificateNamesInvalid dns_error
  | ExpectedNamesInvalid dns_error
  | NamesMismatch "string list" "string list"
  | IdentityRequired
  | ServiceNamesInvalid dns_error
  | ServiceNamesRequired
  | CreateRequestFailed
  | MarshalKeyFailed
  | UnexpectedKeyType string
  | ParseKeyFailed
  | NotASigner
  | StatKeyFailed
  | ReadKeyFailed
  | BadKeyFile pki_error
  | GenerateKeyFailed
  | WriteKeyFailed write_error

definition ParseCertificatePEM :: "crypto \<Rightarrow> string \<Rightarrow> (pki_error, certificate) result" where
  "ParseCertificatePEM cr data =
     (case pem_decode cr data of
        None \<Rightarrow> Inl NoPEMBlock
      | Some (ty, bytes) \<Rightarrow>
          if ty \<noteq> ''CERTIFICATE'' then Inl (UnexpectedPEMType ty)
          else case parse_certificate cr bytes of
            None \<Rightarrow> Inl ParseCertificateFailed
          | Some cert \<Rightarrow> Inr cert)"

definition EncodeCertPEM :: "crypto \<Rightarrow> certificate \<Rightarrow> string" where
  "EncodeCertPEM cr cert = pem_encode cr ''CERTIFICATE'' (certRaw cert)"

definition ExpiresWithin :: "instant \<Rightarrow> certificate \<Rightarrow> duration \<Rightarrow> bool" where
  "ExpiresWithin now cert d \<longleftrightarrow> time_until now (certNotAfter cert) \<le> d"

definition IsExpired :: "instant \<Rightarrow> certificate \<Rightarrow> bool" where
  "IsExpired now cert \<longleftrightarrow> certNotAfter cert < now"

definition CertificateMatchesPrivateKey :: "crypto \<Rightarrow> certificate \<Rightarrow> private_key \<Rightarrow> pki_error option" where
  "CertificateMatchesPrivateKey cr cert key =
     (case marshal_public cr (certPublicKey cert) of
        None \<Rightarrow> Some MarshalPublicKeyFailed
      | Some certPubDER \<Rightarrow>
          (case marshal_public cr (public_of cr key) of
             None \<Rightarrow> Some MarshalPublicKeyFailed
           | Some keyPubDER \<Rightarrow> if certPubDER \<noteq> keyPubDER then Some PublicKeyMismatch else None))"

fun hex_text :: "nat \<Rightarrow> string" where
  "hex_text n = (if n < 16 then [hex_digit n] else hex_text (n div 16) @ [hex_digit (n mod 16)])"

declare hex_text.simps [simp del]

definition SerialString :: "int option \<Rightarrow> string" where
  "SerialString n =
     (case n of None \<Rightarrow> []
      | Some i \<Rightarrow> if i < 0 then CHR ''-'' # hex_text (nat (- i)) else hex_text (nat i))"

definition CertificateHasExactDNSNames :: "certificate \<Rightarrow> string list \<Rightarrow> pki_error option" where
  "CertificateHasExactDNSNames cert expected =
     (case CanonicalList (certDNSNames cert) of
        Inl e \<Rightarrow> Some (CertificateNamesInvalid e)
      | Inr actual \<Rightarrow>
          (case CanonicalList expected of
             Inl e \<Rightarrow> Some (ExpectedNamesInvalid e)
           | Inr ex \<Rightarrow> if \<not> EqualSet actual ex then Some (NamesMismatch actual ex) else None))"

section \<open>Certificate requests\<close>

definition createCSR :: "crypto \<Rightarrow> private_key \<Rightarrow> certificate_request \<Rightarrow> (pki_error, string) result" where
  "createCSR cr privateKey tpl =
     (case create_request cr tpl privateKey of
        None \<Rightarrow> Inl CreateRequestFailed
      | Some der \<Rightarrow> Inr (pem_encode cr ''CERTIFICATE REQUEST'' der))"

definition GenerateIdentityCSR :: "crypto \<Rightarrow> private_key \<Rightarrow> string \<Rightarrow> (pki_error, string) result" where
  "GenerateIdentityCSR cr privateKey identity0 =
     (let identity = TrimSpace identity0 in
      if identity = [] then Inl IdentityRequired
      else createCSR cr privateKey \<lparr>csrCommonName = identity, csrDNSNames = [], csrPublicKey = public_of cr privateKey\<rparr>)"

definition GenerateServiceCSR :: "crypto \<Rightarrow> private_key \<Rightarrow> string list \<Rightarrow> (pki_error, string) result" where
  "GenerateServiceCSR cr privateKey names =
     (case CanonicalList names of
        Inl e \<Rightarrow> Inl (ServiceNamesInvalid e)
      | Inr canonical \<Rightarrow>
          if canonical = [] then Inl ServiceNamesRequired
          else createCSR cr privateKey
                 \<lparr>csrCommonName = hd canonical, csrDNSNames = canonical, csrPublicKey = public_of cr privateKey\<rparr>)"

definition ParseCSRPEM :: "crypto \<Rightarrow> string \<Rightarrow> (pki_error, certificate_request) result" where
  "ParseCSRPEM cr data =
     (case pem_decode cr data of
        None \<Rightarrow> Inl NoPEMBlock
      | Some (ty, bytes) \<Rightarrow>
          if ty \<noteq> ''CERTIFICATE REQUEST'' then Inl (UnexpectedPEMType ty)
          else case parse_request cr bytes of
            None \<Rightarrow> Inl ParseRequestFailed
          | Some csr \<Rightarrow> if \<not> check_signature cr csr then Inl InvalidSignature else Inr csr)"

definition PublicKeyFingerprint :: "crypto \<Rightarrow> public_key \<Rightarrow> (pki_error, string) result" where
  "PublicKeyFingerprint cr publicKey =
     (case marshal_public cr publicKey of
        None \<Rightarrow> Inl MarshalPublicKeyFailed
      | Some der \<Rightarrow> Inr (hex_encode (sha256 cr der)))"

definition CSRFingerprint :: "crypto \<Rightarrow> string \<Rightarrow> string" where
  "CSRFingerprint cr csrPEM = hex_encode (sha256 cr csrPEM)"

section \<open>Private keys\<close>

definition MarshalPrivateKeyPEM :: "crypto \<Rightarrow> private_key \<Rightarrow> (pki_error, string) result" where
  "MarshalPrivateKeyPEM cr key =
     (case marshal_pkcs8 cr key of
        None \<Rightarrow> Inl MarshalKeyFailed
      | Some der \<Rightarrow> Inr (pem_encode cr ''PRIVATE KEY'' der))"

definition ParsePrivateKeyPEM :: "crypto \<Rightarrow> string \<Rightarrow> (pki_error, private_key) result" where
  "ParsePrivateKeyPEM cr data =
     (case pem_decode cr data of
        None \<Rightarrow> Inl NoPEMBlock
      | Some (ty, bytes) \<Rightarrow>
          if ty = ''PRIVATE KEY'' \<or> ty = ''EC PRIVATE KEY'' then
            (case (if ty = ''PRIVATE KEY'' then parse_pkcs8 cr bytes else parse_ec cr bytes) of
               None \<Rightarrow> Inl ParseKeyFailed
             | Some key \<Rightarrow> if \<not> is_signer cr key then Inl NotASigner else Inr key)
          else Inl (UnexpectedKeyType ty))"

text \<open>
  The key that \<^verbatim>\<open>GenerateECDSAKey\<close> draws is an argument, \<open>None\<close> when the random source fails.
\<close>

definition EnsureECDSAPrivateKey ::
  "crypto \<Rightarrow> private_key option \<Rightarrow> string \<Rightarrow> os \<Rightarrow> (pki_error, private_key \<times> string) result \<times> os" where
  "EnsureECDSAPrivateKey cr drawn path s =
     (case FileExists path s of
        (Inl e, s) \<Rightarrow> (Inl StatKeyFailed, s)
      | (Inr True, s) \<Rightarrow>
          (case os_ReadFile path s of
             (Inl e, s) \<Rightarrow> (Inl ReadKeyFailed, s)
           | (Inr data, s) \<Rightarrow>
               (case ParsePrivateKeyPEM cr data of
                  Inl e \<Rightarrow> (Inl (BadKeyFile e), s)
                | Inr key \<Rightarrow> (Inr (key, data), s)))
      | (Inr False, s) \<Rightarrow>
          (case drawn of
             None \<Rightarrow> (Inl GenerateKeyFailed, s)
           | Some key \<Rightarrow>
               (case MarshalPrivateKeyPEM cr key of
                  Inl e \<Rightarrow> (Inl e, s)
                | Inr pemData \<Rightarrow>
                    (case WriteFileAtomic path pemData 384 s of
                       (Some e, s) \<Rightarrow> (Inl (WriteKeyFailed e), s)
                     | (None, s) \<Rightarrow> (Inr (key, pemData), s)))))"

section \<open>Bundles\<close>

record cert_bundle =
  CertPEM :: string
  ChainPEM :: string
  FullChainPEM :: string
  LeafSerialNumber :: string
  bundleNotBefore :: instant
  bundleNotAfter :: instant

text \<open>The three files are written in turn; the first error ends the loop.\<close>

fun write_files :: "(string \<times> string) list \<Rightarrow> os \<Rightarrow> (string \<times> write_error) option \<times> os" where
  "write_files [] s = (None, s)"
| "write_files ((path, data) # fs) s =
     (case WriteFileAtomic path data 420 s of
        (Some e, s) \<Rightarrow> (Some (path, e), s)
      | (None, s) \<Rightarrow> write_files fs s)"

definition WriteToDisk ::
  "cert_bundle \<Rightarrow> string \<Rightarrow> string \<Rightarrow> string \<Rightarrow> os \<Rightarrow> (string \<times> write_error) option \<times> os" where
  "WriteToDisk b certPath chainPath fullchainPath =
     write_files [(certPath, CertPEM b), (chainPath, ChainPEM b), (fullchainPath, FullChainPEM b)]"

section \<open>Lemmas\<close>

lemma CertificateHasExactDNSNames_None:
  "CertificateHasExactDNSNames cert expected = None \<longleftrightarrow>
     valid_names (certDNSNames cert) \<and> valid_names expected
     \<and> name_set (certDNSNames cert) = name_set expected"
proof -
  have canon: "EqualSet a b \<longleftrightarrow> name_set xs = name_set ys"
    if "CanonicalList xs = Inr a" "CanonicalList ys = Inr b" for a b xs ys
    using CanonicalList_canonical [OF that(1)] CanonicalList_canonical [OF that(2)]
    by (simp add: EqualSet_iff)
  have valid: "valid_names ns" if "CanonicalList ns = Inr r" for ns r
    using that by (simp add: CanonicalList_iff)
  have invalid: "\<not> valid_names ns" if "CanonicalList ns = Inl e" for ns e
    using that CanonicalList_valid by fastforce
  show ?thesis
    unfolding CertificateHasExactDNSNames_def
    using canon valid invalid by (auto split: sum.splits)
qed

text \<open>What \<^verbatim>\<open>crypto/x509\<close> and \<^verbatim>\<open>encoding/pem\<close> document: what is encoded is read back.\<close>

definition key_roundtrip :: "crypto \<Rightarrow> private_key \<Rightarrow> bool" where
  "key_roundtrip cr key \<longleftrightarrow>
     (case marshal_pkcs8 cr key of
        None \<Rightarrow> True
      | Some der \<Rightarrow> pem_decode cr (pem_encode cr ''PRIVATE KEY'' der) = Some (''PRIVATE KEY'', der)
          \<and> parse_pkcs8 cr der = Some key \<and> is_signer cr key)"

definition request_roundtrip :: "crypto \<Rightarrow> certificate_request \<Rightarrow> private_key \<Rightarrow> bool" where
  "request_roundtrip cr tpl key \<longleftrightarrow>
     (case create_request cr tpl key of
        None \<Rightarrow> False
      | Some der \<Rightarrow> pem_decode cr (pem_encode cr ''CERTIFICATE REQUEST'' der) = Some (''CERTIFICATE REQUEST'', der)
          \<and> parse_request cr der = Some tpl \<and> check_signature cr tpl)"

lemma parse_marshalled_key:
  "key_roundtrip cr key \<Longrightarrow> MarshalPrivateKeyPEM cr key = Inr pem \<Longrightarrow> ParsePrivateKeyPEM cr pem = Inr key"
  by (auto simp: key_roundtrip_def MarshalPrivateKeyPEM_def ParsePrivateKeyPEM_def split: option.splits)

lemma GenerateServiceCSR_roundtrip:
  assumes "valid_names names" and "names \<noteq> []"
    and "request_roundtrip cr \<lparr>csrCommonName = hd (sorted_list_of_set (name_set names)),
           csrDNSNames = sorted_list_of_set (name_set names), csrPublicKey = public_of cr key\<rparr> key"
  shows "\<exists>pem. GenerateServiceCSR cr key names = Inr pem
     \<and> ParseCSRPEM cr pem = Inr \<lparr>csrCommonName = hd (sorted_list_of_set (name_set names)),
           csrDNSNames = sorted_list_of_set (name_set names), csrPublicKey = public_of cr key\<rparr>"
proof -
  have "sorted_list_of_set (name_set names) \<noteq> []"
    using assms(1,2) CanonicalList_canonical(3) [OF CanonicalList_valid [OF assms(1)]]
    by (auto simp: name_set_def)
  with assms show ?thesis
    by (auto simp: GenerateServiceCSR_def CanonicalList_valid createCSR_def ParseCSRPEM_def
        request_roundtrip_def split: option.splits)
qed

lemma FileExists_cases:
  assumes "FileExists path s = (r, s')"
  shows "s' = tick s \<and> (r = Inr True \<longrightarrow> map_get (files s) path \<noteq> None) \<and> (r = Inr False \<longrightarrow> map_get (files s) path = None)"
  using assms by (auto simp: FileExists_def os_Stat_def split: if_splits)

lemma plain_path_tick [simp]: "plain_path (tick s) path \<longleftrightarrow> plain_path s path"
  by (simp add: plain_path_def)

lemma EnsureECDSAPrivateKey_result:
  assumes "plain_path s path" and "EnsureECDSAPrivateKey cr drawn path s = (Inr (key, pem), s')"
    and "\<forall>k. drawn = Some k \<longrightarrow> key_roundtrip cr k"
  shows "ParsePrivateKeyPEM cr pem = Inr key \<and>
    (case map_get (files s) path of
       Some f \<Rightarrow> pem = content f \<and> files s' = files s
     | None \<Rightarrow> drawn = Some key
         \<and> map_get (files s') = (map_get (files s))(path \<mapsto> \<lparr>content = pem, mode = 384\<rparr>))"
proof -
  obtain r s1 where 1: "FileExists path s = (r, s1)" by (cases "FileExists path s")
  note ex = FileExists_cases [OF 1]
  show ?thesis
  proof (cases "map_get (files s) path")
    case (Some f)
    then have "r = Inr True" using assms(2) 1 ex by (auto simp: EnsureECDSAPrivateKey_def split: sum.splits bool.splits)
    then show ?thesis
      using assms(2) 1 ex Some
      by (auto simp: EnsureECDSAPrivateKey_def os_ReadFile_def split: sum.splits if_splits)
  next
    case None
    then have "r = Inr False" using assms(2) 1 ex by (auto simp: EnsureECDSAPrivateKey_def split: sum.splits bool.splits)
    with assms(2) 1 have k: "drawn = Some key" "MarshalPrivateKeyPEM cr key = Inr pem"
      "WriteFileAtomic path pem 384 s1 = (None, s')"
      by (auto simp: EnsureECDSAPrivateKey_def split: option.splits sum.splits prod.splits)
    have "plain_path s1 path" using ex assms(1) by simp
    from WriteFileAtomic_result [OF this k(3)]
    have "map_get (files s') = (map_get (files s1))(path \<mapsto> \<lparr>content = pem, mode = 384\<rparr>)"
      by (simp only: simp_thms if_True)
    moreover have "files s1 = files s" using ex by simp
    ultimately have "map_get (files s') = (map_get (files s))(path \<mapsto> \<lparr>content = pem, mode = 384\<rparr>)"
      by (simp only:)
    with k None assms(3) parse_marshalled_key show ?thesis by auto
  qed
qed

section \<open>Properties\<close>

text \<open>
  \<^verbatim>\<open>CertificateHasExactDNSNames\<close> reports no error exactly when both lists hold acceptable
  names only and stand for the same set of canonical names.
\<close>

theorem exact_dns_names_decides:
  "CertificateHasExactDNSNames cert expected = None \<longleftrightarrow>
     valid_names (certDNSNames cert) \<and> valid_names expected
     \<and> name_set (certDNSNames cert) = name_set expected"
  by (rule CertificateHasExactDNSNames_None)

text \<open>
  When \<^verbatim>\<open>EnsureECDSAPrivateKey\<close> succeeds, the PEM text it returns is what the key file holds
  and parses to the key it returns; an existing key file has been left as it was, and a new one
  is readable by its owner only.
\<close>

theorem ensure_private_key_persists:
  assumes "plain_path s path" and "EnsureECDSAPrivateKey cr drawn path s = (Inr (key, pem), s')"
    and "\<forall>k. drawn = Some k \<longrightarrow> key_roundtrip cr k"
  shows "ParsePrivateKeyPEM cr pem = Inr key \<and>
    (case map_get (files s) path of
       Some f \<Rightarrow> pem = content f \<and> files s' = files s
     | None \<Rightarrow> drawn = Some key
         \<and> map_get (files s') = (map_get (files s))(path \<mapsto> \<lparr>content = pem, mode = 384\<rparr>))"
  by (rule EnsureECDSAPrivateKey_result [OF assms])

theorem ensure_private_key_persists_witness:
  "fst (EnsureECDSAPrivateKey example_crypto (Some ''key'') ''/c/svc.key'' calm_os) = Inr (''key'', ''PRIVATE KEY:key'')
   \<and> map_get (files (snd (EnsureECDSAPrivateKey example_crypto (Some ''key'') ''/c/svc.key'' calm_os))) ''/c/svc.key''
     = Some \<lparr>content = ''PRIVATE KEY:key'', mode = 384\<rparr>"
proof -
  obtain r s' where E: "EnsureECDSAPrivateKey example_crypto (Some ''key'') ''/c/svc.key'' calm_os = (r, s')"
    by (cases "EnsureECDSAPrivateKey example_crypto (Some ''key'') ''/c/svc.key'' calm_os")
  have "fst (EnsureECDSAPrivateKey example_crypto (Some ''key'') ''/c/svc.key'' calm_os)
      = Inr (''key'', ''PRIVATE KEY:key'')" by code_simp
  then have r: "r = Inr (''key'', ''PRIVATE KEY:key'')" using E by simp
  have "\<not> HasPrefix (Base_raw ''/c/svc.key'') ''.certplane-''" by code_simp
  then have "plain_path calm_os ''/c/svc.key''" by (simp add: plain_path_def calm_os_def example_os_def)
  moreover have "key_roundtrip example_crypto ''key''" by code_simp
  moreover have "map_get (files calm_os) ''/c/svc.key'' = None" by code_simp
  ultimately show ?thesis
    using ensure_private_key_persists [OF _ E [unfolded r]] by (simp add: E r)
qed

text \<open>
  A request generated for a list of acceptable names is parsed back, with a valid signature,
  to exactly the sorted canonical names of the list, and its common name is one of them.
\<close>

theorem service_csr_roundtrip:
  assumes "valid_names names" and "names \<noteq> []"
    and "request_roundtrip cr \<lparr>csrCommonName = hd (sorted_list_of_set (name_set names)),
           csrDNSNames = sorted_list_of_set (name_set names), csrPublicKey = public_of cr key\<rparr> key"
  shows "\<exists>pem csr. GenerateServiceCSR cr key names = Inr pem \<and> ParseCSRPEM cr pem = Inr csr
     \<and> csrDNSNames csr = sorted_list_of_set (name_set names) \<and> csrCommonName csr \<in> name_set names
     \<and> csrPublicKey csr = public_of cr key"
proof -
  have "sorted_list_of_set (name_set names) \<noteq> []"
    using assms(1,2) CanonicalList_canonical(3) [OF CanonicalList_valid [OF assms(1)]] by (auto simp: name_set_def)
  then have "hd (sorted_list_of_set (name_set names)) \<in> name_set names"
    using CanonicalList_canonical(3) [OF CanonicalList_valid [OF assms(1)]] hd_in_set by blast
  then show ?thesis using GenerateServiceCSR_roundtrip [OF assms] by fastforce
qed

theorem service_csr_roundtrip_witness:
  "\<exists>pem csr. GenerateServiceCSR example_crypto ''key'' [''A.example.com''] = Inr pem
     \<and> ParseCSRPEM example_crypto pem = Inr csr \<and> csrDNSNames csr = [''a.example.com'']"
proof -
  have names: "valid_names [''A.example.com'']" "sorted_list_of_set (name_set [''A.example.com'']) = [''a.example.com'']"
    by code_simp+
  have "request_roundtrip example_crypto \<lparr>csrCommonName = hd [''a.example.com''], csrDNSNames = [''a.example.com''],
      csrPublicKey = public_of example_crypto ''key''\<rparr> ''key''"
    by code_simp
  then show ?thesis
    using service_csr_roundtrip [of "[''A.example.com'']" example_crypto "''key''"] unfolding names(2)
    using names(1) by blast
qed

end
