(* ===== verification/Config.thy ===== *)
theory Config
  imports Dnsname Go_Time Os
begin

text \<open>
  Package \<^verbatim>\<open>config\<close>: the configuration of the broker and of the agent, their default values and
  their validation. Every field of the Go structures has its record field; an error of a
  validation is a value naming the rule that is broken, and the errors are collected in the order
  of the source. Decoding YAML is third-party code and the argument \<open>dec\<close> of the loaders;
  \<^verbatim>\<open>url.ParseRequestURI\<close> enters only by its success, the argument \<open>uri\<close>.
\<close>

section \<open>Defaults and errors\<close>

definition default_str :: "string \<Rightarrow> string \<Rightarrow> string" where
  "default_str d s = (if s = [] then d else s)"

definition default_int :: "int \<Rightarrow> int \<Rightarrow> int" where
  "default_int d n = (if n = 0 then d else n)"

datatype config_error =
    Required string
  | NotOneOf string
  | NotPositive string
  | Negative string
  | InvalidURL string
  | DuplicateCertificate string
  | InvalidNames string dns_error
  | KeyEqualsCert string
  | InvalidLogging "config_error list"

text \<open>\<^verbatim>\<open>if cond { errs = append(errs, err) }\<close>.\<close>

abbreviation err_if :: "bool \<Rightarrow> config_error \<Rightarrow> config_error list" where
  "err_if b e \<equiv> (if b then [e] else [])"

section \<open>Logging\<close>

record logging_config =
  logLevel :: string
  logFormat :: string
  logDestination :: string

definition Logging_ApplyDefaults :: "string \<Rightarrow> string \<Rightarrow> string \<Rightarrow> logging_config \<Rightarrow> logging_config" where
  "Logging_ApplyDefaults level format destination c =
     \<lparr>logLevel = default_str level (logLevel c), logFormat = default_str format (logFormat c),
      logDestination = default_str destination (logDestination c)\<rparr>"

definition Logging_Validate :: "logging_config \<Rightarrow> config_error list option" where
  "Logging_Validate c = join_errors
     (err_if (logLevel c \<notin> {''debug'', ''info'', ''warn'', ''error''}) (NotOneOf ''logging.level'')
      @ err_if (logFormat c \<notin> {''text'', ''json''}) (NotOneOf ''logging.format'')
      @ err_if (logDestination c \<notin> {''stdout'', ''stderr''}) (NotOneOf ''logging.destination''))"

definition logging_errors :: "logging_config \<Rightarrow> config_error list" where
  "logging_errors c = (case Logging_Validate c of None \<Rightarrow> [] | Some es \<Rightarrow> [InvalidLogging es])"

section \<open>The broker\<close>

record server_tls_config =
  tlsCert :: string
  tlsKey :: string
  tlsMinVersion_cfg :: string

record server_config =
  srvAddress :: string
  srvTLS :: server_tls_config
  srvAgentCABundle :: string
  srvReadHeaderTimeout :: duration
  srvReadTimeout :: duration
  srvWriteTimeout :: duration
  srvIdleTimeout :: duration

record httpreq_config =
  hrEndpoint :: string
  hrMode :: string
  hrUsernameSecret :: string
  hrPasswordSecret :: string
  hrPropagationTimeout :: duration
  hrPollingInterval :: duration
  hrHTTPTimeout :: duration
  hrRecursiveNameservers :: "string list"

record acme_config =
  acDirectoryURL :: string
  acAccountEmail :: string
  acAccountKey :: string
  acDNSProvider :: string
  acPreferredChain :: string
  acHTTPReq :: httpreq_config

record vault_config =
  vaAddress :: string
  vaToken :: string
  vaTokenFile :: string
  vaMountPath :: string
  vaKVVersion :: int
  vaKey :: string
  vaTimeout :: duration
  vaNamespace :: string

record audit_config =
  auEnabled :: "bool option"
  auFailureMode :: string
  auMirrorToLog :: bool

record broker_config =
  bcServer :: server_config
  bcPolicyPath :: string
  bcPolicyWatch :: bool
  bcIssuerProvider :: string
  bcACME :: acme_config
  bcSecretsProvider :: string
  bcVault :: vault_config
  bcStoreDriver :: string
  bcStorePath :: string
  bcAudit :: audit_config
  bcPerIdentityPerHour :: int
  bcPerIdentityProfilePerHour :: int
  bcLogging :: logging_config

definition Broker_ApplyDefaults :: "broker_config \<Rightarrow> broker_config" where
  "Broker_ApplyDefaults c = c
     \<lparr>bcServer := (bcServer c)
        \<lparr>srvAddress := default_str '':8443'' (srvAddress (bcServer c)),
         srvReadHeaderTimeout := default_int (5 * Second) (srvReadHeaderTimeout (bcServer c)),
         srvReadTimeout := default_int (10 * Second) (srvReadTimeout (bcServer c)),
         srvWriteTimeout := default_int (60 * Second) (srvWriteTimeout (bcServer c)),
         srvIdleTimeout := default_int (120 * Second) (srvIdleTimeout (bcServer c)),
         srvTLS := (srvTLS (bcServer c))
           \<lparr>tlsMinVersion_cfg := default_str ''1.2'' (tlsMinVersion_cfg (srvTLS (bcServer c)))\<rparr>\<rparr>,
      bcStoreDriver := default_str ''sqlite'' (bcStoreDriver c),
      bcStorePath := default_str ''/var/lib/certplane/broker.db'' (bcStorePath c),
      bcAudit := (bcAudit c)\<lparr>auFailureMode := default_str ''fail_open'' (auFailureMode (bcAudit c))\<rparr>,
      bcIssuerProvider := default_str ''acme'' (bcIssuerProvider c),
      bcACME := (bcACME c)\<lparr>acHTTPReq := (acHTTPReq (bcACME c))
        \<lparr>hrPropagationTimeout := default_int (30 * Second) (hrPropagationTimeout (acHTTPReq (bcACME c))),
         hrPollingInterval := default_int (2 * Second) (hrPollingInterval (acHTTPReq (bcACME c))),
         hrHTTPTimeout := default_int (10 * Second) (hrHTTPTimeout (acHTTPReq (bcACME c)))\<rparr>\<rparr>,
      bcPerIdentityPerHour := default_int 50 (bcPerIdentityPerHour c),
      bcPerIdentityProfilePerHour := default_int 20 (bcPerIdentityProfilePerHour c),
      bcSecretsProvider := default_str ''env'' (bcSecretsProvider c),
      bcVault := (bcVault c)
        \<lparr>vaMountPath := default_str ''secret'' (vaMountPath (bcVault c)),
         vaKVVersion := default_int 2 (vaKVVersion (bcVault c)),
         vaKey := default_str ''value'' (vaKey (bcVault c)),
         vaTimeout := default_int (10 * Second) (vaTimeout (bcVault c))\<rparr>,
      bcLogging := Logging_ApplyDefaults ''info'' ''json'' ''stdout'' (bcLogging c)\<rparr>"

definition AuditEnabled :: "broker_config \<Rightarrow> bool" where
  "AuditEnabled c = (case auEnabled (bcAudit c) of None \<Rightarrow> True | Some b \<Rightarrow> b)"

text \<open>The rules of \<^verbatim>\<open>Validate\<close>, one group per \<^verbatim>\<open>switch\<close>.\<close>

definition server_errors :: "server_config \<Rightarrow> config_error list" where
  "server_errors s =
     err_if (tlsCert (srvTLS s) = []) (Required ''server.tls.cert'')
     @ err_if (tlsKey (srvTLS s) = []) (Required ''server.tls.key'')
     @ err_if (srvAgentCABundle s = []) (Required ''server.mtls.agent_ca_bundle'')
     @ err_if (tlsMinVersion_cfg (srvTLS s) \<notin> {''1.2'', ''1.3''}) (NotOneOf ''server.tls.min_version'')
     @ err_if (srvReadHeaderTimeout s \<le> 0 \<or> srvReadTimeout s \<le> 0 \<or> srvWriteTimeout s \<le> 0 \<or> srvIdleTimeout s \<le> 0)
         (NotPositive ''server timeouts'')"

definition httpreq_errors :: "(string \<Rightarrow> bool) \<Rightarrow> httpreq_config \<Rightarrow> config_error list" where
  "httpreq_errors uri h =
     (if hrEndpoint h = [] then [Required ''issuer.acme.httpreq.endpoint'']
      else err_if (\<not> uri (hrEndpoint h)) (InvalidURL ''issuer.acme.httpreq.endpoint''))
     @ err_if (hrMode h \<noteq> [] \<and> hrMode h \<noteq> ''RAW'') (NotOneOf ''issuer.acme.httpreq.mode'')
     @ err_if (hrPropagationTimeout h \<le> 0 \<or> hrPollingInterval h \<le> 0 \<or> hrHTTPTimeout h \<le> 0)
         (NotPositive ''issuer.acme.httpreq timeouts'')"

definition issuer_errors :: "(string \<Rightarrow> bool) \<Rightarrow> broker_config \<Rightarrow> config_error list" where
  "issuer_errors uri c =
     (if bcIssuerProvider c = ''acme'' then
        let a = bcACME c in
        (if acDirectoryURL a = [] then [Required ''issuer.acme.directory_url'']
         else err_if (\<not> uri (acDirectoryURL a)) (InvalidURL ''issuer.acme.directory_url''))
        @ err_if (acAccountEmail a = []) (Required ''issuer.acme.account_email'')
        @ err_if (acAccountKey a = []) (Required ''issuer.acme.account_key'')
        @ err_if (acDNSProvider a = []) (Required ''issuer.acme.dns_provider'')
        @ (if acDNSProvider a = ''cloudflare'' then []
           else if acDNSProvider a = ''httpreq'' then httpreq_errors uri (acHTTPReq a)
           else [NotOneOf ''issuer.acme.dns_provider''])
      else [NotOneOf ''issuer.provider''])"

definition secrets_errors :: "broker_config \<Rightarrow> config_error list" where
  "secrets_errors c =
     (if bcSecretsProvider c \<in> {''env'', ''file''} then []
      else if bcSecretsProvider c \<in> {''vault'', ''openbao''} then
        err_if (vaAddress (bcVault c) = []) (Required ''secrets.vault.address'')
        @ err_if (vaKVVersion (bcVault c) \<notin> {1, 2}) (NotOneOf ''secrets.vault.kv_version'')
      else [NotOneOf ''secrets.provider''])"

definition Broker_Validate :: "(string \<Rightarrow> bool) \<Rightarrow> broker_config \<Rightarrow> config_error list option" where
  "Broker_Validate uri c = join_errors
     (server_errors (bcServer c)
      @ err_if (bcPolicyPath c = []) (Required ''policy.path'')
      @ issuer_errors uri c
      @ secrets_errors c
      @ (if bcStoreDriver c \<in> {''sqlite'', ''file''} then err_if (bcStorePath c = []) (Required ''store.path'')
         else [NotOneOf ''store.driver''])
      @ err_if (auFailureMode (bcAudit c) \<notin> {''fail_open'', ''fail_closed''}) (NotOneOf ''audit.failure_mode'')
      @ err_if (bcPerIdentityPerHour c < 0) (Negative ''rate_limits.per_identity_per_hour'')
      @ err_if (bcPerIdentityProfilePerHour c < 0) (Negative ''rate_limits.per_identity_profile_per_hour'')
      @ logging_errors (bcLogging c))"

section \<open>The agent\<close>

record step_ca_config =
  stURL :: string
  stFingerprint :: string
  stRootCABundle :: string
  stTimeout :: duration

record identity_config =
  idName :: string
  idProvider :: string
  idCert :: string
  idKey :: string
  idIssuerCABundle :: string
  idBootstrapToken :: string
  idRenewBefore :: duration
  idWarnBefore :: duration
  idStepCA :: step_ca_config

record agent_broker_config =
  abURL :: string
  abServerCABundle :: string
  abTimeout :: duration

record cert_config =
  ccName :: string
  ccProfile :: string
  ccDNSNames :: "string list"
  ccKey :: string
  ccCert :: string
  ccChain :: string
  ccFullChain :: string
  ccReloadCommand :: string
  ccReloadTimeout :: duration
  ccRenewBefore :: duration

record agent_config =
  agStateDir :: string
  agIdentity :: identity_config
  agBroker :: agent_broker_config
  agCertificates :: "cert_config list"
  agLogging :: logging_config

definition cert_defaults :: "cert_config \<Rightarrow> cert_config" where
  "cert_defaults c = c\<lparr>ccRenewBefore := default_int (30 * 24 * Hour) (ccRenewBefore c),
     ccReloadTimeout := default_int (30 * Second) (ccReloadTimeout c)\<rparr>"

definition Agent_ApplyDefaults :: "agent_config \<Rightarrow> agent_config" where
  "Agent_ApplyDefaults c = c
     \<lparr>agStateDir := default_str ''/var/lib/certplane/agent'' (agStateDir c),
      agIdentity := (agIdentity c)
        \<lparr>idProvider := default_str ''step-ca'' (idProvider (agIdentity c)),
         idRenewBefore := default_int (8 * Hour) (idRenewBefore (agIdentity c)),
         idWarnBefore := default_int (24 * Hour) (idWarnBefore (agIdentity c)),
         idStepCA := (idStepCA (agIdentity c))
           \<lparr>stTimeout := default_int (10 * Second) (stTimeout (idStepCA (agIdentity c)))\<rparr>\<rparr>,
      agBroker := (agBroker c)\<lparr>abTimeout := default_int (30 * Second) (abTimeout (agBroker c))\<rparr>,
      agCertificates := map cert_defaults (agCertificates c),
      agLogging := Logging_ApplyDefaults ''info'' ''text'' ''stderr'' (agLogging c)\<rparr>"

definition identity_errors :: "(string \<Rightarrow> bool) \<Rightarrow> identity_config \<Rightarrow> config_error list" where
  "identity_errors uri i =
     err_if (idName i = []) (Required ''identity.name'')
     @ err_if (idCert i = [] \<or> idKey i = []) (Required ''identity.cert and identity.key'')
     @ err_if (idIssuerCABundle i = []) (Required ''identity.issuer_ca_bundle'')
     @ err_if (idRenewBefore i \<le> 0) (NotPositive ''identity.renew_before'')
     @ err_if (idWarnBefore i \<le> 0) (NotPositive ''identity.warn_before'')
     @ (if idProvider i = ''step-ca'' then
          err_if (stURL (idStepCA i) = []) (Required ''identity.step_ca.url'')
          @ err_if (\<not> uri (stURL (idStepCA i))) (InvalidURL ''identity.step_ca.url'')
          @ err_if (stFingerprint (idStepCA i) = [] \<and> stRootCABundle (idStepCA i) = [])
              (Required ''identity.step_ca.fingerprint or identity.step_ca.root_ca_bundle'')
        else [NotOneOf ''identity.provider''])"

text \<open>The body of the loop over the certificates; \<open>name\<close> labels the entry in the messages.\<close>

definition cert_errors :: "string list \<Rightarrow> nat \<Rightarrow> cert_config \<Rightarrow> config_error list" where
  "cert_errors seen i c =
     (let name = (if ccName c = [] then ''index '' @ decimal i else ccName c) in
      err_if (ccName c = []) (Required (''certificates['' @ decimal i @ ''].name''))
      @ err_if (ccName c \<noteq> [] \<and> ccName c \<in> set seen) (DuplicateCertificate (ccName c))
      @ err_if (ccProfile c = []) (Required (name @ ''.profile''))
      @ (if ccDNSNames c = [] then [Required (name @ ''.dns_names'')]
         else case CanonicalList (ccDNSNames c) of Inl e \<Rightarrow> [InvalidNames name e] | Inr _ \<Rightarrow> [])
      @ err_if (ccKey c = [] \<or> ccCert c = [] \<or> ccChain c = [] \<or> ccFullChain c = []) (Required (name @ '' key/cert/chain/fullchain''))
      @ err_if (ccKey c \<noteq> [] \<and> ccCert c \<noteq> [] \<and> Clean (ccKey c) = Clean (ccCert c)) (KeyEqualsCert name)
      @ err_if (ccRenewBefore c \<le> 0) (NotPositive (name @ ''.renew_before''))
      @ err_if (ccReloadCommand c \<noteq> [] \<and> ccReloadTimeout c \<le> 0) (NotPositive (name @ ''.reload_timeout'')))"

fun certs_errors :: "string list \<Rightarrow> nat \<Rightarrow> cert_config list \<Rightarrow> config_error list" where
  "certs_errors seen i [] = []"
| "certs_errors seen i (c # cs) =
     cert_errors seen i c @ certs_errors (if ccName c \<noteq> [] then ccName c # seen else seen) (Suc i) cs"

definition Agent_Validate :: "(string \<Rightarrow> bool) \<Rightarrow> agent_config \<Rightarrow> config_error list option" where
  "Agent_Validate uri c = join_errors
     (identity_errors uri (agIdentity c)
      @ (if abURL (agBroker c) = [] then [Required ''broker.url'']
         else err_if (\<not> uri (abURL (agBroker c))) (InvalidURL ''broker.url''))
      @ err_if (abServerCABundle (agBroker c) = []) (Required ''broker.server_ca_bundle'')
      @ err_if (abTimeout (agBroker c) \<le> 0) (NotPositive ''broker.timeout'')
      @ err_if (agCertificates c = []) (Required ''at least one certificate entry'')
      @ certs_errors [] 0 (agCertificates c)
      @ logging_errors (agLogging c))"

section \<open>Loading\<close>

datatype config_load_error =
    ConfigReadFailed string | ConfigParseFailed string
  | InvalidConfig "config_error list"

definition loadYAML :: "(string \<Rightarrow> 'c option) \<Rightarrow> string \<Rightarrow> os \<Rightarrow> (config_load_error, 'c) result \<times> os" where
  "loadYAML dec path s =
     (case os_ReadFile path s of
        (Inl _, s) \<Rightarrow> (Inl (ConfigReadFailed path), s)
      | (Inr data, s) \<Rightarrow> (case dec data of None \<Rightarrow> Inl (ConfigParseFailed path) | Some c \<Rightarrow> Inr c, s))"

definition LoadBroker ::
  "(string \<Rightarrow> bool) \<Rightarrow> (string \<Rightarrow> broker_config option) \<Rightarrow> string \<Rightarrow> os
   \<Rightarrow> (config_load_error, broker_config) result \<times> os" where
  "LoadBroker uri dec path s =
     (case loadYAML dec path s of
        (Inl e, s) \<Rightarrow> (Inl e, s)
      | (Inr cfg, s) \<Rightarrow>
          (let cfg = Broker_ApplyDefaults cfg in
           (case Broker_Validate uri cfg of Some es \<Rightarrow> Inl (InvalidConfig es) | None \<Rightarrow> Inr cfg, s)))"

definition LoadAgent ::
  "(string \<Rightarrow> bool) \<Rightarrow> (string \<Rightarrow> agent_config option) \<Rightarrow> string \<Rightarrow> os
   \<Rightarrow> (config_load_error, agent_config) result \<times> os" where
  "LoadAgent uri dec path s =
     (case loadYAML dec path s of
        (Inl e, s) \<Rightarrow> (Inl e, s)
      | (Inr cfg, s) \<Rightarrow>
          (let cfg = Agent_ApplyDefaults cfg in
           (case Agent_Validate uri cfg of Some es \<Rightarrow> Inl (InvalidConfig es) | None \<Rightarrow> Inr cfg, s)))"

section \<open>Lemmas\<close>

lemma err_if_Nil: "err_if b e = [] \<longleftrightarrow> \<not> b"
  by simp

lemma default_str_ne [simp]: "d \<noteq> [] \<Longrightarrow> default_str d s \<noteq> []"
  by (simp add: default_str_def)

lemma default_str_twice [simp]: "default_str d (default_str d s) = default_str d s"
  by (simp add: default_str_def)

lemma default_int_twice [simp]: "default_int d (default_int d n) = default_int d n"
  by (simp add: default_int_def)

lemma default_int_nonneg [simp]: "0 < d \<Longrightarrow> 0 < default_int d n \<longleftrightarrow> 0 \<le> n"
  by (auto simp: default_int_def)

lemma Logging_ApplyDefaults_twice [simp]:
  "Logging_ApplyDefaults l f d (Logging_ApplyDefaults l f d c) = Logging_ApplyDefaults l f d c"
  by (simp add: Logging_ApplyDefaults_def)

lemma logging_errors_Nil:
  "logging_errors c = [] \<longleftrightarrow> logLevel c \<in> {''debug'', ''info'', ''warn'', ''error''}
     \<and> logFormat c \<in> {''text'', ''json''} \<and> logDestination c \<in> {''stdout'', ''stderr''}"
  by (auto simp: logging_errors_def Logging_Validate_def join_errors_def)

lemma Broker_ApplyDefaults_twice: "Broker_ApplyDefaults (Broker_ApplyDefaults c) = Broker_ApplyDefaults c"
  by (simp add: Broker_ApplyDefaults_def)

lemma loadYAML_Inr:
  "loadYAML dec path s = (Inr c, s') \<longleftrightarrow>
     s' = tick s \<and> \<not> failing s \<and> (\<exists>f. map_get (files s) path = Some f \<and> dec (content f) = Some c)"
  by (auto simp: loadYAML_def os_ReadFile_def split: option.splits if_splits)

lemma LoadBroker_Inr:
  "LoadBroker uri dec path s = (Inr c, s') \<longleftrightarrow>
     (\<exists>raw. loadYAML dec path s = (Inr raw, s') \<and> c = Broker_ApplyDefaults raw \<and> Broker_Validate uri c = None)"
  by (auto simp: LoadBroker_def Let_def split: prod.splits sum.splits option.splits)

lemma LoadAgent_Inr:
  "LoadAgent uri dec path s = (Inr c, s') \<longleftrightarrow>
     (\<exists>raw. loadYAML dec path s = (Inr raw, s') \<and> c = Agent_ApplyDefaults raw \<and> Agent_Validate uri c = None)"
  by (auto simp: LoadAgent_def Let_def split: prod.splits sum.splits option.splits)

lemma if_list_Nil: "(if b then [e] else es) = [] \<longleftrightarrow> \<not> b \<and> es = []"
  by simp

lemma identity_errors_Nil:
  "identity_errors uri i = [] \<longleftrightarrow> idName i \<noteq> [] \<and> idCert i \<noteq> [] \<and> idKey i \<noteq> [] \<and> idIssuerCABundle i \<noteq> []
     \<and> 0 < idRenewBefore i \<and> 0 < idWarnBefore i \<and> idProvider i = ''step-ca''
     \<and> stURL (idStepCA i) \<noteq> [] \<and> uri (stURL (idStepCA i))
     \<and> \<not> (stFingerprint (idStepCA i) = [] \<and> stRootCABundle (idStepCA i) = [])"
  by (cases "idProvider i = ''step-ca''")
    (simp_all add: identity_errors_def append_is_Nil_conv not_le)

text \<open>What a valid entry for a certificate is, whatever its position.\<close>

definition cert_ok :: "cert_config \<Rightarrow> bool" where
  "cert_ok c \<longleftrightarrow> ccName c \<noteq> [] \<and> ccProfile c \<noteq> [] \<and> ccDNSNames c \<noteq> [] \<and> is_ok (CanonicalList (ccDNSNames c))
     \<and> ccKey c \<noteq> [] \<and> ccCert c \<noteq> [] \<and> ccChain c \<noteq> [] \<and> ccFullChain c \<noteq> [] \<and> Clean (ccKey c) \<noteq> Clean (ccCert c)
     \<and> 0 < ccRenewBefore c \<and> (ccReloadCommand c \<noteq> [] \<longrightarrow> 0 < ccReloadTimeout c)"

lemma cert_errors_Nil: "cert_errors seen i c = [] \<longleftrightarrow> cert_ok c \<and> ccName c \<notin> set seen"
  by (auto simp: cert_errors_def cert_ok_def Let_def is_ok_def split: sum.splits)

lemma certs_errors_Nil:
  "certs_errors seen i cs = [] \<longleftrightarrow>
     list_all cert_ok cs \<and> distinct (map ccName cs) \<and> set (map ccName cs) \<inter> set seen = {}"
proof (induction cs arbitrary: seen i)
  case (Cons c cs)
  have "ccName c \<noteq> []" if "cert_ok c" using that by (simp add: cert_ok_def)
  then show ?case by (auto simp: cert_errors_Nil Cons.IH)
qed simp

section \<open>Properties\<close>

text \<open>
  What the rest of the broker relies on: the limits of the rate limiter are positive (so that it
  is never switched off), the drivers and providers are ones the broker can build, the failure
  mode is one of the two, and the timeouts are positive.
\<close>

definition broker_ready :: "broker_config \<Rightarrow> bool" where
  "broker_ready c \<longleftrightarrow>
     0 < bcPerIdentityPerHour c \<and> 0 < bcPerIdentityProfilePerHour c
     \<and> auFailureMode (bcAudit c) \<in> {''fail_open'', ''fail_closed''}
     \<and> bcStoreDriver c \<in> {''sqlite'', ''file''} \<and> bcStorePath c \<noteq> [] \<and> bcPolicyPath c \<noteq> []
     \<and> bcIssuerProvider c = ''acme'' \<and> acDNSProvider (bcACME c) \<in> {''cloudflare'', ''httpreq''}
     \<and> acDirectoryURL (bcACME c) \<noteq> [] \<and> acAccountEmail (bcACME c) \<noteq> [] \<and> acAccountKey (bcACME c) \<noteq> []
     \<and> bcSecretsProvider c \<in> {''env'', ''file'', ''vault'', ''openbao''}
     \<and> (bcSecretsProvider c \<in> {''vault'', ''openbao''} \<longrightarrow> vaAddress (bcVault c) \<noteq> [] \<and> vaKVVersion (bcVault c) \<in> {1, 2})
     \<and> tlsMinVersion_cfg (srvTLS (bcServer c)) \<in> {''1.2'', ''1.3''} \<and> srvAgentCABundle (bcServer c) \<noteq> []
     \<and> 0 < srvReadHeaderTimeout (bcServer c) \<and> 0 < srvReadTimeout (bcServer c)
     \<and> 0 < srvWriteTimeout (bcServer c) \<and> 0 < srvIdleTimeout (bcServer c)"

lemma validated_broker_ready:
  assumes "Broker_Validate uri (Broker_ApplyDefaults raw) = None"
  shows "broker_ready (Broker_ApplyDefaults raw)"
proof -
  let ?c = "Broker_ApplyDefaults raw"
  from assms have srv: "server_errors (bcServer ?c) = []" and iss: "issuer_errors uri ?c = []"
    and sec: "secrets_errors ?c = []"
    and rest: "bcPolicyPath ?c \<noteq> []" "bcStoreDriver ?c \<in> {''sqlite'', ''file''}" "bcStorePath ?c \<noteq> []"
      "auFailureMode (bcAudit ?c) \<in> {''fail_open'', ''fail_closed''}"
      "0 \<le> bcPerIdentityPerHour ?c" "0 \<le> bcPerIdentityProfilePerHour ?c"
    by (auto simp: Broker_Validate_def split: if_splits)
  have "0 < bcPerIdentityPerHour ?c" "0 < bcPerIdentityProfilePerHour ?c"
    using rest(5,6) by (simp_all add: Broker_ApplyDefaults_def default_int_def split: if_splits)
  moreover have "0 < srvReadHeaderTimeout (bcServer ?c) \<and> 0 < srvReadTimeout (bcServer ?c)
      \<and> 0 < srvWriteTimeout (bcServer ?c) \<and> 0 < srvIdleTimeout (bcServer ?c)
      \<and> tlsMinVersion_cfg (srvTLS (bcServer ?c)) \<in> {''1.2'', ''1.3''} \<and> srvAgentCABundle (bcServer ?c) \<noteq> []"
    using srv unfolding server_errors_def by (simp split: if_splits)
  moreover have "bcIssuerProvider ?c = ''acme'' \<and> acDNSProvider (bcACME ?c) \<in> {''cloudflare'', ''httpreq''}
      \<and> acDirectoryURL (bcACME ?c) \<noteq> [] \<and> acAccountEmail (bcACME ?c) \<noteq> [] \<and> acAccountKey (bcACME ?c) \<noteq> []"
    using iss unfolding issuer_errors_def Let_def by (simp split: if_splits)
  moreover have "bcSecretsProvider ?c \<in> {''env'', ''file'', ''vault'', ''openbao''}
      \<and> (bcSecretsProvider ?c \<in> {''vault'', ''openbao''} \<longrightarrow> vaAddress (bcVault ?c) \<noteq> [] \<and> vaKVVersion (bcVault ?c) \<in> {1, 2})"
    using sec unfolding secrets_errors_def by (auto split: if_splits)
  ultimately show ?thesis using rest unfolding broker_ready_def by blast
qed

text \<open>
  A broker configuration that loads has every property the broker relies on, whatever the file
  says: in particular no file switches the rate limiter off. Its values are those of the file with
  the defaults filled in, and filling them in again changes nothing.
\<close>

theorem load_broker_ready:
  assumes "LoadBroker uri dec path s = (Inr c, s')"
  shows "broker_ready c \<and> Broker_ApplyDefaults c = c
     \<and> (\<exists>f raw. map_get (files s) path = Some f \<and> dec (content f) = Some raw \<and> c = Broker_ApplyDefaults raw)"
proof -
  obtain raw where raw: "loadYAML dec path s = (Inr raw, s')" "c = Broker_ApplyDefaults raw" "Broker_Validate uri c = None"
    using assms LoadBroker_Inr by blast
  have "broker_ready c" using raw validated_broker_ready by blast
  moreover have "\<exists>f. map_get (files s) path = Some f \<and> dec (content f) = Some raw"
    using raw(1) by (simp add: loadYAML_Inr)
  ultimately show ?thesis using raw(2) Broker_ApplyDefaults_twice by blast
qed

definition example_broker_config :: broker_config where
  "example_broker_config =
     \<lparr>bcServer = \<lparr>srvAddress = [], srvTLS = \<lparr>tlsCert = ''c.pem'', tlsKey = ''k.pem'', tlsMinVersion_cfg = []\<rparr>,
        srvAgentCABundle = ''ca.pem'', srvReadHeaderTimeout = 0, srvReadTimeout = 0, srvWriteTimeout = 0, srvIdleTimeout = 0\<rparr>,
      bcPolicyPath = ''policy.yaml'', bcPolicyWatch = True, bcIssuerProvider = [],
      bcACME = \<lparr>acDirectoryURL = ''https://acme.example.com/dir'', acAccountEmail = ''ops@example.com'',
        acAccountKey = ''account.pem'', acDNSProvider = ''cloudflare'', acPreferredChain = [],
        acHTTPReq = \<lparr>hrEndpoint = [], hrMode = [], hrUsernameSecret = [], hrPasswordSecret = [], hrPropagationTimeout = 0,
          hrPollingInterval = 0, hrHTTPTimeout = 0, hrRecursiveNameservers = []\<rparr>\<rparr>,
      bcSecretsProvider = [], bcVault = \<lparr>vaAddress = [], vaToken = [], vaTokenFile = [], vaMountPath = [],
        vaKVVersion = 0, vaKey = [], vaTimeout = 0, vaNamespace = []\<rparr>,
      bcStoreDriver = [], bcStorePath = [], bcAudit = \<lparr>auEnabled = None, auFailureMode = ''fail_closed'', auMirrorToLog = False\<rparr>,
      bcPerIdentityPerHour = 0, bcPerIdentityProfilePerHour = 3, bcLogging = \<lparr>logLevel = [], logFormat = [], logDestination = []\<rparr>\<rparr>"

definition config_disk :: os where
  "config_disk = \<lparr>files = [(''broker.yaml'', \<lparr>content = ''yaml'', mode = 384\<rparr>)], calls = 0, faults = (\<lambda>_. False),
     short = (\<lambda>_. 0), temp_suffix = (\<lambda>_. ''1''), history = []\<rparr>"

lemma example_broker_validates:
  "Broker_Validate (\<lambda>u. u \<noteq> []) (Broker_ApplyDefaults example_broker_config) = None"
  by (simp add: Broker_Validate_def server_errors_def issuer_errors_def secrets_errors_def logging_errors_def
      Logging_Validate_def Logging_ApplyDefaults_def Broker_ApplyDefaults_def example_broker_config_def
      default_str_def default_int_def join_errors_def)

theorem load_broker_ready_witness:
  "LoadBroker (\<lambda>u. u \<noteq> []) (\<lambda>_. Some example_broker_config) ''broker.yaml'' config_disk
     = (Inr (Broker_ApplyDefaults example_broker_config), tick config_disk)
   \<and> broker_ready (Broker_ApplyDefaults example_broker_config)"
proof -
  have "LoadBroker (\<lambda>u. u \<noteq> []) (\<lambda>_. Some example_broker_config) ''broker.yaml'' config_disk
      = (Inr (Broker_ApplyDefaults example_broker_config), tick config_disk)"
    by (simp add: LoadBroker_def loadYAML_def os_ReadFile_def config_disk_def failing_def example_broker_validates)
  with load_broker_ready [OF this] show ?thesis by blast
qed

text \<open>
  The validation of an agent configuration accepts exactly the configurations that satisfy the
  rules, read without any order: names of certificates are present and distinct, DNS names are
  acceptable, the paths are given and the key is not the certificate file, and so on.
\<close>

theorem agent_validate_decides:
  "Agent_Validate uri c = None \<longleftrightarrow>
     idName (agIdentity c) \<noteq> [] \<and> idCert (agIdentity c) \<noteq> [] \<and> idKey (agIdentity c) \<noteq> []
     \<and> idIssuerCABundle (agIdentity c) \<noteq> [] \<and> 0 < idRenewBefore (agIdentity c) \<and> 0 < idWarnBefore (agIdentity c)
     \<and> idProvider (agIdentity c) = ''step-ca''
     \<and> stURL (idStepCA (agIdentity c)) \<noteq> [] \<and> uri (stURL (idStepCA (agIdentity c)))
     \<and> \<not> (stFingerprint (idStepCA (agIdentity c)) = [] \<and> stRootCABundle (idStepCA (agIdentity c)) = [])
     \<and> abURL (agBroker c) \<noteq> [] \<and> uri (abURL (agBroker c)) \<and> abServerCABundle (agBroker c) \<noteq> []
     \<and> 0 < abTimeout (agBroker c)
     \<and> agCertificates c \<noteq> [] \<and> list_all cert_ok (agCertificates c) \<and> distinct (map ccName (agCertificates c))
     \<and> logging_errors (agLogging c) = []"
proof -
  have certs: "certs_errors [] 0 (agCertificates c) = [] \<longleftrightarrow>
      list_all cert_ok (agCertificates c) \<and> distinct (map ccName (agCertificates c))"
    by (simp add: certs_errors_Nil)
  show ?thesis
    unfolding Agent_Validate_def join_errors_None append_is_Nil_conv identity_errors_Nil certs if_list_Nil err_if_Nil
    by (auto simp: not_le)
qed

end
