(* ===== verification/Stepca.thy ===== *)
theory Stepca
  imports Pki Config
begin

text \<open>
  Packages \<^verbatim>\<open>internal/ca\<close> and \<^verbatim>\<open>internal/ca/providers/stepca\<close>: the certificate authority that gives an
  agent its identity. The client library of step-ca and \<^verbatim>\<open>tls.X509KeyPair\<close> are parameters; their calls
  act on the state of the network.
\<close>

section \<open>The interface\<close>

record enrollment_request =
  erCSRPEM :: string
  erToken :: string

record renewal_request =
  rrCertPEM :: string
  rrKeyPEM :: string
  rrIssuerCAPEM :: string

record identity_certificate =
  icCertificate :: certificate
  icCertPEM :: string
  icChainPEM :: string
  icNotBefore :: instant
  icNotAfter :: instant

datatype ca_error =
    BootstrapTokenEmpty
  | IdentityCSRInvalid pki_error
  | IdentityCSRSignature
  | SignFailed
  | RenewalInputRequired
  | KeyPairInvalid
  | StepClientFailed
  | RenewCallFailed
  | NilSignResponse
  | NoLeafCertificate

record 'n identity_ca =
  caEnroll :: "enrollment_request \<Rightarrow> 'n \<Rightarrow> (ca_error, identity_certificate) result \<times> 'n"
  caRenew :: "renewal_request \<Rightarrow> 'n \<Rightarrow> (ca_error, identity_certificate) result \<times> 'n"

section \<open>The client library\<close>

text \<open>
  The options a client is created with: the timeout, the root (a file or a fingerprint) and, for
  renewals, the key pair.
\<close>

datatype step_root = WithRootFile string | WithRootSHA256 string

record step_options =
  optTimeout :: duration
  optRoot :: step_root
  optCertificate :: "(string \<times> string) option"

text \<open>In a sign response a certificate may be missing everywhere.\<close>

record sign_response =
  srServerPEM :: "certificate option"
  srCaPEM :: "certificate option"
  srCertChainPEM :: "certificate option list"

record ('c, 'n) step_api =
  stepNewClient :: "string \<Rightarrow> step_options \<Rightarrow> 'n \<Rightarrow> 'c option \<times> 'n"
  stepSign :: "'c \<Rightarrow> certificate_request \<Rightarrow> string \<Rightarrow> 'n \<Rightarrow> (unit, sign_response option) result \<times> 'n"
  stepRenew :: "'c \<Rightarrow> 'n \<Rightarrow> (unit, sign_response option) result \<times> 'n"
  x509KeyPair :: "string \<Rightarrow> string \<Rightarrow> bool"

section \<open>The provider\<close>

datatype stepca_error = StepURLRequired | StepRootRequired | StepNewClientFailed

definition step_root_option :: "step_ca_config \<Rightarrow> step_root" where
  "step_root_option cfg =
     (if stRootCABundle cfg \<noteq> [] then WithRootFile (stRootCABundle cfg) else WithRootSHA256 (stFingerprint cfg))"

definition step_newClient :: "('c, 'n) step_api \<Rightarrow> step_ca_config \<Rightarrow> 'n \<Rightarrow> 'c option \<times> 'n" where
  "step_newClient api cfg =
     stepNewClient api (stURL cfg) \<lparr>optTimeout = stTimeout cfg, optRoot = step_root_option cfg, optCertificate = None\<rparr>"

definition newClientWithCertificate ::
  "('c, 'n) step_api \<Rightarrow> step_ca_config \<Rightarrow> string \<times> string \<Rightarrow> 'n \<Rightarrow> 'c option \<times> 'n" where
  "newClientWithCertificate api cfg cert =
     stepNewClient api (stURL cfg) \<lparr>optTimeout = stTimeout cfg, optRoot = step_root_option cfg, optCertificate = Some cert\<rparr>"

type_synonym 'c step_provider = "step_ca_config \<times> 'c"

definition stepca_New ::
  "('c, 'n) step_api \<Rightarrow> step_ca_config \<Rightarrow> 'n \<Rightarrow> (stepca_error, 'c step_provider) result \<times> 'n" where
  "stepca_New api cfg n =
     (if stURL cfg = [] then (Inl StepURLRequired, n)
      else if stFingerprint cfg = [] \<and> stRootCABundle cfg = [] then (Inl StepRootRequired, n)
      else let cfg = cfg\<lparr>stTimeout := default_int (10 * Second) (stTimeout cfg)\<rparr> in
        case step_newClient api cfg n of
          (None, n) \<Rightarrow> (Inl StepNewClientFailed, n)
        | (Some client, n) \<Rightarrow> (Inr (cfg, client), n))"

definition certToPEM :: "crypto \<Rightarrow> certificate \<Rightarrow> string" where
  "certToPEM cr cert = pem_encode cr ''CERTIFICATE'' (certRaw cert)"

text \<open>The loop that appends the certificates of the chain other than the leaf.\<close>

fun chain_loop :: "crypto \<Rightarrow> certificate \<Rightarrow> certificate option list \<Rightarrow> string \<Rightarrow> string" where
  "chain_loop cr cert [] chainPEM = chainPEM"
| "chain_loop cr cert (None # cs) chainPEM = chain_loop cr cert cs chainPEM"
| "chain_loop cr cert (Some c # cs) chainPEM =
     chain_loop cr cert cs (if certRaw c = certRaw cert then chainPEM else chainPEM @ certToPEM cr c)"

definition leaf_certificate :: "sign_response \<Rightarrow> certificate option" where
  "leaf_certificate resp =
     (if srServerPEM resp = None \<and> srCertChainPEM resp \<noteq> [] then hd (srCertChainPEM resp) else srServerPEM resp)"

definition identityFromSignResponse ::
  "crypto \<Rightarrow> sign_response option \<Rightarrow> (ca_error, identity_certificate) result" where
  "identityFromSignResponse cr r =
     (case r of
        None \<Rightarrow> Inl NilSignResponse
      | Some resp \<Rightarrow>
          (case leaf_certificate resp of
             None \<Rightarrow> Inl NoLeafCertificate
           | Some cert \<Rightarrow>
               (let chainPEM = (case srCaPEM resp of None \<Rightarrow> [] | Some c \<Rightarrow> certToPEM cr c) in
                Inr \<lparr>icCertificate = cert, icCertPEM = certToPEM cr cert,
                     icChainPEM = chain_loop cr cert (srCertChainPEM resp) chainPEM,
                     icNotBefore = certNotBefore cert, icNotAfter = certNotAfter cert\<rparr>)))"

definition step_Enroll ::
  "crypto \<Rightarrow> ('c, 'n) step_api \<Rightarrow> 'c step_provider \<Rightarrow> enrollment_request \<Rightarrow> 'n
   \<Rightarrow> (ca_error, identity_certificate) result \<times> 'n" where
  "step_Enroll cr api p req n =
     (let token = TrimSpace (erToken req) in
      if token = [] then (Inl BootstrapTokenEmpty, n)
      else case ParseCSRPEM cr (erCSRPEM req) of
        Inl e \<Rightarrow> (Inl (IdentityCSRInvalid e), n)
      | Inr csr \<Rightarrow>
          if \<not> check_signature cr csr then (Inl IdentityCSRSignature, n)
          else case stepSign api (snd p) csr token n of
            (Inl _, n) \<Rightarrow> (Inl SignFailed, n)
          | (Inr resp, n) \<Rightarrow> (identityFromSignResponse cr resp, n))"

definition step_Renew ::
  "crypto \<Rightarrow> ('c, 'n) step_api \<Rightarrow> 'c step_provider \<Rightarrow> renewal_request \<Rightarrow> 'n
   \<Rightarrow> (ca_error, identity_certificate) result \<times> 'n" where
  "step_Renew cr api p req n =
     (if rrCertPEM req = [] \<or> rrKeyPEM req = [] then (Inl RenewalInputRequired, n)
      else if \<not> x509KeyPair api (rrCertPEM req) (rrKeyPEM req) then (Inl KeyPairInvalid, n)
      else case newClientWithCertificate api (fst p) (rrCertPEM req, rrKeyPEM req) n of
        (None, n) \<Rightarrow> (Inl StepClientFailed, n)
      | (Some client, n) \<Rightarrow>
          (case stepRenew api client n of
             (Inl _, n) \<Rightarrow> (Inl RenewCallFailed, n)
           | (Inr resp, n) \<Rightarrow> (identityFromSignResponse cr resp, n)))"

definition step_ca :: "crypto \<Rightarrow> ('c, 'n) step_api \<Rightarrow> 'c step_provider \<Rightarrow> 'n identity_ca" where
  "step_ca cr api p = \<lparr>caEnroll = step_Enroll cr api p, caRenew = step_Renew cr api p\<rparr>"

section \<open>The contract of an identity authority\<close>

text \<open>
  A certificate that is handed to the agent is well formed: the PEM text is that of the
  certificate, the validity is the one in the certificate. An enrolment without a token never
  succeeds.
\<close>

definition identity_wf :: "crypto \<Rightarrow> identity_certificate \<Rightarrow> bool" where
  "identity_wf cr ic \<longleftrightarrow> icCertPEM ic = EncodeCertPEM cr (icCertificate ic)
     \<and> icNotBefore ic = certNotBefore (icCertificate ic) \<and> icNotAfter ic = certNotAfter (icCertificate ic)"

locale identity_authority =
  fixes cr :: crypto and ca :: "'n identity_ca"
  assumes enrolled_wf: "caEnroll ca req n = (Inr ic, n') \<Longrightarrow> identity_wf cr ic"
    and enrolled_request: "caEnroll ca req n = (Inr ic, n') \<Longrightarrow> is_ok (ParseCSRPEM cr (erCSRPEM req)) \<and> TrimSpace (erToken req) \<noteq> []"
    and renewed_wf: "caRenew ca rreq n = (Inr ic, n') \<Longrightarrow> identity_wf cr ic"

lemma identityFromSignResponse_wf: "identityFromSignResponse cr r = Inr ic \<Longrightarrow> identity_wf cr ic"
  by (auto simp: identityFromSignResponse_def identity_wf_def certToPEM_def EncodeCertPEM_def Let_def split: option.splits)

interpretation step: identity_authority cr "step_ca cr api p" for cr api p
proof
  show "identity_wf cr ic" if "caEnroll (step_ca cr api p) req n = (Inr ic, n')" for req n ic n'
    using that identityFromSignResponse_wf
    by (auto simp: step_ca_def step_Enroll_def Let_def split: if_splits sum.splits prod.splits)
  show "is_ok (ParseCSRPEM cr (erCSRPEM req)) \<and> TrimSpace (erToken req) \<noteq> []"
    if "caEnroll (step_ca cr api p) req n = (Inr ic, n')" for req n ic n'
    using that by (auto simp: step_ca_def step_Enroll_def is_ok_def Let_def split: if_splits sum.splits prod.splits)
  show "identity_wf cr ic" if "caRenew (step_ca cr api p) rreq n = (Inr ic, n')" for rreq n ic n'
    using that identityFromSignResponse_wf
    by (auto simp: step_ca_def step_Renew_def split: if_splits sum.splits prod.splits option.splits)
qed

text \<open>What the chain holds: the CA certificate, and the others that are not the leaf, in order.\<close>

lemma chain_loop_concat:
  "chain_loop cr cert cs chainPEM =
     chainPEM @ concat (map (certToPEM cr) (filter (\<lambda>c. certRaw c \<noteq> certRaw cert) (map the (filter (\<lambda>c. c \<noteq> None) cs))))"
  by (induction cr cert cs chainPEM rule: chain_loop.induct) simp_all

text \<open>
  The identity a step-ca answer gives. The leaf is the server certificate of the answer or else
  the first one of its chain; the PEM text and the validity are those of the leaf; the chain holds the CA
  certificate followed by every certificate of the chain other than the leaf, in order. Without a
  leaf there is an error.
\<close>

theorem step_identity_of_response:
  "identityFromSignResponse cr (Some resp) =
     (case leaf_certificate resp of
        None \<Rightarrow> Inl NoLeafCertificate
      | Some cert \<Rightarrow> Inr \<lparr>icCertificate = cert, icCertPEM = EncodeCertPEM cr cert,
          icChainPEM = concat (map (certToPEM cr) ((case srCaPEM resp of None \<Rightarrow> [] | Some c \<Rightarrow> [c])
            @ filter (\<lambda>c. certRaw c \<noteq> certRaw cert) (map the (filter (\<lambda>c. c \<noteq> None) (srCertChainPEM resp))))),
          icNotBefore = certNotBefore cert, icNotAfter = certNotAfter cert\<rparr>)"
  by (simp add: identityFromSignResponse_def chain_loop_concat certToPEM_def EncodeCertPEM_def Let_def split: option.splits)

end
