(* ===== verification/Authn.thy ===== *)
theory Authn
  imports X509
begin

text \<open>
  Package \<^verbatim>\<open>internal/broker/authn\<close>: the identity of a client is the common name of the certificate
  it presented in the TLS handshake. The request has the parts of \<^verbatim>\<open>http.Request\<close> that the broker
  reads. The body is what can be read of it and whether reading ends with an error; a nil
  pointer to a certificate is \<open>None\<close>. That the chain of the certificate was verified against the
  CA bundle is what \<^verbatim>\<open>tls.RequireAndVerifyClientCert\<close> asks of Go's TLS stack; it is not modelled.
\<close>

record http_request =
  reqTLS :: "certificate option list option"
  reqBody :: string
  reqBodyError :: bool
  reqRemoteAddr :: string
  reqUserAgent :: string

datatype authn_error =
    NoClientCertificate
  | NilClientCertificate
  | ClientCertificateIsCA
  | OutsideValidity
  | NoExtKeyUsage
  | MissingClientAuth
  | EmptyCommonName

fun eku_loop :: "nat list \<Rightarrow> bool" where
  "eku_loop [] = False"
| "eku_loop (eku # ekus) = (if eku = ExtKeyUsageClientAuth then True else eku_loop ekus)"

definition ValidateClientCertificate :: "instant \<Rightarrow> certificate option \<Rightarrow> authn_error option" where
  "ValidateClientCertificate now cert =
     (case cert of
        None \<Rightarrow> Some NilClientCertificate
      | Some c \<Rightarrow>
          if certIsCA c then Some ClientCertificateIsCA
          else if now < certNotBefore c \<or> certNotAfter c < now then Some OutsideValidity
          else if certExtKeyUsage c = [] then Some NoExtKeyUsage
          else if eku_loop (certExtKeyUsage c) then None
          else Some MissingClientAuth)"

definition IdentityFromRequest :: "instant \<Rightarrow> http_request \<Rightarrow> (authn_error, string) result" where
  "IdentityFromRequest now r =
     (case reqTLS r of
        None \<Rightarrow> Inl NoClientCertificate
      | Some [] \<Rightarrow> Inl NoClientCertificate
      | Some (cert # _) \<Rightarrow>
          (case ValidateClientCertificate now cert of
             Some e \<Rightarrow> Inl e
           | None \<Rightarrow>
               (case cert of
                  None \<Rightarrow> Inl NilClientCertificate
                | Some c \<Rightarrow> if certCommonName c = [] then Inl EmptyCommonName else Inr (certCommonName c))))"

lemma eku_loop_iff [simp]: "eku_loop ekus \<longleftrightarrow> ExtKeyUsageClientAuth \<in> set ekus"
  by (induction ekus) auto

text \<open>A client certificate that speaks for an identity at a time.\<close>

definition client_cert :: "instant \<Rightarrow> certificate \<Rightarrow> string \<Rightarrow> bool" where
  "client_cert now c identity \<longleftrightarrow>
     \<not> certIsCA c \<and> certNotBefore c \<le> now \<and> now \<le> certNotAfter c
     \<and> ExtKeyUsageClientAuth \<in> set (certExtKeyUsage c) \<and> certCommonName c = identity \<and> identity \<noteq> []"

lemma IdentityFromRequest_Inr:
  "IdentityFromRequest now r = Inr identity \<longleftrightarrow>
     (\<exists>c rest. reqTLS r = Some (Some c # rest) \<and> client_cert now c identity)"
  by (auto simp: IdentityFromRequest_def ValidateClientCertificate_def client_cert_def not_less
      split: option.splits list.splits if_splits)

end
