(* ===== verification/Secrets.thy ===== *)
theory Secrets
  imports Config
begin

text \<open>
  Package \<^verbatim>\<open>internal/secrets\<close>: the providers that resolve the name of a secret to its value, from
  the environment, from files, and from a Vault server. The client library of Vault is
  third-party code: its calls are the fields of the record \<open>vault_api\<close>.

  A process sees the record \<open>sys\<close>, its disk and its environment; it is extended by the components
  that see more.
\<close>

section \<open>What a process sees\<close>

record sys =
  sysOs :: os
  sysEnv :: "string strmap"

definition on_os :: "(os \<Rightarrow> 'r \<times> os) \<Rightarrow> 'z sys_scheme \<Rightarrow> 'r \<times> 'z sys_scheme" where
  "on_os f w = (case f (sysOs w) of (r, s) \<Rightarrow> (r, w\<lparr>sysOs := s\<rparr>))"

definition LookupEnv :: "string \<Rightarrow> 'z sys_scheme \<Rightarrow> string option" where
  "LookupEnv name w = map_get (sysEnv w) name"

definition Getenv :: "string \<Rightarrow> 'z sys_scheme \<Rightarrow> string" where
  "Getenv name w = (case LookupEnv name w of None \<Rightarrow> [] | Some v \<Rightarrow> v)"

section \<open>Providers\<close>

datatype secret_error =
    ErrSecretNotFound string
  | ErrSecretEmpty string
  | SecretReadFailed string
  | VaultNameEmpty
  | VaultNotAString string string
  | VaultBadVersion int
  | VaultStatus nat
  | VaultFailed

type_synonym 'w secret_provider = "string \<Rightarrow> 'w \<Rightarrow> (secret_error, string) result \<times> 'w"

definition env_Get :: "'z sys_scheme secret_provider" where
  "env_Get name w =
     ((case LookupEnv name w of
         None \<Rightarrow> Inl (ErrSecretNotFound name)
       | Some val \<Rightarrow> if val = [] then Inl (ErrSecretEmpty name) else Inr val), w)"

definition file_Get :: "bool \<Rightarrow> 'z sys_scheme secret_provider" where
  "file_Get trim name w =
     (case on_os (os_ReadFile name) w of
        (Inl ErrNotExist, w) \<Rightarrow> (Inl (ErrSecretNotFound name), w)
      | (Inl _, w) \<Rightarrow> (Inl (SecretReadFailed name), w)
      | (Inr data, w) \<Rightarrow>
          (let val = (if trim then TrimSpace data else data) in
           (if val = [] then Inl (ErrSecretEmpty name) else Inr val, w)))"

section \<open>Vault\<close>

text \<open>
  A value of a Vault secret is a string or of another type. \<^verbatim>\<open>Get\<close> of the client may answer with a
  nil secret or with nil data: both are \<open>None\<close>. An error of the client is \<open>VaultStatus\<close> when the
  server answered with an HTTP status, and \<open>VaultFailed\<close> otherwise.
\<close>

datatype vault_value = VaultString string | VaultOther

record vault_client =
  vcAddress :: string
  vcToken :: string
  vcNamespace :: string
  vcTimeout :: duration

record 'w vault_api =
  apiNewClient :: "vault_client \<Rightarrow> bool"
  apiKVv1 :: "vault_client \<Rightarrow> string \<Rightarrow> string \<Rightarrow> 'w \<Rightarrow> (secret_error, vault_value strmap option) result \<times> 'w"
  apiKVv2 :: "vault_client \<Rightarrow> string \<Rightarrow> string \<Rightarrow> 'w \<Rightarrow> (secret_error, vault_value strmap option) result \<times> 'w"

definition normalizeError :: "secret_error \<Rightarrow> string \<Rightarrow> secret_error" where
  "normalizeError err name = (if err = VaultStatus 404 then ErrSecretNotFound name else err)"

type_synonym vault_provider = "vault_config \<times> vault_client"

definition vault_read ::
  "'w vault_api \<Rightarrow> vault_provider \<Rightarrow> string \<Rightarrow> 'w \<Rightarrow> (secret_error, vault_value strmap) result \<times> 'w" where
  "vault_read api p name w =
     (let (cfg, client) = p in
      if vaKVVersion cfg = 1 then
        (case apiKVv1 api client (vaMountPath cfg) name w of
           (Inl e, w) \<Rightarrow> (Inl (normalizeError e name), w)
         | (Inr None, w) \<Rightarrow> (Inl (ErrSecretNotFound name), w)
         | (Inr (Some data), w) \<Rightarrow> (Inr data, w))
      else if vaKVVersion cfg = 2 then
        (case apiKVv2 api client (vaMountPath cfg) name w of
           (Inl e, w) \<Rightarrow> (Inl (normalizeError e name), w)
         | (Inr None, w) \<Rightarrow> (Inl (ErrSecretNotFound name), w)
         | (Inr (Some data), w) \<Rightarrow> (Inr data, w))
      else (Inl (VaultBadVersion (vaKVVersion cfg)), w))"

definition vault_Get :: "'w vault_api \<Rightarrow> vault_provider \<Rightarrow> 'w secret_provider" where
  "vault_Get api p name w =
     (let name = Trim1 (TrimSpace name) (CHR ''/'') in
      if name = [] then (Inl VaultNameEmpty, w)
      else case vault_read api p name w of
        (Inl e, w) \<Rightarrow> (Inl e, w)
      | (Inr data, w) \<Rightarrow>
          ((case map_get data (vaKey (fst p)) of
              None \<Rightarrow> Inl (ErrSecretNotFound name)
            | Some VaultOther \<Rightarrow> Inl (VaultNotAString name (vaKey (fst p)))
            | Some (VaultString raw) \<Rightarrow>
                (let val = TrimSpace raw in if val = [] then Inl (ErrSecretEmpty name) else Inr val)), w))"

datatype vault_new_error =
    VaultAddressRequired | VaultTokenFileFailed string | VaultTokenEmpty | VaultClientFailed

definition resolveToken :: "vault_config \<Rightarrow> 'z sys_scheme \<Rightarrow> (vault_new_error, string) result \<times> 'z sys_scheme" where
  "resolveToken cfg w =
     (case (if vaToken cfg \<noteq> [] then (Inr (vaToken cfg), w)
            else if vaTokenFile cfg \<noteq> [] then
              (case on_os (os_ReadFile (vaTokenFile cfg)) w of
                 (Inl _, w) \<Rightarrow> (Inl (VaultTokenFileFailed (vaTokenFile cfg)), w)
               | (Inr data, w) \<Rightarrow> (Inr data, w))
            else (Inr (if Getenv ''VAULT_TOKEN'' w = [] then Getenv ''BAO_TOKEN'' w else Getenv ''VAULT_TOKEN'' w), w)) of
        (Inl e, w) \<Rightarrow> (Inl e, w)
      | (Inr token, w) \<Rightarrow>
          (let token = TrimSpace token in (if token = [] then Inl VaultTokenEmpty else Inr token, w)))"

definition vault_defaults :: "vault_config \<Rightarrow> vault_config" where
  "vault_defaults cfg = cfg
     \<lparr>vaMountPath := default_str ''secret'' (vaMountPath cfg), vaKVVersion := default_int 2 (vaKVVersion cfg),
      vaKey := default_str ''value'' (vaKey cfg), vaTimeout := default_int (10 * Second) (vaTimeout cfg)\<rparr>"

definition vault_New ::
  "'z sys_scheme vault_api \<Rightarrow> vault_config \<Rightarrow> 'z sys_scheme \<Rightarrow> (vault_new_error, vault_provider) result \<times> 'z sys_scheme" where
  "vault_New api cfg w =
     (if vaAddress cfg = [] then (Inl VaultAddressRequired, w)
      else let cfg = vault_defaults cfg in
        case resolveToken cfg w of
          (Inl e, w) \<Rightarrow> (Inl e, w)
        | (Inr token, w) \<Rightarrow>
            (let client = \<lparr>vcAddress = TrimRight1 (vaAddress cfg) (CHR ''/''), vcToken = token,
                            vcNamespace = vaNamespace cfg, vcTimeout = vaTimeout cfg\<rparr> in
             (if apiNewClient api client then Inr (cfg, client) else Inl VaultClientFailed, w)))"

section \<open>The contract of a provider\<close>

text \<open>What the clients rely on: a secret that is returned is not empty.\<close>

locale secret_source =
  fixes get :: "'w secret_provider"
  assumes nonempty: "get name w = (Inr val, w') \<Longrightarrow> val \<noteq> []"

interpretation env_source: secret_source env_Get
  by unfold_locales (auto simp: env_Get_def split: option.splits if_splits)

interpretation file_source: secret_source "file_Get trim" for trim
  by unfold_locales (auto simp: file_Get_def Let_def split: prod.splits sum.splits os_error.splits if_splits)

interpretation vault_source: secret_source "vault_Get api p" for api p
  by unfold_locales
    (auto simp: vault_Get_def Let_def split: prod.splits sum.splits option.splits vault_value.splits if_splits)

text \<open>
  The provider that the configuration selects, as \<^verbatim>\<open>buildSecretsProvider\<close> of \<^verbatim>\<open>cmd/broker\<close> does.
\<close>

datatype provider_error = UnknownSecretsProvider string | VaultProviderFailed vault_new_error

definition buildSecretsProvider ::
  "'z sys_scheme vault_api \<Rightarrow> broker_config \<Rightarrow> 'z sys_scheme
   \<Rightarrow> (provider_error, 'z sys_scheme secret_provider) result \<times> 'z sys_scheme" where
  "buildSecretsProvider api cfg w =
     (if bcSecretsProvider cfg = ''env'' then (Inr env_Get, w)
      else if bcSecretsProvider cfg = ''file'' then (Inr (file_Get True), w)
      else if bcSecretsProvider cfg = ''vault'' \<or> bcSecretsProvider cfg = ''openbao'' then
        (case vault_New api (bcVault cfg) w of
           (Inl e, w) \<Rightarrow> (Inl (VaultProviderFailed e), w)
         | (Inr p, w) \<Rightarrow> (Inr (vault_Get api p), w))
      else (Inl (UnknownSecretsProvider (bcSecretsProvider cfg)), w))"

lemma built_provider_nonempty:
  assumes "buildSecretsProvider api cfg w = (Inr get, w1)"
  shows "secret_source get"
  using assms env_source.secret_source_axioms file_source.secret_source_axioms vault_source.secret_source_axioms
  by (auto simp: buildSecretsProvider_def split: prod.splits sum.splits if_splits)

text \<open>
  For every configuration that loads, the provider that the broker builds is one of the three,
  building it fails only because the client of Vault cannot be set up, and it never returns an
  empty secret.
\<close>

theorem secrets_never_empty:
  assumes "broker_ready cfg" and "buildSecretsProvider api cfg w = (r, w1)"
  shows "case r of
      Inl e \<Rightarrow> bcSecretsProvider cfg \<in> {''vault'', ''openbao''} \<and> (\<exists>v. e = VaultProviderFailed v \<and> v \<noteq> VaultAddressRequired)
    | Inr get \<Rightarrow> \<forall>name w val w'. get name w = (Inr val, w') \<longrightarrow> val \<noteq> []"
proof (cases r)
  case (Inl e)
  have "fst (vault_New api (bcVault cfg) w) \<noteq> Inl VaultAddressRequired" if "vaAddress (bcVault cfg) \<noteq> []"
    using that
    by (auto simp: vault_New_def resolveToken_def vault_defaults_def Let_def split: prod.splits sum.splits if_splits)
  then show ?thesis
    using assms Inl
    by (auto simp: buildSecretsProvider_def broker_ready_def split: prod.splits sum.splits if_splits)
next
  case (Inr get)
  then have "secret_source get" using built_provider_nonempty assms(2) by blast
  then show ?thesis using Inr by (auto dest: secret_source.nonempty)
qed

definition secret_sys :: sys where
  "secret_sys = \<lparr>sysOs = config_disk, sysEnv = [(''CF_TOKEN'', ''t0ken'')]\<rparr>"

definition example_vault_api :: "sys vault_api" where
  "example_vault_api = \<lparr>apiNewClient = (\<lambda>_. True), apiKVv1 = (\<lambda>_ _ _ w. (Inr None, w)), apiKVv2 = (\<lambda>_ _ _ w. (Inr None, w))\<rparr>"

theorem secrets_never_empty_witness:
  "fst (buildSecretsProvider example_vault_api (Broker_ApplyDefaults example_broker_config) secret_sys) = Inr env_Get
   \<and> env_Get ''CF_TOKEN'' secret_sys = (Inr ''t0ken'', secret_sys) \<and> ''t0ken'' \<noteq> []"
proof -
  let ?cfg = "Broker_ApplyDefaults example_broker_config"
  have ready: "broker_ready ?cfg"
    by (rule validated_broker_ready [OF example_broker_validates])
  have B: "buildSecretsProvider example_vault_api ?cfg secret_sys = (Inr env_Get, secret_sys)"
    by (simp add: buildSecretsProvider_def Broker_ApplyDefaults_def example_broker_config_def default_str_def)
  from secrets_never_empty [OF ready B] have "\<forall>name (w :: sys) val w'. env_Get name w = (Inr val, w') \<longrightarrow> val \<noteq> []"
    by simp
  moreover have "env_Get ''CF_TOKEN'' secret_sys = (Inr ''t0ken'', secret_sys)"
    by (simp add: env_Get_def LookupEnv_def secret_sys_def)
  ultimately show ?thesis using B by (metis fst_conv)
qed

end
