(* ===== verification/Acme.thy ===== *)
theory Acme
  imports Secrets Pki
begin

text \<open>
  The issuer interface of \<^verbatim>\<open>internal/broker/issuer\<close> and its implementation for ACME. The ACME client
  library (lego) is third-party code: its calls are the fields of the record \<open>lego\<close>, and what
  it knows of the remote server is part of the state \<open>'w\<close> the calls pass on.
\<close>

section \<open>The interface\<close>

record issuer_request =
  irProfileName :: string
  irDNSNames :: "string list"
  irCSRPEM :: string
  irACMEChallenge :: string
  irACMECredentialsName :: string

datatype issuer_error =
    UnsupportedChallenge string
  | LegoClientFailed
  | SecretsRequired string
  | CredentialsNameRequired
  | SecretUnresolved string secret_error
  | DNSProviderFailed
  | SetProviderFailed
  | UnsupportedDNSProvider string
  | EndpointInvalid string
  | IssuerCSRInvalid pki_error
  | ObtainFailed string
  | EmptyResource
  | IssuerCertInvalid pki_error

record 'w issuer_iface =
  issName :: string
  issDirectory :: string
  issAccountKeyID :: string
  issIssue :: "issuer_request \<Rightarrow> 'w \<Rightarrow> (issuer_error, cert_bundle) result \<times> 'w"

section \<open>The ACME client library\<close>

text \<open>
  \<open>hsUsername\<close> and \<open>hsPassword\<close> are \<open>None\<close> where the program leaves the default of the library. A
  registration is the URI of the account, \<open>None\<close> for a nil resource.
\<close>

record httpreq_settings =
  hsEndpoint :: string
  hsMode :: string
  hsPropagationTimeout :: duration
  hsPollingInterval :: duration
  hsHTTPTimeout :: duration
  hsUsername :: "string option"
  hsPassword :: "string option"

datatype dns_settings = Cloudflare string | Httpreq httpreq_settings

record acme_user =
  userEmail :: string
  userRegistration :: "string option"
  userKey :: private_key

record lego_resource =
  resCertificate :: string
  resIssuerCertificate :: string

record ('c, 'w) lego =
  legoNewClient :: "acme_user \<Rightarrow> string \<Rightarrow> 'w \<Rightarrow> 'c option \<times> 'w"
  legoRegister :: "'c \<Rightarrow> 'w \<Rightarrow> (unit, string option) result \<times> 'w"
  legoProvider :: "dns_settings \<Rightarrow> bool"
  legoSetDNS01 :: "'c \<Rightarrow> dns_settings \<Rightarrow> string list \<Rightarrow> 'c option"
  legoObtain :: "'c \<Rightarrow> certificate_request \<Rightarrow> string \<Rightarrow> 'w \<Rightarrow> (unit, lego_resource option) result \<times> 'w"
  urlParse :: "string \<Rightarrow> bool"

section \<open>The issuer\<close>

record 'w acme_issuer =
  aiCfg :: acme_config
  aiSecrets :: "'w secret_provider option"
  aiUser :: acme_user

definition acme_newClient :: "('c, 'w) lego \<Rightarrow> 'w acme_issuer \<Rightarrow> 'w \<Rightarrow> (issuer_error, 'c) result \<times> 'w" where
  "acme_newClient lg i w =
     (case legoNewClient lg (aiUser i) (acDirectoryURL (aiCfg i)) w of
        (None, w) \<Rightarrow> (Inl LegoClientFailed, w)
      | (Some client, w) \<Rightarrow> (Inr client, w))"

text \<open>The two optional secrets of \<^verbatim>\<open>httpreqProvider\<close> are resolved in the same way.\<close>

definition httpreq_secret ::
  "'w secret_provider option \<Rightarrow> string \<Rightarrow> string \<Rightarrow> 'w \<Rightarrow> (issuer_error, string option) result \<times> 'w" where
  "httpreq_secret sec what name w =
     (if name = [] then (Inr None, w)
      else case sec of
        None \<Rightarrow> (Inl (SecretsRequired what), w)
      | Some get \<Rightarrow>
          (case get name w of
             (Inl e, w) \<Rightarrow> (Inl (SecretUnresolved name e), w)
           | (Inr v, w) \<Rightarrow> (Inr (Some v), w)))"

definition httpreqProvider ::
  "('c, 'w) lego \<Rightarrow> 'w acme_issuer \<Rightarrow> 'w \<Rightarrow> (issuer_error, dns_settings) result \<times> 'w" where
  "httpreqProvider lg i w =
     (let h = acHTTPReq (aiCfg i) in
      if \<not> urlParse lg (hrEndpoint h) then (Inl (EndpointInvalid (hrEndpoint h)), w)
      else case httpreq_secret (aiSecrets i) ''username'' (hrUsernameSecret h) w of
        (Inl e, w) \<Rightarrow> (Inl e, w)
      | (Inr username, w) \<Rightarrow>
          (case httpreq_secret (aiSecrets i) ''password'' (hrPasswordSecret h) w of
             (Inl e, w) \<Rightarrow> (Inl e, w)
           | (Inr password, w) \<Rightarrow>
               (let provider = Httpreq \<lparr>hsEndpoint = hrEndpoint h, hsMode = hrMode h,
                      hsPropagationTimeout = hrPropagationTimeout h, hsPollingInterval = hrPollingInterval h,
                      hsHTTPTimeout = hrHTTPTimeout h, hsUsername = username, hsPassword = password\<rparr> in
                (if legoProvider lg provider then Inr provider else Inl DNSProviderFailed, w))))"

definition set_dns01 :: "('c, 'w) lego \<Rightarrow> 'c \<Rightarrow> dns_settings \<Rightarrow> string list \<Rightarrow> (issuer_error, 'c) result" where
  "set_dns01 lg client provider ns =
     (case legoSetDNS01 lg client provider ns of None \<Rightarrow> Inl SetProviderFailed | Some client \<Rightarrow> Inr client)"

definition configureDNSProvider ::
  "('c, 'w) lego \<Rightarrow> 'w acme_issuer \<Rightarrow> 'c \<Rightarrow> issuer_request \<Rightarrow> 'w \<Rightarrow> (issuer_error, 'c) result \<times> 'w" where
  "configureDNSProvider lg i client req w =
     (if ToLower (acDNSProvider (aiCfg i)) = ''cloudflare'' then
        (case aiSecrets i of
           None \<Rightarrow> (Inl (SecretsRequired ''cloudflare dns-01''), w)
         | Some get \<Rightarrow>
             if irACMECredentialsName req = [] then (Inl CredentialsNameRequired, w)
             else case get (irACMECredentialsName req) w of
               (Inl e, w) \<Rightarrow> (Inl (SecretUnresolved (irACMECredentialsName req) e), w)
             | (Inr token, w) \<Rightarrow>
                 ((if legoProvider lg (Cloudflare token) then set_dns01 lg client (Cloudflare token) []
                   else Inl DNSProviderFailed), w))
      else if ToLower (acDNSProvider (aiCfg i)) = ''httpreq'' then
        (case httpreqProvider lg i w of
           (Inl e, w) \<Rightarrow> (Inl e, w)
         | (Inr provider, w) \<Rightarrow> (set_dns01 lg client provider (hrRecursiveNameservers (acHTTPReq (aiCfg i))), w))
      else (Inl (UnsupportedDNSProvider (acDNSProvider (aiCfg i))), w))"

definition acme_bundle :: "lego_resource \<Rightarrow> certificate \<Rightarrow> cert_bundle" where
  "acme_bundle res cert =
     \<lparr>CertPEM = resCertificate res, ChainPEM = resIssuerCertificate res,
      FullChainPEM = resCertificate res @ resIssuerCertificate res,
      LeafSerialNumber = SerialString (certSerialNumber cert),
      bundleNotBefore = certNotBefore cert, bundleNotAfter = certNotAfter cert\<rparr>"

definition acme_Issue ::
  "crypto \<Rightarrow> ('c, 'w) lego \<Rightarrow> 'w acme_issuer \<Rightarrow> issuer_request \<Rightarrow> 'w \<Rightarrow> (issuer_error, cert_bundle) result \<times> 'w" where
  "acme_Issue cr lg i req w =
     (if irACMEChallenge req \<noteq> ''dns-01'' then (Inl (UnsupportedChallenge (irACMEChallenge req)), w)
      else case acme_newClient lg i w of
        (Inl e, w) \<Rightarrow> (Inl e, w)
      | (Inr client, w) \<Rightarrow>
          (case configureDNSProvider lg i client req w of
             (Inl e, w) \<Rightarrow> (Inl e, w)
           | (Inr client, w) \<Rightarrow>
               (case ParseCSRPEM cr (irCSRPEM req) of
                  Inl e \<Rightarrow> (Inl (IssuerCSRInvalid e), w)
                | Inr csr \<Rightarrow>
                    (case legoObtain lg client csr (acPreferredChain (aiCfg i)) w of
                       (Inl _, w) \<Rightarrow> (Inl (ObtainFailed (irProfileName req)), w)
                     | (Inr None, w) \<Rightarrow> (Inl EmptyResource, w)
                     | (Inr (Some res), w) \<Rightarrow>
                         if resCertificate res = [] then (Inl EmptyResource, w)
                         else case ParseCertificatePEM cr (resCertificate res) of
                           Inl e \<Rightarrow> (Inl (IssuerCertInvalid e), w)
                         | Inr cert \<Rightarrow> (Inr (acme_bundle res cert), w)))))"

definition acme_AccountKeyID :: "'w acme_issuer \<Rightarrow> string" where
  "acme_AccountKeyID i =
     (case userRegistration (aiUser i) of
        Some uri \<Rightarrow> if uri \<noteq> [] then uri else acAccountEmail (aiCfg i)
      | None \<Rightarrow> acAccountEmail (aiCfg i))"

text \<open>The issuer as the broker sees it.\<close>

definition acme_iface :: "crypto \<Rightarrow> ('c, 'w) lego \<Rightarrow> 'w acme_issuer \<Rightarrow> 'w issuer_iface" where
  "acme_iface cr lg i =
     \<lparr>issName = ''acme'', issDirectory = acDirectoryURL (aiCfg i), issAccountKeyID = acme_AccountKeyID i,
      issIssue = acme_Issue cr lg i\<rparr>"

section \<open>The account key\<close>

datatype acme_new_error =
    DirectoryRequired | EmailRequired | AccountKeyRequired
  | AccountKeyReadFailed | AccountKeyNotPEM | AccountKeyUnsupported
  | AccountKeyGenerateFailed | AccountKeyMarshalFailed | AccountKeyWriteFailed write_error
  | AcmeClientFailed issuer_error | RegisterFailed

definition parseAccountKey :: "crypto \<Rightarrow> string \<Rightarrow> (acme_new_error, private_key) result" where
  "parseAccountKey cr data =
     (case pem_decode cr data of
        None \<Rightarrow> Inl AccountKeyNotPEM
      | Some (ty, bytes) \<Rightarrow>
          (case parse_pkcs8 cr bytes of
             Some key \<Rightarrow> Inr key
           | None \<Rightarrow> (case parse_ec cr bytes of Some key \<Rightarrow> Inr key | None \<Rightarrow> Inl AccountKeyUnsupported)))"

definition createAccountKey ::
  "crypto \<Rightarrow> private_key option \<Rightarrow> string \<Rightarrow> os \<Rightarrow> (acme_new_error, private_key) result \<times> os" where
  "createAccountKey cr drawn path s =
     (case drawn of
        None \<Rightarrow> (Inl AccountKeyGenerateFailed, s)
      | Some key \<Rightarrow>
          (case marshal_pkcs8 cr key of
             None \<Rightarrow> (Inl AccountKeyMarshalFailed, s)
           | Some der \<Rightarrow>
               (case WriteFileAtomic path (pem_encode cr ''PRIVATE KEY'' der) 384 s of
                  (Some e, s) \<Rightarrow> (Inl (AccountKeyWriteFailed e), s)
                | (None, s) \<Rightarrow> (Inr key, s))))"

definition loadOrCreateAccountKey ::
  "crypto \<Rightarrow> private_key option \<Rightarrow> string \<Rightarrow> os \<Rightarrow> (acme_new_error, private_key) result \<times> os" where
  "loadOrCreateAccountKey cr drawn path s =
     (case os_ReadFile path s of
        (Inr data, s) \<Rightarrow> (parseAccountKey cr data, s)
      | (Inl ErrNotExist, s) \<Rightarrow> createAccountKey cr drawn path s
      | (Inl _, s) \<Rightarrow> (Inl AccountKeyReadFailed, s))"

definition acme_New ::
  "crypto \<Rightarrow> ('c, 'z sys_scheme) lego \<Rightarrow> private_key option \<Rightarrow> acme_config \<Rightarrow> 'z sys_scheme secret_provider option
   \<Rightarrow> 'z sys_scheme \<Rightarrow> (acme_new_error, 'z sys_scheme acme_issuer) result \<times> 'z sys_scheme" where
  "acme_New cr lg drawn cfg sec w =
     (if acDirectoryURL cfg = [] then (Inl DirectoryRequired, w)
      else if acAccountEmail cfg = [] then (Inl EmailRequired, w)
      else if acAccountKey cfg = [] then (Inl AccountKeyRequired, w)
      else let cfg = cfg\<lparr>acDNSProvider := default_str ''cloudflare'' (acDNSProvider cfg)\<rparr> in
        case on_os (loadOrCreateAccountKey cr drawn (acAccountKey cfg)) w of
          (Inl e, w) \<Rightarrow> (Inl e, w)
        | (Inr key, w) \<Rightarrow>
            (let i = \<lparr>aiCfg = cfg, aiSecrets = sec,
                      aiUser = \<lparr>userEmail = acAccountEmail cfg, userRegistration = None, userKey = key\<rparr>\<rparr> in
             case acme_newClient lg i w of
               (Inl e, w) \<Rightarrow> (Inl (AcmeClientFailed e), w)
             | (Inr client, w) \<Rightarrow>
                 (case legoRegister lg client w of
                    (Inl _, w) \<Rightarrow> (Inl RegisterFailed, w)
                  | (Inr reg, w) \<Rightarrow> (Inr (i\<lparr>aiUser := (aiUser i)\<lparr>userRegistration := reg\<rparr>\<rparr>), w))))"

section \<open>The contract of an issuer\<close>

text \<open>
  A bundle is consistent when its full chain is the certificate followed by the chain and its
  serial number and validity are those of the certificate.
\<close>

definition consistent_bundle :: "crypto \<Rightarrow> cert_bundle \<Rightarrow> bool" where
  "consistent_bundle cr b \<longleftrightarrow>
     FullChainPEM b = CertPEM b @ ChainPEM b
     \<and> (case ParseCertificatePEM cr (CertPEM b) of
          Inl _ \<Rightarrow> False
        | Inr cert \<Rightarrow> LeafSerialNumber b = SerialString (certSerialNumber cert)
            \<and> bundleNotBefore b = certNotBefore cert \<and> bundleNotAfter b = certNotAfter cert)"

locale bundle_issuer =
  fixes cr :: crypto and issue :: "issuer_request \<Rightarrow> 'w \<Rightarrow> (issuer_error, cert_bundle) result \<times> 'w"
  assumes issued_consistent: "issue req w = (Inr b, w') \<Longrightarrow> consistent_bundle cr b"
    and issued_request: "issue req w = (Inr b, w') \<Longrightarrow> is_ok (ParseCSRPEM cr (irCSRPEM req))"

lemma acme_Issue_Inr:
  assumes "acme_Issue cr lg i req w = (Inr b, w')"
  obtains client w1 client' w2 csr res cert where "irACMEChallenge req = ''dns-01''"
    and "acme_newClient lg i w = (Inr client, w1)" and "configureDNSProvider lg i client req w1 = (Inr client', w2)"
    and "ParseCSRPEM cr (irCSRPEM req) = Inr csr"
    and "legoObtain lg client' csr (acPreferredChain (aiCfg i)) w2 = (Inr (Some res), w')"
    and "resCertificate res \<noteq> []" and "ParseCertificatePEM cr (resCertificate res) = Inr cert" and "b = acme_bundle res cert"
  using assms
  by (auto simp: acme_Issue_def split: if_splits sum.splits prod.splits option.splits)

interpretation acme: bundle_issuer cr "acme_Issue cr lg i" for cr lg i
proof
  show "consistent_bundle cr b" if "acme_Issue cr lg i req w = (Inr b, w')" for req w b w'
    using that by (rule acme_Issue_Inr) (simp add: consistent_bundle_def acme_bundle_def)
  show "is_ok (ParseCSRPEM cr (irCSRPEM req))" if "acme_Issue cr lg i req w = (Inr b, w')" for req w b w'
    using that by (rule acme_Issue_Inr) (simp add: is_ok_def)
qed

section \<open>Properties\<close>

text \<open>
  C24: a bundle that the ACME issuer returns comes from an order for exactly the request of the
  client, made after the DNS-01 provider was configured; the certificate parses, the full chain is
  the certificate followed by its chain, and serial number and validity are those of the
  certificate.
\<close>

theorem acme_issue_consistent:
  assumes "acme_Issue cr lg i req w = (Inr b, w')"
  shows "consistent_bundle cr b \<and> irACMEChallenge req = ''dns-01''
     \<and> (\<exists>csr client w1 client' w2 res. ParseCSRPEM cr (irCSRPEM req) = Inr csr
          \<and> configureDNSProvider lg i client req w1 = (Inr client', w2)
          \<and> legoObtain lg client' csr (acPreferredChain (aiCfg i)) w2 = (Inr (Some res), w')
          \<and> CertPEM b = resCertificate res \<and> ChainPEM b = resIssuerCertificate res)"
proof -
  have "CertPEM (acme_bundle res cert) = resCertificate res \<and> ChainPEM (acme_bundle res cert) = resIssuerCertificate res"
    for res cert by (simp add: acme_bundle_def)
  then show ?thesis using acme.issued_consistent [OF assms] acme_Issue_Inr [OF assms] by metis
qed

text \<open>A client library that answers every order with one certificate, counting the orders.\<close>

definition example_lego :: "(nat, sys) lego" where
  "example_lego = \<lparr>legoNewClient = (\<lambda>_ _ w. (Some 0, w)), legoRegister = (\<lambda>_ w. (Inr (Some ''acct/1''), w)),
     legoProvider = (\<lambda>_. True), legoSetDNS01 = (\<lambda>c _ _. Some (Suc c)),
     legoObtain = (\<lambda>_ _ _ w. (Inr (Some \<lparr>resCertificate = ''CERTIFICATE:der'', resIssuerCertificate = ''CERTIFICATE:ca''\<rparr>), w)),
     urlParse = (\<lambda>_. True)\<rparr>"

definition example_acme :: "sys acme_issuer" where
  "example_acme = \<lparr>aiCfg = bcACME (Broker_ApplyDefaults example_broker_config), aiSecrets = Some env_Get,
     aiUser = \<lparr>userEmail = ''ops@example.com'', userRegistration = Some ''acct/1'', userKey = ''key''\<rparr>\<rparr>"

definition example_issuer_request :: issuer_request where
  "example_issuer_request = \<lparr>irProfileName = ''web'', irDNSNames = [''a.example.com''],
     irCSRPEM = ''CERTIFICATE REQUEST:req'', irACMEChallenge = ''dns-01'', irACMECredentialsName = ''CF_TOKEN''\<rparr>"

theorem acme_issue_consistent_witness:
  "\<exists>b. fst (acme_Issue example_crypto example_lego example_acme example_issuer_request secret_sys) = Inr b
     \<and> consistent_bundle example_crypto b \<and> FullChainPEM b = ''CERTIFICATE:derCERTIFICATE:ca''"
proof -
  let ?b = "acme_bundle \<lparr>resCertificate = ''CERTIFICATE:der'', resIssuerCertificate = ''CERTIFICATE:ca''\<rparr> example_certificate"
  have fst: "fst (acme_Issue example_crypto example_lego example_acme example_issuer_request secret_sys) = Inr ?b"
    by code_simp
  then obtain w' where "acme_Issue example_crypto example_lego example_acme example_issuer_request secret_sys = (Inr ?b, w')"
    by (metis prod.collapse)
  from acme_issue_consistent [OF this] fst show ?thesis by (auto simp: acme_bundle_def)
qed

end
