(* ===== verification/Audit_Log.thy ===== *)
theory Audit_Log
  imports Go_Json Fileutil
begin

text \<open>
  Package \<^verbatim>\<open>internal/broker/audit\<close>: events, their JSON text, and the recorders. A recorder is a
  function of the event and of the world it writes to; the file recorder works on the disk of
  theory \<open>Os\<close>, with faults at every call.
\<close>

section \<open>Events\<close>

text \<open>\<^verbatim>\<open>EventType\<close>, \<^verbatim>\<open>Severity\<close> and \<^verbatim>\<open>Decision\<close> are strings, with these constants.\<close>

type_synonym event_type = string
type_synonym severity = string
type_synonym decision = string

abbreviation EventBrokerStarted :: event_type where
  "EventBrokerStarted \<equiv> ''broker_started''"

abbreviation EventPolicyLoaded :: event_type where
  "EventPolicyLoaded \<equiv> ''policy_loaded''"

abbreviation EventPolicyReloadFailed :: event_type where
  "EventPolicyReloadFailed \<equiv> ''policy_reload_failed''"

abbreviation EventCertificateRequestReceived :: event_type where
  "EventCertificateRequestReceived \<equiv> ''certificate_request_received''"

abbreviation EventCertificateAuthorized :: event_type where
  "EventCertificateAuthorized \<equiv> ''certificate_authorized''"

abbreviation EventCertificateDenied :: event_type where
  "EventCertificateDenied \<equiv> ''certificate_denied''"

abbreviation EventCertificateCacheHit :: event_type where
  "EventCertificateCacheHit \<equiv> ''certificate_cache_hit''"

abbreviation EventCertificateCacheMiss :: event_type where
  "EventCertificateCacheMiss \<equiv> ''certificate_cache_miss''"

abbreviation EventCertificateIssued :: event_type where
  "EventCertificateIssued \<equiv> ''certificate_issued''"

abbreviation EventCertificateIssueFailed :: event_type where
  "EventCertificateIssueFailed \<equiv> ''certificate_issue_failed''"

abbreviation SeverityInfo :: severity where
  "SeverityInfo \<equiv> ''info''"

abbreviation SeverityWarn :: severity where
  "SeverityWarn \<equiv> ''warn''"

abbreviation SeverityError :: severity where
  "SeverityError \<equiv> ''error''"

abbreviation DecisionAllow :: decision where
  "DecisionAllow \<equiv> ''allow''"

abbreviation DecisionDeny :: decision where
  "DecisionDeny \<equiv> ''deny''"

abbreviation DecisionIssue :: decision where
  "DecisionIssue \<equiv> ''issue''"

abbreviation DecisionCacheHit :: decision where
  "DecisionCacheHit \<equiv> ''cache_hit''"

abbreviation DecisionCacheMiss :: decision where
  "DecisionCacheMiss \<equiv> ''cache_miss''"

abbreviation DecisionError :: decision where
  "DecisionError \<equiv> ''error''"

abbreviation ReasonOK :: string where
  "ReasonOK \<equiv> ''ok''"

abbreviation ReasonNoClientCertificate :: string where
  "ReasonNoClientCertificate \<equiv> ''no_client_certificate''"

abbreviation ReasonInvalidClientCertificate :: string where
  "ReasonInvalidClientCertificate \<equiv> ''invalid_client_certificate''"

abbreviation ReasonUnknownIdentity :: string where
  "ReasonUnknownIdentity \<equiv> ''unknown_identity''"

abbreviation ReasonProfileNotAllowed :: string where
  "ReasonProfileNotAllowed \<equiv> ''profile_not_allowed''"

abbreviation ReasonUnknownProfile :: string where
  "ReasonUnknownProfile \<equiv> ''unknown_profile''"

abbreviation ReasonInvalidRequest :: string where
  "ReasonInvalidRequest \<equiv> ''invalid_request''"

abbreviation ReasonInvalidCSR :: string where
  "ReasonInvalidCSR \<equiv> ''invalid_csr''"

abbreviation ReasonCSRNamesMismatch :: string where
  "ReasonCSRNamesMismatch \<equiv> ''csr_names_mismatch''"

abbreviation ReasonRateLimited :: string where
  "ReasonRateLimited \<equiv> ''rate_limited''"

abbreviation ReasonCacheHit :: string where
  "ReasonCacheHit \<equiv> ''cache_hit''"

abbreviation ReasonCacheMiss :: string where
  "ReasonCacheMiss \<equiv> ''cache_miss''"

abbreviation ReasonIssuerFailed :: string where
  "ReasonIssuerFailed \<equiv> ''issuer_failed''"

text \<open>
  A nil slice is \<open>None\<close>, which the database keeps apart from an empty one. \<^verbatim>\<open>Metadata\<close> is a map to
  any value; the program only ever stores strings in it.
\<close>

record event =
  EventID :: string
  RequestID :: string
  Timestamp :: instant
  evType :: event_type
  evSeverity :: severity
  evDecision :: decision
  evIdentity :: string
  evProfileName :: string
  evProfileHash :: string
  evPolicyHash :: string
  ReasonCode :: string
  evReason :: string
  evError :: string
  SourceIP :: string
  UserAgent :: string
  CSRSHA256 :: string
  CSRPublicKeySHA256 :: string
  evCSRDNSNames :: "string list option"
  ExpectedDNSNames :: "string list option"
  evIssuerName :: string
  evIssuerDirectory :: string
  ACMEOrderURL :: string
  CertSerialNumber :: string
  evCertNotBefore :: "instant option"
  evCertNotAfter :: "instant option"
  CacheResult :: string
  Metadata :: "string strmap"

section \<open>The JSON text of an event\<close>

text \<open>
  \<^verbatim>\<open>time.Time\<close> is written with its fraction of a second, trailing zeros dropped; marshalling a
  year outside 0 to 9999 fails.
\<close>

definition format_rfc3339_nano :: "instant \<Rightarrow> string" where
  "format_rfc3339_nano t =
     butlast (format_rfc3339 t)
     @ (case strip_zeros 9 (nat (t mod Second)) of (0, _) \<Rightarrow> [] | (w, n) \<Rightarrow> CHR ''.'' # pad w n)
     @ ''Z''"

definition json_time :: "instant \<Rightarrow> string option" where
  "json_time t = (if rfc3339_range t then Some ([CHR 0x22] @ format_rfc3339_nano t @ [CHR 0x22]) else None)"

text \<open>A string member, and the members that \<^verbatim>\<open>omitempty\<close> leaves out.\<close>

definition str_member :: "string \<Rightarrow> string \<Rightarrow> string list" where
  "str_member name s = [member_text name (json_string s)]"

definition opt_member :: "string \<Rightarrow> string \<Rightarrow> string list" where
  "opt_member name s = (if s = [] then [] else [member_text name (json_string s)])"

definition names_member :: "string \<Rightarrow> string list option \<Rightarrow> string list" where
  "names_member name ns =
     (case ns of
        None \<Rightarrow> []
      | Some l \<Rightarrow> if l = [] then [] else [member_text name (json_array json_string l)])"

definition time_member :: "string \<Rightarrow> instant option \<Rightarrow> string list option" where
  "time_member name t =
     (case t of None \<Rightarrow> Some []
      | Some t \<Rightarrow> map_option (\<lambda>j. [member_text name j]) (json_time t))"

definition metadata_member :: "string strmap \<Rightarrow> string list" where
  "metadata_member m =
     (if m = [] then [] else [member_text ''metadata'' (json_string_map m)])"

definition event_json :: "event \<Rightarrow> string option" where
  "event_json e =
     (case (json_time (Timestamp e), time_member ''cert_not_before'' (evCertNotBefore e),
            time_member ''cert_not_after'' (evCertNotAfter e)) of
        (Some ts, Some nb, Some na) \<Rightarrow>
          Some (''{'' @ Join
            (str_member ''event_id'' (EventID e) @ str_member ''request_id'' (RequestID e)
             @ [member_text ''timestamp'' ts]
             @ str_member ''event_type'' (evType e)
             @ str_member ''severity'' (evSeverity e)
             @ str_member ''decision'' (evDecision e)
             @ opt_member ''identity'' (evIdentity e) @ opt_member ''profile_name'' (evProfileName e)
             @ opt_member ''profile_hash'' (evProfileHash e) @ opt_member ''policy_hash'' (evPolicyHash e)
             @ opt_member ''reason_code'' (ReasonCode e)
             @ opt_member ''reason'' (evReason e) @ opt_member ''error'' (evError e)
             @ opt_member ''source_ip'' (SourceIP e) @ opt_member ''user_agent'' (UserAgent e)
             @ opt_member ''csr_sha256'' (CSRSHA256 e)
             @ opt_member ''csr_public_key_sha256'' (CSRPublicKeySHA256 e)
             @ names_member ''csr_dns_names'' (evCSRDNSNames e)
             @ names_member ''expected_dns_names'' (ExpectedDNSNames e)
             @ opt_member ''issuer_name'' (evIssuerName e)
             @ opt_member ''issuer_directory'' (evIssuerDirectory e)
             @ opt_member ''acme_order_url'' (ACMEOrderURL e)
             @ opt_member ''cert_serial_number'' (CertSerialNumber e)
             @ nb @ na
             @ opt_member ''cache_result'' (CacheResult e)
             @ metadata_member (Metadata e)) '','' @ ''}'')
      | _ \<Rightarrow> None)"

text \<open>\<^verbatim>\<open>json.Encoder.Encode\<close> writes the text and a newline in one call.\<close>

definition event_line :: "event \<Rightarrow> string option" where
  "event_line e = map_option (\<lambda>j. j @ [CHR 0x0A]) (event_json e)"

section \<open>Recorders\<close>

datatype audit_error =
    AuditDirFailed | AuditOpenFailed | AuditEncodeFailed | AuditSyncFailed | AuditCloseFailed
  | AuditInsertFailed
  | AuditJoined "audit_error list"

type_synonym 'w recorder = "event \<Rightarrow> 'w \<Rightarrow> audit_error option \<times> 'w"

text \<open>
  \<^verbatim>\<open>JSONLRecorder\<close> writes to any \<^verbatim>\<open>io.Writer\<close>: its \<^verbatim>\<open>Write\<close> is the first argument.
\<close>

definition JSONLRecorder_Record :: "(string \<Rightarrow> 'w \<Rightarrow> bool \<times> 'w) \<Rightarrow> 'w recorder" where
  "JSONLRecorder_Record write e w =
     (case event_line e of
        None \<Rightarrow> (Some AuditEncodeFailed, w)
      | Some line \<Rightarrow>
          (case write line w of
             (True, w) \<Rightarrow> (None, w)
           | (False, w) \<Rightarrow> (Some AuditEncodeFailed, w)))"

definition encode_to :: "string \<Rightarrow> event \<Rightarrow> os \<Rightarrow> bool \<times> os" where
  "encode_to path e s =
     (case event_line e of None \<Rightarrow> (False, s) | Some line \<Rightarrow> os_Write path line s)"

definition FileJSONLRecorder_Record :: "string \<Rightarrow> os recorder" where
  "FileJSONLRecorder_Record path e s =
     (case os_call s of
        (False, s) \<Rightarrow> (Some AuditDirFailed, s)
      | (True, s) \<Rightarrow>
     (case os_OpenAppend path 384 s of
        (False, s) \<Rightarrow> (Some AuditOpenFailed, s)
      | (True, s) \<Rightarrow>
     (case encode_to path e s of
        (encoded, s) \<Rightarrow>
     (case os_call s of
        (synced, s) \<Rightarrow>
     (case os_call s of
        (closed, s) \<Rightarrow>
          ((if \<not> encoded then Some AuditEncodeFailed
            else if \<not> synced then Some AuditSyncFailed
            else if \<not> closed then Some AuditCloseFailed else None), s))))))"

definition NewMultiRecorder :: "'w recorder option list \<Rightarrow> 'w recorder list" where
  "NewMultiRecorder recorders = map the (filter (\<lambda>r. \<not> Option.is_none r) recorders)"

fun multi_loop :: "'w recorder list \<Rightarrow> audit_error list \<Rightarrow> event \<Rightarrow> 'w \<Rightarrow> audit_error list \<times> 'w" where
  "multi_loop [] errs e w = (errs, w)"
| "multi_loop (r # rs) errs e w =
     (case r e w of
        (None, w) \<Rightarrow> multi_loop rs errs e w
      | (Some err, w) \<Rightarrow> multi_loop rs (errs @ [err]) e w)"

definition MultiRecorder_Record :: "'w recorder list \<Rightarrow> 'w recorder" where
  "MultiRecorder_Record rs e w =
     (case multi_loop rs [] e w of
        ([], w) \<Rightarrow> (None, w)
      | (errs, w) \<Rightarrow> (Some (AuditJoined errs), w))"

definition DiscardRecorder_Record :: "'w recorder" where
  "DiscardRecorder_Record e w = (None, w)"

section \<open>One line per event\<close>

text \<open>The text of an event has no control characters, so a line of the log is one event.\<close>

definition printable :: "string \<Rightarrow> bool" where
  "printable s \<longleftrightarrow> list_all (\<lambda>c. 32 \<le> byte_code c) s"

lemma printable_simps [simp]:
  "printable []" "printable (c # s) \<longleftrightarrow> 32 \<le> byte_code c \<and> printable s"
  "printable (s @ t) \<longleftrightarrow> printable s \<and> printable t"
  by (simp_all add: printable_def)

lemma printable_Join: "printable sep \<Longrightarrow> list_all printable ws \<Longrightarrow> printable (Join ws sep)"
  by (induction ws sep rule: Join.induct) auto

lemma printable_hex_digit: "n < 16 \<Longrightarrow> 32 \<le> byte_code (hex_digit n)"
  by (simp add: hex_digit_def)

lemma printable_escape: "printable (escape_byte c)"
proof (cases "c \<in> set [CHR 0x22, CHR 0x5C, CHR 0x08, CHR 0x0C, CHR 0x0A, CHR 0x0D, CHR 0x09]")
  case True
  then show ?thesis by (auto simp: escape_byte_def)
next
  case False
  have "byte_code c div 16 < 16" using byte_code_less [of c] by (simp add: div_less_iff_less_mult)
  then show ?thesis by (simp add: escape_byte_other [OF False] printable_hex_digit)
qed

lemma printable_rune: "rune r \<Longrightarrow> printable (rune_text r)"
proof (cases "length r = 1")
  case True
  then show ?thesis by (simp add: rune_text_def printable_escape)
next
  case False
  moreover assume "rune r"
  ultimately have "\<forall>c \<in> set r. 128 \<le> byte_code c"
    by (cases "map of_char r :: nat list" rule: is_rune.cases) (auto simp: map_eq_Cons_conv is_cont_def)
  then have "printable r" by (auto simp: printable_def list_all_iff)
  then show ?thesis using False by (simp add: rune_text_def)
qed

lemma printable_json_chars: "printable (json_chars s)"
proof (induction s rule: json_chars.induct)
  case (1 s)
  then show ?case
    using printable_rune [OF rune_size_rune [of s]]
    by (simp add: json_chars.simps [of s])
qed

lemma printable_json_string [simp]: "printable (json_string s)"
  by (simp add: json_string_def printable_json_chars)

lemma printable_json_array [simp]: "printable (json_array json_string ss)"
  by (simp add: json_array_def list_all_iff printable_Join)

lemma printable_pad [simp]: "printable (pad w n)"
  by (induction w arbitrary: n) (auto simp: digit_def)

lemma printable_decimal [simp]: "printable (decimal n)"
  by (induction n rule: decimal.induct) (simp add: decimal.simps digit_def)

lemma printable_butlast: "printable s \<Longrightarrow> printable (butlast s)"
  by (auto simp: printable_def list_all_iff dest: in_set_butlastD)

lemma printable_time: "json_time t = Some j \<Longrightarrow> printable j"
proof -
  have "printable (format_rfc3339 t)"
    by (auto simp: format_rfc3339_def Let_def fmt_year_def split: prod.splits)
  then have "printable (format_rfc3339_nano t)"
    by (auto simp: format_rfc3339_nano_def printable_butlast digit_def split: prod.splits nat.splits)
  then show "json_time t = Some j \<Longrightarrow> printable j"
    by (auto simp: json_time_def split: if_splits)
qed

lemma printable_members:
  "list_all printable (str_member n s)" "list_all printable (opt_member n s)"
  "list_all printable (names_member n ss)" "list_all printable (metadata_member m)"
  "time_member n t = Some ts \<Longrightarrow> list_all printable ts"
  "json_time u = Some j \<Longrightarrow> printable (member_text n j)"
  by (auto simp: str_member_def opt_member_def names_member_def metadata_member_def time_member_def
      member_text_def json_string_map_def list_all_iff intro!: printable_Join dest: printable_time split: option.splits if_splits)

lemma printable_event: "event_json e = Some j \<Longrightarrow> printable j"
  by (auto simp: event_json_def printable_members intro!: printable_Join split: option.splits)

lemma event_line_newline:
  "event_line e = Some line \<Longrightarrow> \<exists>j. line = j @ [CHR 0x0A] \<and> CHR 0x0A \<notin> set j"
  using printable_event [of e] by (fastforce simp: event_line_def printable_def list_all_iff)

section \<open>Sinks\<close>

text \<open>
  The contract of an audit sink with an append-only text log. A call adds at most the line of
  its event, and all of it when it reports no error.
\<close>

definition file_text :: "string \<Rightarrow> os \<Rightarrow> string" where
  "file_text path s = (case map_get (files s) path of None \<Rightarrow> [] | Some f \<Rightarrow> content f)"

definition line_or_empty :: "event \<Rightarrow> string" where
  "line_or_empty e = (case event_line e of None \<Rightarrow> [] | Some line \<Rightarrow> line)"

text \<open>Recording a list of events, with the results.\<close>

fun record_events :: "'w recorder \<Rightarrow> event list \<Rightarrow> 'w \<Rightarrow> audit_error option list \<times> 'w" where
  "record_events sink [] w = ([], w)"
| "record_events sink (e # es) w =
     (case sink e w of (r, w') \<Rightarrow> case record_events sink es w' of (rs, w'') \<Rightarrow> (r # rs, w''))"

locale audit_sink =
  fixes sink :: "'w recorder" and log :: "'w \<Rightarrow> string"
  assumes appends: "sink e w = (r, w') \<Longrightarrow> \<exists>t u. log w' = log w @ t \<and> t @ u = line_or_empty e"
    and recorded: "sink e w = (None, w') \<Longrightarrow> event_line e \<noteq> None \<and> log w' = log w @ line_or_empty e"
begin

lemma record_events_append_only: "\<exists>t. log (snd (record_events sink es w)) = log w @ t"
proof (induction es arbitrary: w)
  case (Cons e es)
  obtain r w' where 1: "sink e w = (r, w')" by (cases "sink e w")
  obtain rs w'' where 2: "record_events sink es w' = (rs, w'')" by (cases "record_events sink es w'")
  from appends [OF 1] Cons [of w'] 2 show ?case by (auto simp: 1 2)
qed simp

lemma record_events_ok:
  assumes "record_events sink es w = (rs, w')" and "list_all (\<lambda>r. r = None) rs"
  shows "log w' = log w @ concat (map line_or_empty es)"
  using assms
  by (induction es arbitrary: w rs) (auto split: prod.splits dest!: recorded)

end

lemma encode_to_outcome:
  assumes "encode_to path e s = (ok, s')" and "map_get (files s) path = Some f"
  shows "\<exists>t u. map_get (files s') path = Some (f\<lparr>content := content f @ t\<rparr>) \<and> t @ u = line_or_empty e
     \<and> (ok \<longrightarrow> event_line e \<noteq> None \<and> u = [])
     \<and> touches {path} s s'
     \<and> (\<exists>h. history s' = history s @ h
          \<and> (\<forall>m \<in> set h. map_get m path = Some (f\<lparr>content := content f @ t\<rparr>)))"
proof (cases "event_line e")
  case None
  with assms show ?thesis
    by (intro exI [of _ "[]"]) (simp add: encode_to_def line_or_empty_def)
next
  case (Some line)
  let ?t = "if failing s then take (short s (calls s)) line else line"
  let ?u = "if failing s then drop (short s (calls s)) line else []"
  have "touches {path} s s'" using touches_calls(2) [of path "{path}" s line] assms Some
    by (auto simp: encode_to_def)
  with assms Some show ?thesis
    by (intro exI [of _ ?t] exI [of _ ?u])
      (auto simp: encode_to_def line_or_empty_def os_Write_def Let_def sd.get_put)
qed

lemma FileJSONLRecorder_outcome:
  assumes "FileJSONLRecorder_Record path e s = (r, s')"
  shows "touches {path} s s'
     \<and> (\<exists>t u. file_text path s' = file_text path s @ t \<and> t @ u = line_or_empty e
          \<and> (r = None \<longrightarrow> event_line e \<noteq> None \<and> u = [])
          \<and> (\<exists>h. history s' = history s @ h
               \<and> (\<forall>m \<in> set h. \<exists>f. map_get m path = Some f
                    \<and> (content f = file_text path s \<or> content f = file_text path s @ t))))"
proof -
  obtain a s1 where 1: "os_call s = (a, s1)" "s1 = tick s" by (simp add: os_call_def)
  obtain b s2 where 2: "os_OpenAppend path 384 s1 = (b, s2)" by (cases "os_OpenAppend path 384 s1")
  have t2: "touches {path} s s2"
    using touches_calls(5) [of path "{path}" s1 384] 1 2 touches_trans [OF touches_tick] by auto
  have f2: "file_text path s2 = file_text path s" "b \<longrightarrow> map_get (files s2) path \<noteq> None"
    "\<exists>h. history s2 = history s @ h \<and> (\<forall>m \<in> set h. \<exists>f. map_get m path = Some f \<and> content f = file_text path s)"
    using 1 2 by (auto simp: os_OpenAppend_def file_text_def sd.get_put split: if_splits option.splits)
  show ?thesis
  proof (cases "a \<and> b")
    case False
    then have "r \<noteq> None \<and> (s' = s1 \<or> s' = s2)"
      using assms 1 2 by (cases a; cases b) (auto simp: FileJSONLRecorder_Record_def)
    moreover have "line_or_empty e = [] @ line_or_empty e" by simp
    ultimately show ?thesis using t2 f2 1(2) by (auto simp: file_text_def)
  next
    case True
    then obtain f where f: "map_get (files s2) path = Some f" using f2(2) by auto
    obtain ok s3 where 3: "encode_to path e s2 = (ok, s3)" by (cases "encode_to path e s2")
    have s': "s' = tick (tick s3)" "r = None \<longrightarrow> ok"
      using assms 1 2 3 True by (auto simp: FileJSONLRecorder_Record_def os_call_def split: if_splits)
    have "touches {path} s s3" using encode_to_outcome [OF 3 f] t2 touches_trans by blast
    then have "touches {path} s s'" using touches_trans touches_tick s'(1) by metis
    then show ?thesis
      using encode_to_outcome [OF 3 f] f2 f s' by (fastforce simp: file_text_def)
  qed
qed

interpretation fl: audit_sink "FileJSONLRecorder_Record path" "file_text path" for path
proof
  show "\<exists>t u. file_text path w' = file_text path w @ t \<and> t @ u = line_or_empty e"
    if "FileJSONLRecorder_Record path e w = (r, w')" for e w r w'
    using FileJSONLRecorder_outcome [OF that] by blast
  show "event_line e \<noteq> None \<and> file_text path w' = file_text path w @ line_or_empty e"
    if "FileJSONLRecorder_Record path e w = (None, w')" for e w w'
    using FileJSONLRecorder_outcome [OF that] by fastforce
qed

lemma lines_of_events:
  "list_all (\<lambda>e. event_line e \<noteq> None) es \<Longrightarrow>
     split_on (CHR 0x0A) (concat (map line_or_empty es)) = map (\<lambda>e. the (event_json e)) es @ [[]]"
proof (induction es)
  case (Cons e es)
  then obtain j where j: "event_json e = Some j" by (auto simp: event_line_def)
  then have "CHR 0x0A \<notin> set j" using event_line_newline [of e] by (auto simp: event_line_def)
  with Cons j show ?case
    by (simp add: line_or_empty_def event_line_def split_on_append split_on_single)
qed simp

lemma record_events_lines:
  "record_events (FileJSONLRecorder_Record path) es s = (rs, s') \<Longrightarrow> list_all (\<lambda>r. r = None) rs \<Longrightarrow>
     list_all (\<lambda>e. event_line e \<noteq> None) es"
  by (induction es arbitrary: s rs) (auto split: prod.splits dest: fl.recorded)

lemma split_on_snoc:
  assumes "d \<notin> set w"
  shows "split_on d (s @ w @ [d]) = butlast (split_on d s) @ [last (split_on d s) @ w, []]"
proof (induction s)
  case Nil
  show ?case using assms split_on_append [of d w "[]"] by (simp add: split_on_single)
next
  case (Cons c s)
  show ?case
  proof (cases "c = d")
    case True
    with Cons show ?thesis by (simp add: butlast_append)
  next
    case False
    obtain v vs where vs: "split_on d s = v # vs" by (cases "split_on d s") simp_all
    with Cons False show ?thesis by (cases vs) auto
  qed
qed

section \<open>Properties\<close>

text \<open>
  C34: the audit file is append-only, whichever calls fail. In every state of the disk during
  \<^verbatim>\<open>FileJSONLRecorder.Record\<close> the file starts with what it held before, followed by a part of the
  event's line; when the call reports no error the whole line has been added.
\<close>

theorem audit_file_append_only:
  assumes "FileJSONLRecorder_Record path e s = (r, s')"
  shows "\<exists>h. history s' = history s @ h
     \<and> (\<forall>m \<in> set h. \<exists>f t u. map_get m path = Some f \<and> content f = file_text path s @ t \<and> t @ u = line_or_empty e)
     \<and> (r = None \<longrightarrow> event_line e \<noteq> None \<and> file_text path s' = file_text path s @ line_or_empty e)"
proof -
  obtain t u h where o: "t @ u = line_or_empty e" "r = None \<longrightarrow> event_line e \<noteq> None \<and> u = []"
    "file_text path s' = file_text path s @ t" "history s' = history s @ h"
    "\<forall>m \<in> set h. \<exists>f. map_get m path = Some f \<and> (content f = file_text path s \<or> content f = file_text path s @ t)"
    using FileJSONLRecorder_outcome [OF assms] by blast
  have "\<forall>m \<in> set h. \<exists>f t u. map_get m path = Some f \<and> content f = file_text path s @ t \<and> t @ u = line_or_empty e"
  proof
    fix m
    assume "m \<in> set h"
    with o(5) obtain f where f: "map_get m path = Some f"
      "content f = file_text path s \<or> content f = file_text path s @ t" by blast
    then show "\<exists>f t u. map_get m path = Some f \<and> content f = file_text path s @ t \<and> t @ u = line_or_empty e"
      using o(1) by (metis append_Nil append_Nil2)
  qed
  with o show ?thesis by auto
qed

definition example_event :: event where
  "example_event = \<lparr>EventID = ''e'', RequestID = ''r'', Timestamp = 0, evType = EventBrokerStarted,
     evSeverity = SeverityInfo, evDecision = DecisionAllow, evIdentity = [], evProfileName = [],
     evProfileHash = [], evPolicyHash = [], ReasonCode = ReasonOK, evReason = [], evError = [], SourceIP = [],
     UserAgent = [], CSRSHA256 = [], CSRPublicKeySHA256 = [], evCSRDNSNames = None, ExpectedDNSNames = None,
     evIssuerName = [], evIssuerDirectory = [], ACMEOrderURL = [], CertSerialNumber = [],
     evCertNotBefore = None, evCertNotAfter = None, CacheResult = [], Metadata = []\<rparr>"

theorem audit_file_append_only_witness:
  "fst (FileJSONLRecorder_Record ''/a.log'' example_event example_os) = Some AuditEncodeFailed
   \<and> (\<exists>h. history (snd (FileJSONLRecorder_Record ''/a.log'' example_event example_os)) = history example_os @ h)"
proof -
  have "fst (FileJSONLRecorder_Record ''/a.log'' example_event example_os) = Some AuditEncodeFailed" by code_simp
  then show ?thesis
    using audit_file_append_only [of "''/a.log''" example_event example_os] by (metis prod.collapse)
qed

text \<open>
  Events recorded without an error are one line each: reading the file line by line gives
  their JSON texts in order.
\<close>

theorem audit_file_one_line_per_event:
  assumes "record_events (FileJSONLRecorder_Record path) es s = (rs, s')"
    and "list_all (\<lambda>r. r = None) rs" and "file_text path s = []"
  shows "split_on (CHR 0x0A) (file_text path s') = map (\<lambda>e. the (event_json e)) es @ [[]]"
  using fl.record_events_ok [OF assms(1,2)] lines_of_events [OF record_events_lines [OF assms(1,2)]] assms(3)
  by simp

theorem audit_file_one_line_per_event_witness:
  "split_on (CHR 0x0A) (file_text ''/a.log'' (snd (record_events (FileJSONLRecorder_Record ''/a.log'')
     [example_event, example_event] calm_os))) = map (\<lambda>e. the (event_json e)) [example_event, example_event] @ [[]]"
proof -
  obtain rs s' where R: "record_events (FileJSONLRecorder_Record ''/a.log'') [example_event, example_event] calm_os = (rs, s')"
    by (cases "record_events (FileJSONLRecorder_Record ''/a.log'') [example_event, example_event] calm_os")
  have "list_all Option.is_none (fst (record_events (FileJSONLRecorder_Record ''/a.log'')
      [example_event, example_event] calm_os))" "file_text ''/a.log'' calm_os = []" by code_simp+
  then have "list_all (\<lambda>r. r = None) rs" "file_text ''/a.log'' calm_os = []"
    unfolding R by (auto simp: list_all_iff Option.is_none_def)
  from audit_file_one_line_per_event [OF R this] show ?thesis unfolding R snd_conv .
qed

text \<open>
  C35: a line torn by a failed write is never closed. The next event is appended to it, although
  its recording reports no error, so that the event's text is not a line of its own.
\<close>

theorem torn_line_swallows_next_event:
  assumes "FileJSONLRecorder_Record path e s = (None, s')" and "event_json e = Some j"
  shows "split_on (CHR 0x0A) (file_text path s') =
     butlast (split_on (CHR 0x0A) (file_text path s)) @ [last (split_on (CHR 0x0A) (file_text path s)) @ j, []]"
proof -
  have "file_text path s' = file_text path s @ j @ [CHR 0x0A]"
    using fl.recorded [OF assms(1)] assms(2) by (simp add: line_or_empty_def event_line_def)
  moreover have "CHR 0x0A \<notin> set j" using event_line_newline [of e] assms(2) by (auto simp: event_line_def)
  ultimately show ?thesis by (simp add: split_on_snoc)
qed

theorem torn_line_swallows_next_event_witness:
  "let s = snd (FileJSONLRecorder_Record ''/a.log'' example_event example_os);
       s' = snd (FileJSONLRecorder_Record ''/a.log'' example_event s)
   in split_on (CHR 0x0A) (file_text ''/a.log'' s') = [''{'' @ the (event_json example_event), []]"
proof -
  let ?s = "snd (FileJSONLRecorder_Record ''/a.log'' example_event example_os)"
  have 1: "fst (FileJSONLRecorder_Record ''/a.log'' example_event ?s) = None"
    "split_on (CHR 0x0A) (file_text ''/a.log'' ?s) = [''{'']" "\<not> Option.is_none (event_json example_event)"
    by code_simp+
  then obtain j where j: "event_json example_event = Some j" by (auto simp: Option.is_none_def)
  have "FileJSONLRecorder_Record ''/a.log'' example_event ?s =
      (None, snd (FileJSONLRecorder_Record ''/a.log'' example_event ?s))"
    using 1(1) by (metis prod.collapse)
  from torn_line_swallows_next_event [OF this j] 1(2) j show ?thesis by (simp add: Let_def)
qed

fun each_recorder :: "'w recorder list \<Rightarrow> event \<Rightarrow> 'w \<Rightarrow> audit_error option list \<times> 'w" where
  "each_recorder [] e w = ([], w)"
| "each_recorder (r # rs) e w =
     (case r e w of (x, w') \<Rightarrow> case each_recorder rs e w' of (xs, w'') \<Rightarrow> (x # xs, w''))"

lemma multi_loop_each:
  "multi_loop rs errs e w =
     (errs @ map the (filter (\<lambda>x. x \<noteq> None) (fst (each_recorder rs e w))), snd (each_recorder rs e w))"
  by (induction rs errs e w rule: multi_loop.induct) (auto split: prod.splits option.splits)

text \<open>
  \<^verbatim>\<open>MultiRecorder\<close> hands every event to every recorder, in order, whatever the earlier ones
  answered, and reports an error exactly when one of them did.
\<close>

theorem multi_recorder_tries_all:
  "snd (MultiRecorder_Record rs e w) = snd (each_recorder rs e w)
   \<and> (fst (MultiRecorder_Record rs e w) = None \<longleftrightarrow> list_all (\<lambda>x. x = None) (fst (each_recorder rs e w)))"
proof -
  have "filter (\<lambda>x. x \<noteq> None) xs = [] \<longleftrightarrow> list_all (\<lambda>x. x = None) xs" for xs :: "audit_error option list"
    by (auto simp: filter_empty_conv list_all_iff)
  from this [of "fst (each_recorder rs e w)"] show ?thesis
    by (cases "filter (\<lambda>x. x \<noteq> None) (fst (each_recorder rs e w))")
      (simp_all add: MultiRecorder_Record_def multi_loop_each)
qed

end
