(* ===== verification/Store.thy ===== *)
theory Store
  imports Pki Audit_Log
begin

text \<open>
  Package \<^verbatim>\<open>internal/broker/store\<close>, the part the two stores share: cache keys, cache entries, the
  interface \<^verbatim>\<open>CertificateStore\<close>, and \<^verbatim>\<open>FileStore\<close>.
\<close>

section \<open>Cache keys\<close>

record cache_key =
  keyIdentity :: string
  keyProfileName :: string
  keyProfileHash :: string
  keyPublicKeySHA256 :: string
  keyIssuerName :: string
  keyIssuerDirectory :: string
  keyIssuerAccountKeyID :: string

definition key_fields :: "cache_key \<Rightarrow> string list" where
  "key_fields k = [keyIdentity k, keyProfileName k, keyProfileHash k, keyPublicKeySHA256 k,
     keyIssuerName k, keyIssuerDirectory k, keyIssuerAccountKeyID k]"

definition CertificateCacheKey_String :: "cache_key \<Rightarrow> string" where
  "CertificateCacheKey_String k = Join (key_fields k) [CHR 0x00]"

definition nul_free :: "cache_key \<Rightarrow> bool" where
  "nul_free k \<longleftrightarrow> list_all (\<lambda>f. CHR 0x00 \<notin> set f) (key_fields k)"

lemma key_String_inject:
  assumes "nul_free k" and "nul_free k'" and "CertificateCacheKey_String k = CertificateCacheKey_String k'"
  shows "k = k'"
proof -
  have "key_fields k = key_fields k'"
    using assms unfolding CertificateCacheKey_String_def nul_free_def
    by (intro Join_inject) (auto simp: key_fields_def list_all_iff)
  then show ?thesis by (simp add: key_fields_def)
qed

section \<open>The interface\<close>

datatype store_error =
    ErrCacheMiss
  | CacheReadFailed | CacheParseFailed | CacheMarshalFailed | CacheWriteFailed write_error
  | CacheQueryFailed | CacheDecodeFailed | NilBundle

record cache_entry =
  entryKey :: cache_key
  entryBundle :: cert_bundle
  entryCreatedAt :: instant
  entryUpdatedAt :: instant

text \<open>
  What a certificate store promises. \<open>view\<close> is the certificate kept under each key, \<open>norm\<close> what
  the store keeps of a bundle, and \<open>storable\<close> the bundles it can keep.
\<close>

datatype store_op = GetOp cache_key duration instant | PutOp cache_key cert_bundle instant

fun perform ::
  "(instant \<Rightarrow> cache_key \<Rightarrow> duration \<Rightarrow> 'w \<Rightarrow> (store_error, cert_bundle) result \<times> 'w) \<Rightarrow>
   (instant \<Rightarrow> cache_key \<Rightarrow> cert_bundle \<Rightarrow> 'w \<Rightarrow> store_error option \<times> 'w) \<Rightarrow> store_op \<Rightarrow> 'w \<Rightarrow> 'w" where
  "perform get put (GetOp k d now) w = snd (get now k d w)"
| "perform get put (PutOp k b now) w = snd (put now k b w)"

definition puts_storable :: "(instant \<Rightarrow> cert_bundle \<Rightarrow> bool) \<Rightarrow> store_op list \<Rightarrow> bool" where
  "puts_storable storable ops \<longleftrightarrow>
     list_all (\<lambda>op. case op of PutOp k b now \<Rightarrow> storable now b | GetOp k d now \<Rightarrow> True) ops"

locale certificate_store =
  fixes get :: "instant \<Rightarrow> cache_key \<Rightarrow> duration \<Rightarrow> 'w \<Rightarrow> (store_error, cert_bundle) result \<times> 'w"
    and put :: "instant \<Rightarrow> cache_key \<Rightarrow> cert_bundle \<Rightarrow> 'w \<Rightarrow> store_error option \<times> 'w"
    and view :: "'w \<Rightarrow> cache_key \<Rightarrow> cert_bundle option"
    and norm :: "cert_bundle \<Rightarrow> cert_bundle"
    and storable :: "instant \<Rightarrow> cert_bundle \<Rightarrow> bool"
    and inv :: "'w \<Rightarrow> bool"
  assumes get_view: "get now k d w = (r, w') \<Longrightarrow> view w' = view w \<and> (inv w \<longrightarrow> inv w')"
    and get_hit: "get now k d w = (Inr b, w') \<Longrightarrow> view w k = Some b \<and> d < time_until now (bundleNotAfter b)"
    and get_miss: "get now k d w = (Inl ErrCacheMiss, w') \<Longrightarrow>
      view w k = None \<or> (\<exists>b. view w k = Some b \<and> time_until now (bundleNotAfter b) \<le> d)"
    and put_view: "put now k b w = (e, w') \<Longrightarrow> storable now b \<Longrightarrow> inv w \<Longrightarrow>
      inv w' \<and> (view w' = (view w)(k \<mapsto> norm b) \<or> e \<noteq> None \<and> view w' = view w)"
begin

lemma view_perform:
  assumes "puts_storable storable ops" and "inv w" and "view w = Map.empty"
  shows "inv (fold (perform get put) ops w)
     \<and> (\<forall>k b. view (fold (perform get put) ops w) k = Some b \<longrightarrow> (\<exists>b' now. PutOp k b' now \<in> set ops \<and> b = norm b'))"
  using assms(1)
proof (induction ops rule: rev_induct)
  case Nil
  then show ?case using assms by simp
next
  case (snoc op ops)
  let ?w = "fold (perform get put) ops w"
  have IH: "inv ?w" "\<And>k b. view ?w k = Some b \<Longrightarrow> \<exists>b' now. PutOp k b' now \<in> set ops \<and> b = norm b'"
    using snoc by (auto simp: puts_storable_def)
  show ?case
  proof (cases op)
    case (GetOp k' d now)
    then have "view (perform get put op ?w) = view ?w \<and> inv (perform get put op ?w)"
      using IH(1) by (cases "get now k' d ?w") (auto dest: get_view)
    with IH show ?thesis by fastforce
  next
    case (PutOp k' b' now)
    have st: "storable now b'" using snoc.prems PutOp by (simp add: puts_storable_def)
    obtain e w' where p: "put now k' b' ?w = (e, w')" by (cases "put now k' b' ?w")
    have w': "inv w'" "view w' = (view ?w)(k' \<mapsto> norm b') \<or> view w' = view ?w"
      using put_view [OF p st IH(1)] by auto
    have "\<exists>b'' now. PutOp k b'' now \<in> set (ops @ [op]) \<and> b = norm b''" if "view w' k = Some b" for k b
    proof (cases "view ?w k = Some b")
      case True
      with IH(2) show ?thesis by force
    next
      case False
      with that w'(2) have "k = k'" "b = norm b'" by (auto split: if_splits)
      with PutOp show ?thesis by auto
    qed
    with w'(1) PutOp p show ?thesis by simp
  qed
qed

lemma hit_was_put:
  assumes "puts_storable storable ops" and "inv w" and "view w = Map.empty"
    and "get now k d (fold (perform get put) ops w) = (Inr b, w')"
  shows "d < time_until now (bundleNotAfter b) \<and> (\<exists>b' t. PutOp k b' t \<in> set ops \<and> b = norm b')"
  using get_hit [OF assms(4)] view_perform [OF assms(1-3)] by blast

lemma get_after_put:
  assumes "put t k b w = (None, w')" and "storable t b" and "inv w" and "get now k d w' = (r, w'')"
    and "d < time_until now (bundleNotAfter (norm b))" and "r = Inl ErrCacheMiss \<or> (\<exists>c. r = Inr c)"
  shows "r = Inr (norm b)"
proof -
  have view: "view w' k = Some (norm b)" using put_view [OF assms(1-3)] by auto
  show ?thesis
    using assms(4-6) get_hit [of now k d w' _ w''] get_miss [of now k d w' w''] view by fastforce
qed

end

section \<open>The file store\<close>

text \<open>
  \<^verbatim>\<open>FileStore\<close> keeps all entries in one JSON file. The texts of the file are written and read by
  the two functions of \<open>cache_codec\<close>, which stand for \<^verbatim>\<open>json.MarshalIndent\<close> and \<^verbatim>\<open>json.Unmarshal\<close> at
  the type of the cache; the second gives \<open>Some None\<close> for the text \<^verbatim>\<open>null\<close>.
\<close>

record cache_codec =
  marshal_entries :: "cache_entry strmap \<Rightarrow> string option"
  unmarshal_entries :: "string \<Rightarrow> cache_entry strmap option option"

definition loadLocked :: "cache_codec \<Rightarrow> string \<Rightarrow> os \<Rightarrow> (store_error, cache_entry strmap) result \<times> os" where
  "loadLocked c path s =
     (case os_ReadFile path s of
        (Inl e, s) \<Rightarrow> if e = ErrNotExist then (Inr [], s) else (Inl CacheReadFailed, s)
      | (Inr data, s) \<Rightarrow>
          (case unmarshal_entries c data of
             None \<Rightarrow> (Inl CacheParseFailed, s)
           | Some None \<Rightarrow> (Inr [], s)
           | Some (Some entries) \<Rightarrow> (Inr entries, s)))"

definition saveLocked :: "cache_codec \<Rightarrow> string \<Rightarrow> cache_entry strmap \<Rightarrow> os \<Rightarrow> store_error option \<times> os" where
  "saveLocked c path entries s =
     (case marshal_entries c entries of
        None \<Rightarrow> (Some CacheMarshalFailed, s)
      | Some data \<Rightarrow>
          (case WriteFileAtomic path data 384 s of
             (None, s) \<Rightarrow> (None, s)
           | (Some e, s) \<Rightarrow> (Some (CacheWriteFailed e), s)))"

definition FileStore_GetValidCertificate ::
  "cache_codec \<Rightarrow> string \<Rightarrow> instant \<Rightarrow> cache_key \<Rightarrow> duration \<Rightarrow> os \<Rightarrow> (store_error, cert_bundle) result \<times> os" where
  "FileStore_GetValidCertificate c path now key renewBefore s =
     (case loadLocked c path s of
        (Inl e, s) \<Rightarrow> (Inl e, s)
      | (Inr entries, s) \<Rightarrow>
          (case map_get entries (CertificateCacheKey_String key) of
             None \<Rightarrow> (Inl ErrCacheMiss, s)
           | Some entry \<Rightarrow>
               if time_until now (bundleNotAfter (entryBundle entry)) \<le> renewBefore then (Inl ErrCacheMiss, s)
               else (Inr (entryBundle entry), s)))"

definition FileStore_PutCertificate ::
  "cache_codec \<Rightarrow> string \<Rightarrow> instant \<Rightarrow> cache_key \<Rightarrow> cert_bundle \<Rightarrow> os \<Rightarrow> store_error option \<times> os" where
  "FileStore_PutCertificate c path now key bundle' s =
     (case loadLocked c path s of
        (Inl e, s) \<Rightarrow> (Some e, s)
      | (Inr entries, s) \<Rightarrow>
          let createdAt = (case map_get entries (CertificateCacheKey_String key) of
                             None \<Rightarrow> zero_time | Some entry \<Rightarrow> entryCreatedAt entry);
              createdAt = (if createdAt = zero_time then now else createdAt)
          in saveLocked c path
               (map_put (CertificateCacheKey_String key)
                  \<lparr>entryKey = key, entryBundle = bundle', entryCreatedAt = createdAt, entryUpdatedAt = now\<rparr>
                  entries) s)"

definition FileStore_List :: "cache_codec \<Rightarrow> string \<Rightarrow> os \<Rightarrow> (store_error, cache_entry list) result \<times> os" where
  "FileStore_List c path s =
     (case loadLocked c path s of
        (Inl e, s) \<Rightarrow> (Inl e, s)
      | (Inr entries, s) \<Rightarrow> (Inr (map snd entries), s))"

text \<open>\<^verbatim>\<open>Record\<close> has no directory to create and leaves closing to a deferred call.\<close>

definition FileStore_Record :: "string \<Rightarrow> os recorder" where
  "FileStore_Record path e s =
     (let path = path @ ''.audit.jsonl'' in
      case os_OpenAppend path 384 s of
        (False, s) \<Rightarrow> (Some AuditOpenFailed, s)
      | (True, s) \<Rightarrow>
          (case encode_to path e s of
             (False, s) \<Rightarrow> (Some AuditEncodeFailed, snd (os_call s))
           | (True, s) \<Rightarrow>
               (case os_call s of
                  (synced, s) \<Rightarrow> ((if synced then None else Some AuditSyncFailed), snd (os_call s)))))"

text \<open>
  \<^verbatim>\<open>bufio.Scanner\<close> with its default buffer of 64 kB: lines without their newline and one
  trailing carriage return, and an error as soon as a line does not fit.
\<close>

definition drop_cr :: "string \<Rightarrow> string" where
  "drop_cr line = (if line \<noteq> [] \<and> last line = CHR 0x0D then butlast line else line)"

definition scan_lines :: "string \<Rightarrow> string list option" where
  "scan_lines text =
     (let raw = split_on (CHR 0x0A) text; raw = (if last raw = [] then butlast raw else raw) in
      if list_ex (\<lambda>l. 65536 \<le> length l) raw then None else Some (map drop_cr raw))"

datatype listing_error = ListOpenFailed | ListReadFailed | ListWriteFailed | ListDecodeFailed

text \<open>The lines are written to any \<^verbatim>\<open>io.Writer\<close>: its \<^verbatim>\<open>Write\<close> is the argument \<open>write\<close>.\<close>

fun write_lines :: "(string \<Rightarrow> 'o \<Rightarrow> bool \<times> 'o) \<Rightarrow> string list \<Rightarrow> 'o \<Rightarrow> listing_error option \<times> 'o" where
  "write_lines write [] out = (None, out)"
| "write_lines write (line # lines) out =
     (case write (line @ [CHR 0x0A]) out of
        (False, out) \<Rightarrow> (Some ListWriteFailed, out)
      | (True, out) \<Rightarrow> write_lines write lines out)"

definition FileStore_WriteAuditEvents ::
  "(string \<Rightarrow> 'o \<Rightarrow> bool \<times> 'o) \<Rightarrow> string \<Rightarrow> int \<Rightarrow> os \<Rightarrow> 'o \<Rightarrow> listing_error option \<times> os \<times> 'o" where
  "FileStore_WriteAuditEvents write path limit s out =
     (case os_ReadFile (path @ ''.audit.jsonl'') s of
        (Inl e, s) \<Rightarrow> ((if e = ErrNotExist then None else Some ListOpenFailed), s, out)
      | (Inr text, s) \<Rightarrow>
          (case scan_lines text of
             None \<Rightarrow> (Some ListReadFailed, s, out)
           | Some lines \<Rightarrow>
               let lines = (if 0 < limit \<and> limit < int (length lines)
                            then drop (length lines - nat limit) lines else lines)
               in case write_lines write lines out of (e, out) \<Rightarrow> (e, s, out)))"

section \<open>The audit log of the file store\<close>

lemma FileStore_Record_outcome:
  assumes "FileStore_Record path e s = (r, s')"
  shows "\<exists>t u. file_text (path @ ''.audit.jsonl'') s' = file_text (path @ ''.audit.jsonl'') s @ t
     \<and> t @ u = line_or_empty e \<and> (r = None \<longrightarrow> event_line e \<noteq> None \<and> u = [])"
proof -
  let ?p = "path @ ''.audit.jsonl''"
  obtain b s2 where 2: "os_OpenAppend ?p 384 s = (b, s2)" by (cases "os_OpenAppend ?p 384 s")
  have f2: "file_text ?p s2 = file_text ?p s" "b \<longrightarrow> map_get (files s2) ?p \<noteq> None"
    using 2 by (auto simp: os_OpenAppend_def file_text_def sd.get_put split: if_splits option.splits)
  show ?thesis
  proof (cases b)
    case False
    then have "r \<noteq> None \<and> s' = s2" using assms 2 by (auto simp: FileStore_Record_def Let_def)
    then show ?thesis using f2 by (auto intro!: exI [of _ "[]"] exI [of _ "line_or_empty e"])
  next
    case True
    then obtain f where f: "map_get (files s2) ?p = Some f" using f2(2) by auto
    obtain ok s3 where 3: "encode_to ?p e s2 = (ok, s3)" by (cases "encode_to ?p e s2")
    have "files s' = files s3" "r = None \<longrightarrow> ok"
      using assms 2 3 True by (auto simp: FileStore_Record_def Let_def os_call_def split: if_splits bool.splits)
    then show ?thesis
      using encode_to_outcome [OF 3 f] f2 f by (fastforce simp: file_text_def)
  qed
qed

interpretation fr: audit_sink "FileStore_Record path" "file_text (path @ ''.audit.jsonl'')" for path
  by unfold_locales (blast dest: FileStore_Record_outcome, fastforce dest: FileStore_Record_outcome)

lemma last_snoc_lines [simp]: "last (xs @ [[]]) = []" "butlast (xs @ [[]]) = xs"
  by simp_all

lemma scan_recorded_events:
  assumes "list_all (\<lambda>e. event_line e \<noteq> None) es" and "list_all (\<lambda>e. length (the (event_json e)) < 65536) es"
  shows "scan_lines (concat (map line_or_empty es)) = Some (map (\<lambda>e. the (event_json e)) es)"
proof -
  have "drop_cr (the (event_json e)) = the (event_json e)" if mem: "e \<in> set es" for e
  proof -
    obtain j where j: "event_json e = Some j" using assms(1) mem by (auto simp: list_all_iff event_line_def)
    then have "CHR 0x0D \<notin> set j" using printable_event [OF j] by (fastforce simp: printable_def list_all_iff)
    then have "j = [] \<or> last j \<noteq> CHR 0x0D" using last_in_set [of j] by metis
    then show ?thesis using j by (auto simp: drop_cr_def)
  qed
  then show ?thesis
    using assms lines_of_events [OF assms(1)]
    by (auto simp: scan_lines_def Let_def list_all_iff list_ex_iff)
qed

abbreviation append_writer :: "string \<Rightarrow> string \<Rightarrow> bool \<times> string" where
  "append_writer \<equiv> \<lambda>t out. (True, out @ t)"

lemma write_lines_append:
  "write_lines append_writer lines out = (None, out @ concat (map (\<lambda>l. l @ [CHR 0x0A]) lines))"
  by (induction lines arbitrary: out) simp_all

lemma concat_event_lines:
  "list_all (\<lambda>e. event_line e \<noteq> None) es \<Longrightarrow>
     concat (map (\<lambda>l. l @ [CHR 0x0A]) (map (\<lambda>e. the (event_json e)) es)) = concat (map line_or_empty es)"
  by (induction es) (auto simp: line_or_empty_def event_line_def)

lemma record_events_store_lines:
  "record_events (FileStore_Record path) es s = (rs, s') \<Longrightarrow> list_all (\<lambda>r. r = None) rs \<Longrightarrow>
     list_all (\<lambda>e. event_line e \<noteq> None) es"
  by (induction es arbitrary: s rs) (auto split: prod.splits dest: fr.recorded)

definition tail_of :: "int \<Rightarrow> 'a list \<Rightarrow> 'a list" where
  "tail_of limit xs = (if 0 < limit \<and> limit < int (length xs) then drop (length xs - nat limit) xs else xs)"

section \<open>Properties\<close>

text \<open>
  Round trip of the audit log of the file store. After events have been recorded without an
  error on an empty log, \<^verbatim>\<open>WriteAuditEvents\<close> writes the lines of the last \<^verbatim>\<open>limit\<close> of them, or of all
  when the limit is not positive, as long as every line fits the scanner's buffer and the file
  can be read.
\<close>

theorem file_store_audit_roundtrip:
  assumes "record_events (FileStore_Record path) es s = (rs, s')" and "list_all (\<lambda>r. r = None) rs"
    and "file_text (path @ ''.audit.jsonl'') s = []"
    and "list_all (\<lambda>e. length (the (event_json e)) < 65536) es" and "\<not> failing s'"
  shows "fst (FileStore_WriteAuditEvents append_writer path limit s' out) = None
     \<and> snd (snd (FileStore_WriteAuditEvents append_writer path limit s' out))
       = out @ concat (map line_or_empty (tail_of limit es))"
proof -
  let ?p = "path @ ''.audit.jsonl''"
  have lines: "list_all (\<lambda>e. event_line e \<noteq> None) es" by (rule record_events_store_lines [OF assms(1,2)])
  have text': "file_text ?p s' = concat (map line_or_empty es)"
    using fr.record_events_ok [OF assms(1,2)] assms(3) by simp
  have tail: "list_all (\<lambda>e. event_line e \<noteq> None) (tail_of limit es)"
    using lines by (auto simp: tail_of_def list_all_iff dest: in_set_dropD)
  show ?thesis
  proof (cases "map_get (files s') ?p")
    case None
    then have "concat (map line_or_empty es) = []" using text' by (simp add: file_text_def)
    moreover have "line_or_empty e \<noteq> []" if "e \<in> set es" for e
      using that lines by (auto simp: list_all_iff line_or_empty_def event_line_def)
    ultimately have "es = []" by (cases es) auto
    with None assms(5) show ?thesis
      by (simp add: FileStore_WriteAuditEvents_def os_ReadFile_def tail_of_def)
  next
    case (Some f)
    then have "scan_lines (content f) = Some (map (\<lambda>e. the (event_json e)) es)"
      using text' scan_recorded_events [OF lines assms(4)] by (simp add: file_text_def)
    then have "FileStore_WriteAuditEvents append_writer path limit s' out =
        (case write_lines append_writer (map (\<lambda>e. the (event_json e)) (tail_of limit es)) out of
           (e, out) \<Rightarrow> (e, tick s', out))"
      using Some assms(5)
      by (simp add: FileStore_WriteAuditEvents_def os_ReadFile_def tail_of_def drop_map Let_def)
    then show ?thesis
      by (simp only: write_lines_append concat_event_lines [OF tail] prod.case fst_conv snd_conv)
  qed
qed

theorem file_store_audit_roundtrip_witness:
  "snd (snd (FileStore_WriteAuditEvents append_writer ''/c'' 1
     (snd (record_events (FileStore_Record ''/c'') [example_event] calm_os)) []))
   = concat (map line_or_empty (tail_of 1 [example_event]))"
proof -
  obtain rs s' where R: "record_events (FileStore_Record ''/c'') [example_event] calm_os = (rs, s')"
    by (cases "record_events (FileStore_Record ''/c'') [example_event] calm_os")
  have "list_all Option.is_none (fst (record_events (FileStore_Record ''/c'') [example_event] calm_os))"
    "file_text (''/c'' @ ''.audit.jsonl'') calm_os = []"
    "length (the (event_json example_event)) < 250"
    "\<not> failing (snd (record_events (FileStore_Record ''/c'') [example_event] calm_os))"
    by code_simp+
  then have "list_all (\<lambda>r. r = None) rs" "file_text (''/c'' @ ''.audit.jsonl'') calm_os = []"
    "list_all (\<lambda>e. length (the (event_json e)) < 65536) [example_event]" "\<not> failing s'"
    unfolding R by (auto simp: list_all_iff Option.is_none_def)
  from file_store_audit_roundtrip [OF R this, of 1 "[]"] show ?thesis unfolding R by simp
qed

text \<open>
  C36: one event whose line does not fit the scanner's 64 kB buffer makes the whole listing fail,
  whatever the limit, although it was recorded without an error.
\<close>

theorem long_event_breaks_listing:
  assumes "record_events (FileStore_Record path) es s = (rs, s')" and "list_all (\<lambda>r. r = None) rs"
    and "file_text (path @ ''.audit.jsonl'') s = []" and "e \<in> set es"
    and "65536 \<le> length (the (event_json e))" and "\<not> failing s'"
  shows "fst (FileStore_WriteAuditEvents append_writer path limit s' out) = Some ListReadFailed"
proof -
  let ?p = "path @ ''.audit.jsonl''"
  have lines: "list_all (\<lambda>e. event_line e \<noteq> None) es" by (rule record_events_store_lines [OF assms(1,2)])
  have text': "file_text ?p s' = concat (map line_or_empty es)"
    using fr.record_events_ok [OF assms(1,2)] assms(3) by simp
  moreover have "line_or_empty e \<noteq> []"
    using assms(4) lines by (auto simp: list_all_iff line_or_empty_def event_line_def)
  ultimately have "file_text ?p s' \<noteq> []" using assms(4) by auto
  then obtain f where f: "map_get (files s') ?p = Some f" by (auto simp: file_text_def split: option.splits)
  have "split_on (CHR 0x0A) (content f) = map (\<lambda>e. the (event_json e)) es @ [[]]"
    using text' f lines_of_events [OF lines] by (simp add: file_text_def)
  then have "scan_lines (content f) = None"
    using assms(4,5) by (auto simp: scan_lines_def list_ex_iff)
  with f assms(6) show ?thesis by (simp add: FileStore_WriteAuditEvents_def os_ReadFile_def)
qed

lemma length_json_letters: "length (json_chars (replicate n (CHR ''a''))) = n"
proof (induction n)
  case 0
  show ?case by (simp add: json_chars.simps)
next
  case (Suc n)
  have "rune_size (CHR ''a'' # replicate n (CHR ''a'')) = 1"
    using rune_size_append [of "''a''" "replicate n (CHR ''a'')"] by simp
  then show ?case
    using Suc by (simp add: json_chars.simps [of "CHR ''a'' # w" for w] rune_text_def escape_byte_def)
qed

lemma length_Join_member: "w \<in> set ws \<Longrightarrow> length w \<le> length (Join ws sep)"
  by (induction ws sep rule: Join.induct) auto

lemma FileStore_Record_ok:
  assumes "\<forall>n. \<not> faults s n" and "event_line e = Some line"
  shows "fst (FileStore_Record path e s) = None \<and> \<not> failing (snd (FileStore_Record path e s))"
  using assms
  by (auto simp: FileStore_Record_def Let_def os_OpenAppend_def encode_to_def os_Write_def os_call_def
      failing_def split: option.splits)

definition long_event :: event where
  "long_event = example_event\<lparr>UserAgent := replicate 65536 (CHR ''a'')\<rparr>"

lemma long_event_json: "\<exists>j. event_json long_event = Some j \<and> 65536 \<le> length j"
proof -
  have "json_time 0 \<noteq> None" by code_simp
  then obtain ts where ts: "json_time 0 = Some ts" by auto
  let ?m = "member_text ''user_agent'' (json_string (replicate 65536 (CHR ''a'')))"
  have "65536 \<le> length ?m"
    using length_json_letters [of 65536] by (simp add: member_text_def json_string_def)
  moreover obtain ms where "event_json long_event = Some (''{'' @ Join ms '','' @ ''}'')" "?m \<in> set ms"
    by (simp add: event_json_def long_event_def example_event_def ts time_member_def opt_member_def)
  ultimately show ?thesis using length_Join_member [of ?m ms "'',''"] by auto
qed

theorem long_event_breaks_listing_witness:
  "fst (FileStore_WriteAuditEvents append_writer ''/c'' 10
     (snd (record_events (FileStore_Record ''/c'') [long_event] calm_os)) []) = Some ListReadFailed"
proof -
  obtain j where j: "event_json long_event = Some j" "65536 \<le> length j" using long_event_json by blast
  have "\<forall>n. \<not> faults calm_os n" by (simp add: calm_os_def)
  moreover have "event_line long_event = Some (j @ [CHR 0x0A])" using j by (simp add: event_line_def)
  ultimately have ok: "fst (FileStore_Record ''/c'' long_event calm_os) = None"
    "\<not> failing (snd (FileStore_Record ''/c'' long_event calm_os))"
    using FileStore_Record_ok by blast+
  obtain r s' where R: "FileStore_Record ''/c'' long_event calm_os = (r, s')" by (cases "FileStore_Record ''/c'' long_event calm_os")
  then have run: "record_events (FileStore_Record ''/c'') [long_event] calm_os = ([r], s')" by simp
  have "file_text (''/c'' @ ''.audit.jsonl'') calm_os = []" by code_simp
  then show ?thesis
    using long_event_breaks_listing [OF run, of long_event 10 "[]"] ok R j unfolding run by simp
qed

definition codec_roundtrip :: "cache_codec \<Rightarrow> bool" where
  "codec_roundtrip c \<longleftrightarrow> (\<forall>m data. marshal_entries c m = Some data \<longrightarrow> unmarshal_entries c data = Some (Some m))"

lemma load_cases:
  assumes "loadLocked c path s = (Inr m, s')"
  shows "s' = tick s \<and> (case map_get (files s) path of
      None \<Rightarrow> m = []
    | Some f \<Rightarrow> unmarshal_entries c (content f) = Some (Some m) \<or> unmarshal_entries c (content f) = Some None \<and> m = [])"
  using assms by (auto simp: loadLocked_def os_ReadFile_def split: if_splits option.splits sum.splits)

text \<open>
  The file store is a map of certificates. After a successful \<^verbatim>\<open>PutCertificate\<close>, looking up
  the same key gives the bundle unless it has to be renewed, and every other key gives what it
  gave before. Keys are free of NUL bytes, and the JSON text of a cache reads back.
\<close>

theorem file_store_get_after_put:
  assumes "plain_path s path" and "codec_roundtrip c" and "nul_free key" and "nul_free key'"
    and "FileStore_PutCertificate c path t key b s = (None, s')" and "\<not> failing s'"
  shows "fst (FileStore_GetValidCertificate c path now key' d s') =
    (if key' = key then (if time_until now (bundleNotAfter b) \<le> d then Inl ErrCacheMiss else Inr b)
     else fst (FileStore_GetValidCertificate c path now key' d s))"
proof -
  obtain m s1 where load: "loadLocked c path s = (Inr m, s1)"
    using assms(5) by (auto simp: FileStore_PutCertificate_def split: prod.splits sum.splits)
  have "\<exists>created. saveLocked c path (map_put (CertificateCacheKey_String key)
      \<lparr>entryKey = key, entryBundle = b, entryCreatedAt = created, entryUpdatedAt = t\<rparr> m) s1 = (None, s')"
    using assms(5) load unfolding FileStore_PutCertificate_def Let_def by auto
  then obtain entry where save: "entryBundle entry = b"
    "saveLocked c path (map_put (CertificateCacheKey_String key) entry m) s1 = (None, s')"
    by (metis cache_entry.select_convs(2))
  then obtain data where entry: "entryBundle entry = b"
    "marshal_entries c (map_put (CertificateCacheKey_String key) entry m) = Some data"
    "WriteFileAtomic path data 384 s1 = (None, s')"
    by (auto simp: saveLocked_def split: prod.splits option.splits)
  have s1: "s1 = tick s" using load_cases [OF load] by blast
  then have "map_get (files s') path = Some \<lparr>content = data, mode = 384\<rparr>"
    using WriteFileAtomic_done [OF _ entry(3), of path] assms(1) by simp
  then have load': "loadLocked c path s' = (Inr (map_put (CertificateCacheKey_String key) entry m), tick s')"
    using assms(2,6) entry(2) by (simp add: loadLocked_def os_ReadFile_def codec_roundtrip_def)
  have same: "CertificateCacheKey_String key' = CertificateCacheKey_String key \<longleftrightarrow> key' = key"
    using key_String_inject assms(3,4) by blast
  show ?thesis
    using entry(1)
    by (simp add: FileStore_GetValidCertificate_def load load' sd.get_put same split: option.splits)
qed

definition example_key :: cache_key where
  "example_key = \<lparr>keyIdentity = ''host-1'', keyProfileName = ''web'', keyProfileHash = ''h'', keyPublicKeySHA256 = ''k'',
     keyIssuerName = ''acme'', keyIssuerDirectory = ''d'', keyIssuerAccountKeyID = ''a''\<rparr>"

definition example_bundle :: cert_bundle where
  "example_bundle = \<lparr>CertPEM = ''CERTIFICATE:der'', ChainPEM = [], FullChainPEM = ''CERTIFICATE:der'', LeafSerialNumber = ''7'',
     bundleNotBefore = 0, bundleNotAfter = 100 * 24 * Hour\<rparr>"

definition example_entry :: cache_entry where
  "example_entry = \<lparr>entryKey = example_key, entryBundle = example_bundle, entryCreatedAt = 5, entryUpdatedAt = 5\<rparr>"

text \<open>A codec that knows the texts of two caches.\<close>

definition example_codec :: cache_codec where
  "example_codec = \<lparr>marshal_entries =
       (\<lambda>m. if m = [(CertificateCacheKey_String example_key, example_entry)] then Some ''one'' else None),
     unmarshal_entries =
       (\<lambda>s. if s = ''one'' then Some (Some [(CertificateCacheKey_String example_key, example_entry)]) else None)\<rparr>"

theorem file_store_get_after_put_witness:
  "fst (FileStore_PutCertificate example_codec ''/c'' 5 example_key example_bundle calm_os) = None
   \<and> fst (FileStore_GetValidCertificate example_codec ''/c'' 9 example_key Hour
        (snd (FileStore_PutCertificate example_codec ''/c'' 5 example_key example_bundle calm_os))) = Inr example_bundle"
proof -
  let ?P = "FileStore_PutCertificate example_codec ''/c'' 5 example_key example_bundle calm_os"
  have ok: "fst ?P = None" "\<not> failing (snd ?P)" "nul_free example_key"
    "\<not> time_until 9 (bundleNotAfter example_bundle) \<le> Hour" by code_simp+
  have "\<not> HasPrefix (Base_raw ''/c'') ''.certplane-''" by code_simp
  then have "plain_path calm_os ''/c''" by (simp add: plain_path_def calm_os_def example_os_def)
  moreover have "codec_roundtrip example_codec" by (simp add: codec_roundtrip_def example_codec_def)
  moreover have "?P = (None, snd ?P)" using ok(1) by (metis prod.collapse)
  ultimately show ?thesis
    using file_store_get_after_put [of calm_os "''/c''" example_codec example_key example_key 5 example_bundle "snd ?P" 9 Hour] ok
    by simp
qed

end
