(* ===== verification/Ratelimit.thy ===== *)
theory Ratelimit
  imports Go_Time
begin

text \<open>
  Package \<^verbatim>\<open>internal/broker/ratelimit\<close>: a sliding window of one hour per identity and per
  identity and profile. The mutex makes every call of \<open>Allow\<close> one step; the clock reading of a
  call is an argument, and consecutive calls read a clock that does not go back.

  The pruning of the logs in place is shown to filter them, and the limiter to decide each call
  by the number of calls it granted in the hour before.
\<close>

section \<open>The limiter\<close>

record limiter =
  perIdentity :: int
  perIdentityProfile :: int
  identity_log :: "instant list strmap"
  profile_log :: "instant list strmap"

definition New :: "int \<Rightarrow> int \<Rightarrow> limiter" where
  "New perIdentity' perIdentityProfile' =
     \<lparr>perIdentity = perIdentity', perIdentityProfile = perIdentityProfile', identity_log = [], profile_log = []\<rparr>"

text \<open>
  \<^verbatim>\<open>prune\<close> writes the kept elements to the front of the array it is reading: \<open>arr\<close> is the array
  that backs \<^verbatim>\<open>in\<close> and \<^verbatim>\<open>out\<close>, \<open>i\<close> the position of the loop and \<open>n\<close> the length of \<^verbatim>\<open>out\<close>.
\<close>

function prune_loop :: "instant list \<Rightarrow> instant \<Rightarrow> nat \<Rightarrow> nat \<Rightarrow> instant list \<times> nat" where
  "prune_loop arr after i n =
     (if i < length arr then
        let t = arr ! i in
        if after < t then prune_loop (arr[n := t]) after (Suc i) (Suc n)
        else prune_loop arr after (Suc i) n
      else (arr, n))"
  by pat_completeness auto
termination
  by (relation "measure (\<lambda>(arr, after, i, n). length arr - i)") auto

declare prune_loop.simps [simp del]

definition prune :: "instant list \<Rightarrow> instant \<Rightarrow> instant list" where
  "prune ts after = (case prune_loop ts after 0 0 of (arr, n) \<Rightarrow> take n arr)"

definition profile_key :: "string \<Rightarrow> string \<Rightarrow> string" where
  "profile_key identity profile = identity @ [CHR 0x00] @ profile"

datatype rate_error =
    IdentityLimitExceeded string
  | ProfileLimitExceeded string string

definition Allow :: "instant \<Rightarrow> string \<Rightarrow> string \<Rightarrow> limiter \<Rightarrow> rate_error option \<times> limiter" where
  "Allow now identity profile l =
     (let windowStart = now - Hour;
          l = l\<lparr>identity_log := map_put identity (prune (map_at [] (identity_log l) identity) windowStart)
                (identity_log l)\<rparr>;
          profileKey = profile_key identity profile;
          l = l\<lparr>profile_log := map_put profileKey (prune (map_at [] (profile_log l) profileKey) windowStart)
                (profile_log l)\<rparr> in
      if 0 < perIdentity l \<and> perIdentity l \<le> int (length (map_at [] (identity_log l) identity))
      then (Some (IdentityLimitExceeded identity), l)
      else if 0 < perIdentityProfile l
              \<and> perIdentityProfile l \<le> int (length (map_at [] (profile_log l) profileKey))
      then (Some (ProfileLimitExceeded identity profile), l)
      else
        let l = l\<lparr>identity_log := map_put identity (map_at [] (identity_log l) identity @ [now]) (identity_log l)\<rparr>;
            l = l\<lparr>profile_log := map_put profileKey (map_at [] (profile_log l) profileKey @ [now]) (profile_log l)\<rparr>
        in (None, l))"

section \<open>Histories\<close>

text \<open>
  A history is the list of calls with the clock reading of each; \<open>run\<close> makes the calls in turn
  and returns the ones that were granted.
\<close>

type_synonym call = "instant \<times> string \<times> string"

fun run :: "limiter \<Rightarrow> call list \<Rightarrow> call list \<times> limiter" where
  "run l [] = ([], l)"
| "run l ((now, identity, profile) # cs) =
     (case Allow now identity profile l of
        (None, l') \<Rightarrow> (case run l' cs of (gs, l'') \<Rightarrow> ((now, identity, profile) # gs, l''))
      | (Some _, l') \<Rightarrow> run l' cs)"

definition clock_ok :: "call list \<Rightarrow> bool" where
  "clock_ok cs \<longleftrightarrow> sorted (map fst cs)"

definition granted_in :: "(string \<Rightarrow> string \<Rightarrow> bool) \<Rightarrow> instant \<Rightarrow> call list \<Rightarrow> nat" where
  "granted_in who w gs = length (filter (\<lambda>(t, i, p). who i p \<and> w - Hour < t \<and> t \<le> w) gs)"

section \<open>Pruning\<close>

lemma prune_loop_filter:
  assumes "n \<le> i" and "i \<le> length arr" and "prune_loop arr after i n = (arr', n')"
  shows "take n' arr' = take n arr @ filter (\<lambda>t. after < t) (drop i arr)"
  using assms
proof (induction arr after i n rule: prune_loop.induct)
  case (1 arr after i n)
  show ?case
  proof (cases "i < length arr")
    case True
    let ?t = "arr ! i"
    have split: "drop i arr = ?t # drop (Suc i) arr" using True by (simp add: Cons_nth_drop_Suc)
    show ?thesis
    proof (cases "after < ?t")
      case after: True
      have "take n' arr' = take (Suc n) (arr[n := ?t]) @ filter (\<lambda>t. after < t) (drop (Suc i) (arr[n := ?t]))"
        using 1 True after by (simp add: prune_loop.simps [of arr])
      moreover have "take (Suc n) (arr[n := ?t]) = take n arr @ [?t]"
        using True "1.prems"(1) by (simp add: take_Suc_conv_app_nth)
      moreover have "drop (Suc i) (arr[n := ?t]) = drop (Suc i) arr" using "1.prems"(1) by simp
      ultimately show ?thesis using after by (simp add: split)
    next
      case False
      then show ?thesis using 1 True by (simp add: prune_loop.simps [of arr] split)
    qed
  next
    case False
    then show ?thesis using "1.prems" by (simp add: prune_loop.simps [of arr])
  qed
qed

lemma prune_filter: "prune ts after = filter (\<lambda>t. after < t) ts"
  using prune_loop_filter [of 0 0 ts after]
  by (cases "prune_loop ts after 0 0") (simp add: prune_def)

section \<open>The logs\<close>

text \<open>
  A log kept under a key holds the granted calls with that key that are not older than some
  cut-off, which lies at least an hour before the time \<open>T\<close> reached by the clock.
\<close>

definition times_of :: "(call \<Rightarrow> string) \<Rightarrow> string \<Rightarrow> call list \<Rightarrow> instant list" where
  "times_of key k gs = map fst (filter (\<lambda>g. key g = k) gs)"

definition log_inv :: "(call \<Rightarrow> string) \<Rightarrow> instant \<Rightarrow> call list \<Rightarrow> instant list strmap \<Rightarrow> bool" where
  "log_inv key T gs m \<longleftrightarrow> (\<forall>g \<in> set gs. fst g \<le> T)
     \<and> (\<forall>k. \<exists>c. c \<le> T - Hour \<and> map_at [] m k = filter (\<lambda>t. c < t) (times_of key k gs))"

lemma times_of_snoc [simp]:
  "times_of key k (gs @ [g]) = times_of key k gs @ (if key g = k then [fst g] else [])"
  by (simp add: times_of_def)

lemma log_inv_empty: "log_inv key T [] []"
  unfolding log_inv_def times_of_def by auto

lemma log_pruned:
  assumes "log_inv key T gs m" and "T \<le> now"
  shows "filter (\<lambda>t. now - Hour < t) (map_at [] m k) = filter (\<lambda>t. now - Hour < t) (times_of key k gs)"
proof -
  obtain c where "c \<le> T - Hour" "map_at [] m k = filter (\<lambda>t. c < t) (times_of key k gs)"
    using assms(1) unfolding log_inv_def by blast
  with assms(2) show ?thesis by (auto intro!: filter_cong)
qed

lemma log_inv_prune:
  assumes "log_inv key T gs m" and "T \<le> now"
  shows "log_inv key now gs (map_put k (filter (\<lambda>t. now - Hour < t) (times_of key k gs)) m)"
proof -
  have "\<exists>c. c \<le> now - Hour \<and> map_at [] (map_put k (filter (\<lambda>t. now - Hour < t) (times_of key k gs)) m) k'
      = filter (\<lambda>t. c < t) (times_of key k' gs)" for k'
  proof (cases "k' = k")
    case True
    then show ?thesis by (intro exI [of _ "now - Hour"]) (simp add: sd.get_put)
  next
    case False
    obtain c where "c \<le> T - Hour" "map_at [] m k' = filter (\<lambda>t. c < t) (times_of key k' gs)"
      using assms(1) unfolding log_inv_def by blast
    with assms(2) False show ?thesis by (intro exI [of _ c]) (simp add: sd.get_put)
  qed
  moreover have "\<forall>g \<in> set gs. fst g \<le> now" using assms unfolding log_inv_def by force
  ultimately show ?thesis unfolding log_inv_def by blast
qed

lemma log_inv_grant:
  assumes "log_inv key now gs m" and "key g = k" and "fst g = now"
  shows "log_inv key now (gs @ [g]) (map_put k (map_at [] m k @ [now]) m)"
proof -
  have "\<exists>c. c \<le> now - Hour \<and> map_at [] (map_put k (map_at [] m k @ [now]) m) k'
      = filter (\<lambda>t. c < t) (times_of key k' (gs @ [g]))" for k'
  proof -
    obtain c where "c \<le> now - Hour" "map_at [] m k' = filter (\<lambda>t. c < t) (times_of key k' gs)"
      using assms(1) unfolding log_inv_def by blast
    with assms(2,3) show ?thesis by (intro exI [of _ c]) (auto simp: sd.get_put)
  qed
  moreover have "\<forall>h \<in> set (gs @ [g]). fst h \<le> now" using assms unfolding log_inv_def by auto
  ultimately show ?thesis unfolding log_inv_def by blast
qed

text \<open>The two logs of the limiter and how they count.\<close>

definition limiter_inv :: "int \<Rightarrow> int \<Rightarrow> instant \<Rightarrow> call list \<Rightarrow> limiter \<Rightarrow> bool" where
  "limiter_inv a b T gs l \<longleftrightarrow> perIdentity l = a \<and> perIdentityProfile l = b
     \<and> log_inv (\<lambda>(t, i, p). i) T gs (identity_log l)
     \<and> log_inv (\<lambda>(t, i, p). profile_key i p) T gs (profile_log l)"

abbreviation same_identity :: "string \<Rightarrow> string \<Rightarrow> string \<Rightarrow> bool" where
  "same_identity i \<equiv> \<lambda>i' p'. i' = i"

abbreviation same_key :: "string \<Rightarrow> string \<Rightarrow> string \<Rightarrow> string \<Rightarrow> bool" where
  "same_key i p \<equiv> \<lambda>i' p'. profile_key i' p' = profile_key i p"

definition within_limits :: "int \<Rightarrow> int \<Rightarrow> call list \<Rightarrow> call \<Rightarrow> bool" where
  "within_limits a b gs = (\<lambda>(now, i, p).
     (0 < a \<longrightarrow> int (granted_in (same_identity i) now gs) < a)
     \<and> (0 < b \<longrightarrow> int (granted_in (same_key i p) now gs) < b))"

lemma length_times:
  assumes "log_inv key T gs m" and "T \<le> now" and "\<And>t i p. key (t, i, p) = k \<longleftrightarrow> who i p"
  shows "length (filter (\<lambda>t. now - Hour < t) (times_of key k gs)) = granted_in who now gs"
proof -
  have "\<forall>g \<in> set gs. fst g \<le> now" using assms(1,2) unfolding log_inv_def by force
  then have "filter (\<lambda>g. key g = k \<and> now - Hour < fst g) gs
      = filter (\<lambda>(t, i, p). who i p \<and> now - Hour < t \<and> t \<le> now) gs"
  proof (intro filter_cong refl)
    fix g
    assume before: "\<forall>g \<in> set gs. fst g \<le> now" and "g \<in> set gs"
    obtain t i p where g: "g = (t, i, p)" by (cases g)
    with before \<open>g \<in> set gs\<close> have "t \<le> now" by auto
    then show "(key g = k \<and> now - Hour < fst g) = (case g of (t, i, p) \<Rightarrow> who i p \<and> now - Hour < t \<and> t \<le> now)"
      by (simp add: g assms(3))
  qed
  then show ?thesis
    by (simp add: times_of_def granted_in_def filter_map comp_def conj_commute)
qed

lemma Allow_step:
  assumes inv: "limiter_inv a b T gs l" and T: "T \<le> now"
  shows "case Allow now i p l of
      (None, l') \<Rightarrow> within_limits a b gs (now, i, p) \<and> limiter_inv a b now (gs @ [(now, i, p)]) l'
    | (Some _, l') \<Rightarrow> \<not> within_limits a b gs (now, i, p) \<and> limiter_inv a b now gs l'"
proof -
  let ?I = "filter (\<lambda>t. now - Hour < t) (times_of (\<lambda>(t, i, p). i) i gs)"
  let ?P = "filter (\<lambda>t. now - Hour < t) (times_of (\<lambda>(t, i, p). profile_key i p) (profile_key i p) gs)"
  have ident: "log_inv (\<lambda>(t, i, p). i) T gs (identity_log l)"
    and prof: "log_inv (\<lambda>(t, i, p). profile_key i p) T gs (profile_log l)"
    and lim: "perIdentity l = a" "perIdentityProfile l = b"
    using inv by (simp_all add: limiter_inv_def)
  note pruned = log_pruned [OF ident T] log_pruned [OF prof T]
  note kept = log_inv_prune [OF ident T, of i] log_inv_prune [OF prof T, of "profile_key i p"]
  have grant: "log_inv (\<lambda>(t, i, p). i) now (gs @ [(now, i, p)])
        (map_put i (?I @ [now]) (map_put i ?I (identity_log l)))"
    "log_inv (\<lambda>(t, i, p). profile_key i p) now (gs @ [(now, i, p)])
        (map_put (profile_key i p) (?P @ [now]) (map_put (profile_key i p) ?P (profile_log l)))"
    using log_inv_grant [OF kept(1), of "(now, i, p)"] log_inv_grant [OF kept(2), of "(now, i, p)"]
    by (simp_all add: sd.get_put)
  have count: "length ?I = granted_in (same_identity i) now gs" "length ?P = granted_in (same_key i p) now gs"
    using length_times [OF ident T, of i "same_identity i"]
      length_times [OF prof T, of "profile_key i p" "same_key i p"] by simp_all
  have step: "Allow now i p l =
      (let l1 = l\<lparr>identity_log := map_put i ?I (identity_log l),
                  profile_log := map_put (profile_key i p) ?P (profile_log l)\<rparr> in
       if 0 < a \<and> a \<le> int (length ?I) then (Some (IdentityLimitExceeded i), l1)
       else if 0 < b \<and> b \<le> int (length ?P) then (Some (ProfileLimitExceeded i p), l1)
       else (None, l1\<lparr>identity_log := map_put i (?I @ [now]) (identity_log l1),
                  profile_log := map_put (profile_key i p) (?P @ [now]) (profile_log l1)\<rparr>))"
    by (simp add: Allow_def prune_filter pruned sd.get_put lim Let_def)
  show ?thesis
    unfolding step within_limits_def limiter_inv_def
    using kept grant lim by (auto simp: Let_def count)
qed

section \<open>Runs\<close>

lemma run_append:
  "run l (cs @ ds) = (case run l cs of (gs, l1) \<Rightarrow> case run l1 ds of (hs, l2) \<Rightarrow> (gs @ hs, l2))"
  by (induction l cs rule: run.induct) (auto split: prod.splits option.splits)

lemma clock_ok_snoc:
  "clock_ok (cs @ [c]) \<longleftrightarrow> clock_ok cs \<and> (\<forall>d \<in> set cs. fst d \<le> fst c)"
  by (auto simp: clock_ok_def sorted_append)

text \<open>
  Along a run, started with no log at time \<open>T0\<close>, the invariant holds at the last clock reading
  and every granted call was within the limits when it was made.
\<close>

definition last_time :: "instant \<Rightarrow> call list \<Rightarrow> instant" where
  "last_time T0 cs = (if cs = [] then T0 else fst (last cs))"

definition in_windows :: "int \<Rightarrow> int \<Rightarrow> call list \<Rightarrow> bool" where
  "in_windows a b gs \<longleftrightarrow>
     (\<forall>w i. 0 < a \<longrightarrow> int (granted_in (same_identity i) w gs) \<le> a)
     \<and> (\<forall>w i p. 0 < b \<longrightarrow> int (granted_in (same_key i p) w gs) \<le> b)"

lemma granted_in_snoc:
  assumes "\<forall>g \<in> set gs. fst g \<le> now" and "int (granted_in who w gs) \<le> n"
    and "who i p \<Longrightarrow> int (granted_in who now gs) < n"
  shows "int (granted_in who w (gs @ [(now, i, p)])) \<le> n"
proof (cases "who i p \<and> w - Hour < now \<and> now \<le> w")
  case True
  have "granted_in who w gs \<le> granted_in who now gs"
    unfolding granted_in_def
  proof -
    have eq: "filter (\<lambda>(t, i, p). who i p \<and> w - Hour < t \<and> t \<le> w) gs
        = filter (\<lambda>(t, i, p). w - Hour < t \<and> t \<le> w) (filter (\<lambda>(t, i, p). who i p \<and> now - Hour < t \<and> t \<le> now) gs)"
      unfolding filter_filter
    proof (intro filter_cong refl)
      fix g
      assume "g \<in> set gs"
      obtain t i p where g: "g = (t, i, p)" by (cases g)
      with assms(1) \<open>g \<in> set gs\<close> have "t \<le> now" by auto
      with True show "(case g of (t, i, p) \<Rightarrow> who i p \<and> w - Hour < t \<and> t \<le> w) =
          ((case g of (t, i, p) \<Rightarrow> who i p \<and> now - Hour < t \<and> t \<le> now)
           \<and> (case g of (t, i, p) \<Rightarrow> w - Hour < t \<and> t \<le> w))"
        by (auto simp: g)
    qed
    show "length (filter (\<lambda>(t, i, p). who i p \<and> w - Hour < t \<and> t \<le> w) gs)
        \<le> length (filter (\<lambda>(t, i, p). who i p \<and> now - Hour < t \<and> t \<le> now) gs)"
      unfolding eq by (rule length_filter_le)
  qed
  with True assms(3) show ?thesis by (simp add: granted_in_def)
next
  case False
  with assms(2) show ?thesis by (auto simp: granted_in_def)
qed

lemma limiter_inv_New: "limiter_inv a b T [] (New a b)"
  by (simp add: limiter_inv_def New_def log_inv_empty)

lemma run_inv:
  assumes "clock_ok cs" and "run (New a b) cs = (gs, l)"
  shows "limiter_inv a b (last_time T0 cs) gs l \<and> in_windows a b gs"
  using assms
proof (induction cs arbitrary: gs l rule: rev_induct)
  case Nil
  then show ?case
    by (auto simp: limiter_inv_New in_windows_def granted_in_def)
next
  case (snoc c cs)
  obtain now i p where c: "c = (now, i, p)" by (cases c)
  obtain gs1 l1 where run: "run (New a b) cs = (gs1, l1)" by (cases "run (New a b) cs")
  have IH: "limiter_inv a b (last_time T0 cs) gs1 l1" "in_windows a b gs1"
    using snoc.IH [OF _ run] snoc.prems(1) by (simp_all add: clock_ok_snoc)
  define T where "T = (if cs = [] then now else last_time T0 cs)"
  have "limiter_inv a b T gs1 l1"
    using IH(1) run limiter_inv_New by (cases "cs = []") (auto simp: T_def)
  moreover have "T \<le> now"
    using snoc.prems(1) by (auto simp: T_def last_time_def c clock_ok_snoc)
  ultimately have T: "limiter_inv a b T gs1 l1" "T \<le> now" by blast+
  note step = Allow_step [OF T, of i p]
  have before: "\<forall>g \<in> set gs1. fst g \<le> now"
    using T by (force simp: limiter_inv_def log_inv_def)
  have last: "last_time T0 (cs @ [c]) = now" by (simp add: last_time_def c)
  have windows: "in_windows a b (gs1 @ [(now, i, p)])" if "within_limits a b gs1 (now, i, p)"
    unfolding in_windows_def
  proof (intro conjI allI impI)
    show "int (granted_in (same_identity i') w (gs1 @ [(now, i, p)])) \<le> a" if "0 < a" for w i'
      using that \<open>within_limits a b gs1 (now, i, p)\<close> IH(2)
      by (intro granted_in_snoc [OF before]) (auto simp: in_windows_def within_limits_def)
    show "int (granted_in (same_key i' p') w (gs1 @ [(now, i, p)])) \<le> b" if "0 < b" for w i' p'
      using that \<open>within_limits a b gs1 (now, i, p)\<close> IH(2)
      by (intro granted_in_snoc [OF before]) (auto simp: in_windows_def within_limits_def)
  qed
  show ?case
    using snoc.prems(2) run step windows IH(2)
    by (auto simp: run_append c last [unfolded c] split: prod.splits option.splits)
qed

lemma profile_key_inject:
  assumes "CHR 0x00 \<notin> set i" and "CHR 0x00 \<notin> set i'"
  shows "profile_key i p = profile_key i' p' \<longleftrightarrow> i = i' \<and> p = p'"
proof
  assume eq: "profile_key i p = profile_key i' p'"
  have "takeWhile (\<lambda>c. c \<noteq> CHR 0x00) (profile_key j q) = j" if "CHR 0x00 \<notin> set j" for j q
    unfolding profile_key_def using that by (subst takeWhile_append2) auto
  with eq assms have "i = i'" by metis
  with eq show "i = i' \<and> p = p'" by (simp add: profile_key_def)
qed simp

lemma run_granted_subset: "set (fst (run l cs)) \<subseteq> set cs"
  by (induction l cs rule: run.induct) (auto split: prod.splits option.splits)

lemma granted_in_pair:
  assumes "CHR 0x00 \<notin> set i" and "\<forall>(t, i', p') \<in> set gs. CHR 0x00 \<notin> set i'"
  shows "granted_in (same_key i p) w gs = granted_in (\<lambda>i' p'. i' = i \<and> p' = p) w gs"
  unfolding granted_in_def
  using assms by (intro arg_cong [where f = length] filter_cong refl) (auto simp: profile_key_inject)

section \<open>Properties\<close>

text \<open>
  \<^verbatim>\<open>prune\<close>, which overwrites the front of the array while it reads it, returns exactly the
  times after the start of the window, in their order.
\<close>

theorem prune_in_place_filters: "prune ts after = filter (\<lambda>t. after < t) ts"
  by (rule prune_filter)

text \<open>
  C20: after any history of calls on a clock that does not go back, \<^verbatim>\<open>Allow\<close> grants a call
  exactly when the calls granted in the hour before number fewer than the limit, for the
  identity and for the identity with the profile. Identities are free of the NUL byte that
  separates the two parts of a key.
\<close>

theorem limiter_decides_sliding_window:
  assumes "clock_ok (cs @ [(now, i, p)])" and "run (New a b) cs = (gs, l)"
    and "\<forall>(t, i', p') \<in> set (cs @ [(now, i, p)]). CHR 0x00 \<notin> set i'"
  shows "fst (Allow now i p l) = None \<longleftrightarrow>
     (a \<le> 0 \<or> int (granted_in (\<lambda>i' p'. i' = i) now gs) < a)
     \<and> (b \<le> 0 \<or> int (granted_in (\<lambda>i' p'. i' = i \<and> p' = p) now gs) < b)"
proof -
  have clock: "clock_ok cs" "last_time now cs \<le> now"
    using assms(1) by (auto simp: clock_ok_snoc last_time_def)
  have inv: "limiter_inv a b (last_time now cs) gs l"
    using run_inv [OF clock(1) assms(2)] by blast
  have "set gs \<subseteq> set cs" using run_granted_subset [of "New a b" cs] assms(2) by simp
  then have pair: "granted_in (same_key i p) now gs = granted_in (\<lambda>i' p'. i' = i \<and> p' = p) now gs"
    using assms(3) by (intro granted_in_pair) auto
  from Allow_step [OF inv clock(2), of i p]
  have "fst (Allow now i p l) = None \<longleftrightarrow> within_limits a b gs (now, i, p)"
    by (cases "Allow now i p l") (auto split: option.splits)
  then show ?thesis by (auto simp: within_limits_def pair)
qed

theorem limiter_decides_sliding_window_witness:
  "fst (Allow 5 ''h'' ''web'' (snd (run (New 1 0) [(0, ''h'', ''web'')]))) \<noteq> None
   \<and> fst (Allow (Hour + 5) ''h'' ''web'' (snd (run (New 1 0) [(0, ''h'', ''web'')]))) = None"
proof -
  have run: "run (New 1 0) [(0, ''h'', ''web'')] = ([(0, ''h'', ''web'')], snd (run (New 1 0) [(0, ''h'', ''web'')]))"
    by code_simp
  have "clock_ok ([(0, ''h'', ''web'')] @ [(5, ''h'', ''web'')])"
    "clock_ok ([(0, ''h'', ''web'')] @ [(Hour + 5, ''h'', ''web'')])" by code_simp+
  then show ?thesis
    using limiter_decides_sliding_window [OF _ run, of 5 "''h''" "''web''"]
      limiter_decides_sliding_window [OF _ run, of "Hour + 5" "''h''" "''web''"]
    by (simp add: granted_in_def)
qed

text \<open>
  In every window of an hour, wherever it starts, no identity is granted more calls than
  its limit, and no identity and profile together more than theirs.
\<close>

theorem limiter_bounds_every_hour:
  assumes "clock_ok cs"
  shows "(0 < a \<longrightarrow> int (granted_in (\<lambda>i' p'. i' = i) w (fst (run (New a b) cs))) \<le> a)
     \<and> (0 < b \<longrightarrow> int (granted_in (\<lambda>i' p'. i' = i \<and> p' = p) w (fst (run (New a b) cs))) \<le> b)"
proof -
  obtain gs l where run: "run (New a b) cs = (gs, l)" by (cases "run (New a b) cs")
  have "granted_in (\<lambda>i' p'. i' = i \<and> p' = p) w gs \<le> granted_in (same_key i p) w gs"
  proof -
    have eq: "filter (\<lambda>(t, i', p'). (i' = i \<and> p' = p) \<and> w - Hour < t \<and> t \<le> w) gs
        = filter (\<lambda>(t, i', p'). i' = i \<and> p' = p)
            (filter (\<lambda>(t, i', p'). same_key i p i' p' \<and> w - Hour < t \<and> t \<le> w) gs)"
      unfolding filter_filter by (intro filter_cong refl) auto
    show ?thesis unfolding granted_in_def eq by (rule length_filter_le)
  qed
  moreover have "in_windows a b gs" using run_inv [OF assms run] by blast
  then have "0 < a \<longrightarrow> int (granted_in (same_identity i) w gs) \<le> a"
    "0 < b \<longrightarrow> int (granted_in (same_key i p) w gs) \<le> b"
    by (simp_all add: in_windows_def)
  ultimately show ?thesis by (simp add: run) linarith
qed

definition example_calls :: "call list" where
  "example_calls = [(1, ''h'', ''a''), (2, ''h'', ''a''), (3, ''h'', ''b''), (4, ''h'', ''c'')]"

theorem limiter_bounds_every_hour_witness:
  "int (granted_in (\<lambda>i' p'. i' = ''h'') 9 (fst (run (New 2 1) example_calls))) \<le> 2
   \<and> fst (run (New 2 1) example_calls) = [(1, ''h'', ''a''), (3, ''h'', ''b'')]"
proof -
  have "clock_ok example_calls" by code_simp
  then have "int (granted_in (\<lambda>i' p'. i' = ''h'') 9 (fst (run (New 2 1) example_calls))) \<le> 2"
    using limiter_bounds_every_hour [of example_calls 2 "''h''" 9 1] by simp
  moreover have "fst (run (New 2 1) example_calls) = [(1, ''h'', ''a''), (3, ''h'', ''b'')]" by code_simp
  ultimately show ?thesis by blast
qed

end
