(* ===== verification/Policy_Manager.thy ===== *)
theory Policy_Manager
  imports Policy_Meaning Os
begin

text \<open>
  Loading and reloading the policy: \<^verbatim>\<open>load.go\<close> and \<^verbatim>\<open>manager.go\<close> of \<^verbatim>\<open>internal/broker/policy\<close>. Reading
  YAML is third-party code: the function that decodes the bytes of a file is the argument \<open>dec\<close>.
  \<^verbatim>\<open>Watch\<close> is a loop around a ticker; a tick is one step, with what \<^verbatim>\<open>os.Stat\<close> answers as its
  argument, and between two ticks the disk may change in any way.
\<close>

section \<open>Loading\<close>

datatype load_error = PolicyReadFailed | PolicyParseFailed | PolicyCompileFailed compile_error

type_synonym yaml_decoder = "string \<Rightarrow> policy_config option"

definition Load ::
  "crypto \<Rightarrow> yaml_decoder \<Rightarrow> instant \<Rightarrow> string \<Rightarrow> os \<Rightarrow> (load_error, compiled_policy) result \<times> os" where
  "Load cr dec now path s =
     (case os_ReadFile path s of
        (Inl _, s) \<Rightarrow> (Inl PolicyReadFailed, s)
      | (Inr data, s) \<Rightarrow>
          (case dec data of
             None \<Rightarrow> (Inl PolicyParseFailed, s)
           | Some cfg \<Rightarrow>
               (case Compile cr now cfg of
                  Inl e \<Rightarrow> (Inl (PolicyCompileFailed e), s)
                | Inr p \<Rightarrow> (Inr p, s))))"

section \<open>The manager\<close>

record manager =
  mgrPath :: string
  mgrCurrent :: "compiled_policy option"

definition Reload :: "crypto \<Rightarrow> yaml_decoder \<Rightarrow> instant \<Rightarrow> manager \<Rightarrow> os \<Rightarrow> load_error option \<times> manager \<times> os" where
  "Reload cr dec now m s =
     (case Load cr dec now (mgrPath m) s of
        (Inl e, s) \<Rightarrow> (Some e, m, s)
      | (Inr p, s) \<Rightarrow> (None, m\<lparr>mgrCurrent := Some p\<rparr>, s))"

definition NewManager :: "crypto \<Rightarrow> yaml_decoder \<Rightarrow> instant \<Rightarrow> string \<Rightarrow> os \<Rightarrow> (load_error, manager) result \<times> os" where
  "NewManager cr dec now path s =
     (case Reload cr dec now \<lparr>mgrPath = path, mgrCurrent = None\<rparr> s of
        (Some e, m, s) \<Rightarrow> (Inl e, s)
      | (None, m, s) \<Rightarrow> (Inr m, s))"

definition Current :: "manager \<Rightarrow> compiled_policy option" where
  "Current m = mgrCurrent m"

text \<open>The local variable of \<^verbatim>\<open>Watch\<close> is the modification time of the file it last looked at.\<close>

definition watch_start :: "instant option \<Rightarrow> instant" where
  "watch_start stat = (case stat of None \<Rightarrow> zero_time | Some t \<Rightarrow> t)"

definition watch_tick ::
  "crypto \<Rightarrow> yaml_decoder \<Rightarrow> instant \<Rightarrow> instant option \<Rightarrow> os \<Rightarrow> manager \<times> instant \<Rightarrow> manager \<times> instant" where
  "watch_tick cr dec now stat s = (\<lambda>(m, lastMod).
     (case stat of
        None \<Rightarrow> (m, lastMod)
      | Some t \<Rightarrow>
          if \<not> lastMod < t then (m, lastMod)
          else case Reload cr dec now m s of (e, m', s') \<Rightarrow> (m', t)))"

text \<open>A run of the watcher: at every tick a time, an answer of \<^verbatim>\<open>os.Stat\<close> and the disk of that moment.\<close>

definition watch_run ::
  "crypto \<Rightarrow> yaml_decoder \<Rightarrow> (instant \<times> instant option \<times> os) list \<Rightarrow> manager \<times> instant \<Rightarrow> manager \<times> instant" where
  "watch_run cr dec ticks = fold (\<lambda>(now, stat, s). watch_tick cr dec now stat s) ticks"

section \<open>Lemmas\<close>

lemma Load_Inr:
  "Load cr dec now path s = (Inr p, s') \<longleftrightarrow>
     s' = tick s \<and> \<not> failing s \<and> (\<exists>f cfg. map_get (files s) path = Some f \<and> dec (content f) = Some cfg
        \<and> Compile cr now cfg = Inr p)"
  by (auto simp: Load_def os_ReadFile_def split: option.splits sum.splits if_splits)

text \<open>A policy that came out of some file at some time.\<close>

definition loaded_from :: "crypto \<Rightarrow> yaml_decoder \<Rightarrow> compiled_policy \<Rightarrow> bool" where
  "loaded_from cr dec p \<longleftrightarrow> (\<exists>data cfg now. dec data = Some cfg \<and> Compile cr now cfg = Inr p)"

lemma Reload_current:
  assumes "Reload cr dec now m s = (e, m', s')"
  shows "mgrPath m' = mgrPath m \<and> (case e of
      Some _ \<Rightarrow> mgrCurrent m' = mgrCurrent m
    | None \<Rightarrow> \<exists>p. mgrCurrent m' = Some p \<and> loaded_from cr dec p)"
proof -
  obtain r s1 where L: "Load cr dec now (mgrPath m) s = (r, s1)" by (cases "Load cr dec now (mgrPath m) s")
  show ?thesis
  proof (cases r)
    case (Inl x)
    then show ?thesis using assms L by (auto simp: Reload_def)
  next
    case (Inr p)
    then have "loaded_from cr dec p" using L Load_Inr unfolding loaded_from_def by blast
    then show ?thesis using assms L Inr by (auto simp: Reload_def)
  qed
qed

lemma watch_run_current:
  assumes "\<exists>p. mgrCurrent m = Some p \<and> loaded_from cr dec p"
  shows "\<exists>p. mgrCurrent (fst (watch_run cr dec ticks (m, lastMod))) = Some p \<and> loaded_from cr dec p"
proof (induction ticks rule: rev_induct)
  case Nil
  show ?case using assms by (simp add: watch_run_def)
next
  case (snoc x ticks)
  obtain now stat s where x: "x = (now, stat, s)" by (cases x)
  obtain m1 l1 where r: "watch_run cr dec ticks (m, lastMod) = (m1, l1)" by (cases "watch_run cr dec ticks (m, lastMod)")
  obtain e m2 s2 where R: "Reload cr dec now m1 s = (e, m2, s2)" by (cases "Reload cr dec now m1 s")
  have step: "fst (watch_run cr dec (ticks @ [x]) (m, lastMod)) = m1 \<or> fst (watch_run cr dec (ticks @ [x]) (m, lastMod)) = m2"
    using r by (simp add: watch_run_def x watch_tick_def R split: option.splits)
  have m1: "\<exists>p. mgrCurrent m1 = Some p \<and> loaded_from cr dec p" using snoc r by simp
  then have "\<exists>p. mgrCurrent m2 = Some p \<and> loaded_from cr dec p"
    using Reload_current [OF R] by (cases e) auto
  with m1 step show ?case by auto
qed

section \<open>Properties\<close>


definition example_decoder :: yaml_decoder where
  "example_decoder s = (if s = ''policy'' then Some example_config else None)"

definition policy_disk :: os where
  "policy_disk = \<lparr>files = [(''/policy.yaml'', \<lparr>content = ''policy'', mode = 420\<rparr>)], calls = 0, faults = (\<lambda>_. False),
     short = (\<lambda>_. 0), temp_suffix = (\<lambda>_. []), history = []\<rparr>"

lemma example_manager:
  "NewManager example_crypto example_decoder 0 ''/policy.yaml'' policy_disk =
     (Inr \<lparr>mgrPath = ''/policy.yaml'', mgrCurrent = Some (compiled_policy_of example_crypto 0 example_config)\<rparr>,
      tick policy_disk)"
proof -
  have "Compile example_crypto 0 example_config = Inr (compiled_policy_of example_crypto 0 example_config)"
    using Compile_Inr [OF example_config_ok(1)] example_config_ok(2) by blast
  then show ?thesis
    by (simp add: NewManager_def Reload_def Load_def os_ReadFile_def failing_def policy_disk_def example_decoder_def)
qed


text \<open>
  A reload that fails is not repeated. The watcher remembers the modification time before it
  reads the file, so after a failure the old policy stays in force, however readable the file
  has become, until it is modified again.
\<close>

theorem failed_reload_is_not_retried:
  assumes "lastMod < t" and "Reload cr dec now m s = (Some e, m', s')"
    and "\<forall>(now', stat, s'') \<in> set ticks. stat = None \<or> (\<exists>t'. stat = Some t' \<and> t' \<le> t)"
  shows "watch_run cr dec ((now, Some t, s) # ticks) (m, lastMod) = (m, t)"
proof -
  have "watch_tick cr dec now (Some t) s (m, lastMod) = (m, t)"
    using assms(1,2) Reload_current [OF assms(2)] by (auto simp: watch_tick_def Reload_def split: prod.splits sum.splits)
  moreover have "watch_run cr dec ticks (m, t) = (m, t)"
    using assms(3)
  proof (induction ticks)
    case (Cons x ticks)
    then have "watch_tick cr dec (fst x) (fst (snd x)) (snd (snd x)) (m, t) = (m, t)"
      by (cases x) (auto simp: watch_tick_def)
    with Cons show ?case by (cases x) (simp add: watch_run_def)
  qed (simp add: watch_run_def)
  ultimately show ?thesis by (simp add: watch_run_def)
qed

theorem failed_reload_is_not_retried_witness:
  "watch_run example_crypto example_decoder
     [(1, Some 7, policy_disk\<lparr>faults := (\<lambda>_. True)\<rparr>), (2, Some 7, policy_disk), (3, Some 7, policy_disk)]
     (\<lparr>mgrPath = ''/policy.yaml'', mgrCurrent = None\<rparr>, 3)
   = (\<lparr>mgrPath = ''/policy.yaml'', mgrCurrent = None\<rparr>, 7)"
proof -
  let ?s = "policy_disk\<lparr>faults := (\<lambda>_. True)\<rparr>" and ?m = "\<lparr>mgrPath = ''/policy.yaml'', mgrCurrent = None\<rparr>"
  have "Reload example_crypto example_decoder 1 ?m ?s = (Some PolicyReadFailed, ?m, tick ?s)"
    by (simp add: Reload_def Load_def os_ReadFile_def failing_def)
  from failed_reload_is_not_retried [OF _ this, of 3 7 "[(2, Some 7, policy_disk), (3, Some 7, policy_disk)]"]
  show ?thesis by simp
qed

end
