(* ===== verification/Broker.thy ===== *)
theory Broker
  imports Authn Acme Store Ratelimit Policy_Manager
begin

text \<open>
  Package \<^verbatim>\<open>internal/broker\<close>: the HTTP handlers of the broker. A handler is a function of the server,
  the request and the state, and returns a response and the new state. The state is the rate
  limiter and a world \<open>'w\<close> of everything the server calls: the store, the issuer and the
  recorder are records of operations on it, as the Go interfaces are. The clock, the random
  identifiers, \<^verbatim>\<open>singleflight\<close>, decoding JSON and the texts of error messages are operations of the
  record \<open>broker_env\<close>.

  Every step of \<^verbatim>\<open>issueCertificate\<close> either writes a response and stops, \<open>Inl\<close>, or goes on with the
  context it has filled in, \<open>Inr\<close>.
\<close>

section \<open>Requests, responses and errors\<close>

datatype broker_error =
    AuthnError authn_error
  | BodyTooLarge
  | BodyReadFailed
  | BodyNotJSON
  | FieldsRequired
  | CSRError pki_error
  | PolicyNotLoaded
  | PolicyError authorize_error
  | RateError rate_error
  | StoreError store_error
  | IssuerError issuer_error
  | UnexpectedFlightResult
  | NamesError dns_error

record issue_request =
  iqProfile :: string
  iqCSRPEM :: string

record issue_response =
  irspCertPEM :: string
  irspChainPEM :: string
  irspFullChainPEM :: string
  irspSerialNumber :: string
  irspNotBefore :: string
  irspNotAfter :: string
  irspCache :: string

record issued_result =
  irBundle :: cert_bundle
  irCache :: string

record request_context =
  cRequestID :: string
  cRequest :: http_request
  cIdentity :: string
  cProfileName :: string
  cPolicy :: "compiled_policy option"
  cProfile :: "compiled_profile option"
  cCSR :: "certificate_request option"
  cCSRPEM :: string
  cPublicKeyFP :: string

record http_response =
  respStatus :: nat
  respBody :: string

definition newIssueResponse :: "issued_result \<Rightarrow> issue_response" where
  "newIssueResponse result =
     (let b = irBundle result in
      \<lparr>irspCertPEM = CertPEM b, irspChainPEM = ChainPEM b, irspFullChainPEM = FullChainPEM b,
       irspSerialNumber = LeafSerialNumber b, irspNotBefore = format_rfc3339 (bundleNotBefore b),
       irspNotAfter = format_rfc3339 (bundleNotAfter b), irspCache = irCache result\<rparr>)"

definition issue_response_json :: "issue_response \<Rightarrow> string" where
  "issue_response_json r = ''{'' @ Join
     (str_member ''cert_pem'' (irspCertPEM r) @ str_member ''chain_pem'' (irspChainPEM r)
      @ str_member ''fullchain_pem'' (irspFullChainPEM r) @ str_member ''serial_number'' (irspSerialNumber r)
      @ str_member ''not_before'' (irspNotBefore r) @ str_member ''not_after'' (irspNotAfter r)
      @ str_member ''cache'' (irspCache r)) '','' @ ''}''"

text \<open>\<^verbatim>\<open>writeJSON\<close> on a value with a given JSON text; the encoder ends it with a newline.\<close>

definition writeJSON :: "nat \<Rightarrow> string \<Rightarrow> http_response" where
  "writeJSON status json = \<lparr>respStatus = status, respBody = json @ [CHR 0x0A]\<rparr>"

definition writeError :: "nat \<Rightarrow> string \<Rightarrow> http_response" where
  "writeError status message = writeJSON status (''{'' @ member_text ''error'' (json_string message) @ ''}'')"

text \<open>
  The host of \<^verbatim>\<open>net.SplitHostPort\<close>. \<open>i\<close> is the position of the last colon; an address in square
  brackets must be followed by it.
\<close>

definition index_byte :: "string \<Rightarrow> char \<Rightarrow> nat option" where
  "index_byte s c = (let n = length (takeWhile (\<lambda>d. d \<noteq> c) s) in if n < length s then Some n else None)"

definition last_index_byte :: "string \<Rightarrow> char \<Rightarrow> nat option" where
  "last_index_byte s c = map_option (\<lambda>n. length s - Suc n) (index_byte (rev s) c)"

definition SplitHostPort :: "string \<Rightarrow> string option" where
  "SplitHostPort hostport =
     (case last_index_byte hostport (CHR '':'') of
        None \<Rightarrow> None
      | Some i \<Rightarrow>
          (case (if HasPrefix hostport ''['' then
                   (case index_byte hostport (CHR '']'') of
                      None \<Rightarrow> None
                    | Some e \<Rightarrow> if Suc e = i then Some (take (e - 1) (drop 1 hostport), 1, Suc e) else None)
                 else if CHR '':'' \<in> set (take i hostport) then None
                 else Some (take i hostport, 0, 0)) of
             None \<Rightarrow> None
           | Some (host, j, k) \<Rightarrow>
               if CHR ''['' \<in> set (drop j hostport) \<or> CHR '']'' \<in> set (drop k hostport) then None
               else Some host))"

definition sourceIP :: "http_request \<Rightarrow> string" where
  "sourceIP r = (case SplitHostPort (reqRemoteAddr r) of Some host \<Rightarrow> host | None \<Rightarrow> reqRemoteAddr r)"

section \<open>The server\<close>

text \<open>\<^verbatim>\<open>singleflight.Group.Do\<close> returns a value of any type.\<close>

datatype flight_value = Issued issued_result | OtherValue

record 'w broker_env =
  envCrypto :: crypto
  envNow :: "'w \<Rightarrow> instant \<times> 'w"
  envUlid :: "instant \<Rightarrow> 'w \<Rightarrow> string option \<times> 'w"
  envUnmarshal :: "string \<Rightarrow> issue_request option"
  envErrText :: "broker_error \<Rightarrow> string"
  envFlight :: "string \<Rightarrow> ('w \<Rightarrow> (broker_error, flight_value) result \<times> 'w) \<Rightarrow> 'w \<Rightarrow> (broker_error, flight_value) result \<times> 'w"

record 'w store_iface =
  sifGet :: "cache_key \<Rightarrow> duration \<Rightarrow> 'w \<Rightarrow> (store_error, cert_bundle) result \<times> 'w"
  sifPut :: "cache_key \<Rightarrow> cert_bundle \<Rightarrow> 'w \<Rightarrow> store_error option \<times> 'w"

record 'w server =
  srvConfig :: broker_config
  srvPolicy :: manager
  srvStore :: "'w store_iface"
  srvIssuer :: "'w issuer_iface"
  srvAudit :: "'w recorder option"
  srvFailureMode :: string
  srvEnv :: "'w broker_env"

record 'w broker_state =
  bsLimiter :: limiter
  bsWorld :: 'w

definition NewServer ::
  "'w broker_env \<Rightarrow> broker_config \<Rightarrow> manager \<Rightarrow> 'w store_iface \<Rightarrow> 'w issuer_iface \<Rightarrow> 'w recorder option
   \<Rightarrow> 'w server \<times> limiter" where
  "NewServer env cfg pm st iss rec =
     (\<lparr>srvConfig = cfg, srvPolicy = pm, srvStore = st, srvIssuer = iss, srvAudit = rec,
       srvFailureMode = auFailureMode (bcAudit cfg), srvEnv = env\<rparr>,
      New (bcPerIdentityPerHour cfg) (bcPerIdentityProfilePerHour cfg))"

section \<open>Audit events\<close>

definition NewID :: "'w broker_env \<Rightarrow> string \<Rightarrow> 'w \<Rightarrow> string option \<times> 'w" where
  "NewID env prefix w =
     (case envNow env w of (now, w) \<Rightarrow>
        (case envUlid env now w of
           (None, w) \<Rightarrow> (None, w)
         | (Some ulid, w) \<Rightarrow> (Some (prefix @ ToLower ulid), w)))"

definition zero_event :: event where
  "zero_event = \<lparr>EventID = [], RequestID = [], Timestamp = zero_time, evType = [], evSeverity = [], evDecision = [],
     evIdentity = [], evProfileName = [], evProfileHash = [], evPolicyHash = [], ReasonCode = [], evReason = [],
     evError = [], SourceIP = [], UserAgent = [], CSRSHA256 = [], CSRPublicKeySHA256 = [], evCSRDNSNames = None,
     ExpectedDNSNames = None, evIssuerName = [], evIssuerDirectory = [], ACMEOrderURL = [], CertSerialNumber = [],
     evCertNotBefore = None, evCertNotAfter = None, CacheResult = [], Metadata = []\<rparr>"

record audit_base =
  abRequestID :: string
  abType :: event_type
  abSeverity :: severity
  abDecision :: decision
  abReason :: string
  abIdentity :: string
  abProfile :: string
  abError :: "broker_error option"
  abRequest :: "http_request option"

definition id_or_empty :: "string option \<Rightarrow> string" where
  "id_or_empty i = (case i of None \<Rightarrow> [] | Some s \<Rightarrow> s)"

definition newAuditEvent :: "'w broker_env \<Rightarrow> audit_base \<Rightarrow> 'w \<Rightarrow> event \<times> 'w" where
  "newAuditEvent env base w =
     (case NewID env ''evt_'' w of (eventID, w) \<Rightarrow>
        (case envNow env w of (now, w) \<Rightarrow>
           (let ev = zero_event\<lparr>EventID := id_or_empty eventID, RequestID := abRequestID base, Timestamp := now,
                  evType := abType base, evSeverity := abSeverity base, evDecision := abDecision base,
                  ReasonCode := abReason base, evIdentity := abIdentity base, evProfileName := abProfile base\<rparr>;
                ev = (case abError base of None \<Rightarrow> ev
                      | Some err \<Rightarrow> ev\<lparr>evReason := envErrText env err, evError := envErrText env err\<rparr>);
                ev = (case abRequest base of None \<Rightarrow> ev
                      | Some r \<Rightarrow> ev\<lparr>SourceIP := sourceIP r, UserAgent := reqUserAgent r\<rparr>)
            in (ev, w))))"

definition withMetadata :: "string strmap \<Rightarrow> string \<Rightarrow> string \<Rightarrow> string strmap" where
  "withMetadata metadata key val = map_put key val metadata"

text \<open>What \<^verbatim>\<open>auditEvent\<close> adds from the context.\<close>

definition context_fields :: "'w broker_env \<Rightarrow> request_context \<Rightarrow> event \<Rightarrow> event" where
  "context_fields env c ev =
     (let ev = (case cPolicy c of None \<Rightarrow> ev | Some p \<Rightarrow> ev\<lparr>evPolicyHash := polHash p\<rparr>);
          ev = (case cProfile c of None \<Rightarrow> ev
                | Some p \<Rightarrow> ev\<lparr>evProfileHash := profHash p,
                    ExpectedDNSNames := (if profDNSNames p = [] then None else Some (profDNSNames p))\<rparr>);
          ev = (if cCSRPEM c \<noteq> [] then ev\<lparr>CSRSHA256 := CSRFingerprint (envCrypto env) (cCSRPEM c)\<rparr> else ev);
          ev = (if cPublicKeyFP c \<noteq> [] then ev\<lparr>CSRPublicKeySHA256 := cPublicKeyFP c\<rparr> else ev)
      in case cCSR c of
           None \<Rightarrow> ev
         | Some csr \<Rightarrow>
             (case CanonicalList (csrDNSNames csr) of
                Inl e \<Rightarrow> ev\<lparr>Metadata := withMetadata (Metadata ev) ''csr_dns_names_error'' (envErrText env (NamesError e))\<rparr>
              | Inr names \<Rightarrow> ev\<lparr>evCSRDNSNames := Some names\<rparr>))"

definition auditEvent ::
  "'w server \<Rightarrow> request_context \<Rightarrow> event_type \<Rightarrow> severity \<Rightarrow> decision \<Rightarrow> string \<Rightarrow> broker_error option \<Rightarrow> 'w \<Rightarrow> event \<times> 'w" where
  "auditEvent s c typ severity decision reasonCode err w =
     (case newAuditEvent (srvEnv s)
             \<lparr>abRequestID = cRequestID c, abType = typ, abSeverity = severity, abDecision = decision,
              abReason = reasonCode, abIdentity = cIdentity c, abProfile = cProfileName c, abError = err,
              abRequest = Some (cRequest c)\<rparr> w of
        (ev, w) \<Rightarrow> (context_fields (srvEnv s) c ev, w))"

definition issuedEvent :: "'w server \<Rightarrow> request_context \<Rightarrow> issued_result \<Rightarrow> 'w \<Rightarrow> event \<times> 'w" where
  "issuedEvent s c issued w =
     (let hit = (irCache issued = ''hit'');
          eventType = (if hit then EventCertificateCacheHit else EventCertificateIssued);
          decision = (if hit then DecisionCacheHit else DecisionIssue);
          reason = (if hit then ReasonCacheHit else ReasonCacheMiss);
          b = irBundle issued in
      case auditEvent s c eventType SeverityInfo decision reason None w of
        (ev, w) \<Rightarrow>
          (ev\<lparr>evIssuerName := issName (srvIssuer s), evIssuerDirectory := issDirectory (srvIssuer s),
              CertSerialNumber := LeafSerialNumber b, evCertNotBefore := Some (bundleNotBefore b),
              evCertNotAfter := Some (bundleNotAfter b), CacheResult := irCache issued\<rparr>, w))"

definition normalizeAuditEvent :: "'w broker_env \<Rightarrow> event \<Rightarrow> 'w \<Rightarrow> event \<times> 'w" where
  "normalizeAuditEvent env ev w =
     (case (if EventID ev = [] then (case NewID env ''evt_'' w of (i, w) \<Rightarrow> (ev\<lparr>EventID := id_or_empty i\<rparr>, w)) else (ev, w)) of
        (ev, w) \<Rightarrow>
     (case (if RequestID ev = [] then (case NewID env ''req_'' w of (i, w) \<Rightarrow> (ev\<lparr>RequestID := id_or_empty i\<rparr>, w)) else (ev, w)) of
        (ev, w) \<Rightarrow>
     (if Timestamp ev = zero_time then (case envNow env w of (now, w) \<Rightarrow> (ev\<lparr>Timestamp := now\<rparr>, w)) else (ev, w))))"

definition record_event :: "'w server \<Rightarrow> event \<Rightarrow> 'w \<Rightarrow> audit_error option \<times> 'w" where
  "record_event s ev w =
     (case normalizeAuditEvent (srvEnv s) ev w of (ev, w) \<Rightarrow>
        (case srvAudit s of None \<Rightarrow> (None, w) | Some rec \<Rightarrow> rec ev w))"

definition auditBarrier :: "'w server \<Rightarrow> event \<Rightarrow> 'w \<Rightarrow> audit_error option \<times> 'w" where
  "auditBarrier s ev w =
     (case record_event s ev w of
        (Some e, w) \<Rightarrow> (if srvFailureMode s = ''fail_closed'' then Some e else None, w)
      | (None, w) \<Rightarrow> (None, w))"

text \<open>
  \<^verbatim>\<open>event := ...; _ = s.record(ctx, event)\<close>: an event that is recorded if possible.
\<close>

definition audit_note ::
  "'w server \<Rightarrow> request_context \<Rightarrow> event_type \<Rightarrow> severity \<Rightarrow> decision \<Rightarrow> string \<Rightarrow> broker_error option \<Rightarrow> 'w \<Rightarrow> 'w" where
  "audit_note s c typ severity decision reasonCode err w =
     (case auditEvent s c typ severity decision reasonCode err w of (ev, w) \<Rightarrow> snd (record_event s ev w))"

section \<open>The steps of \<^verbatim>\<open>issueCertificate\<close>\<close>

definition maxIssueRequestBodyBytes :: nat where
  "maxIssueRequestBodyBytes = 64 * 1024"

text \<open>\<^verbatim>\<open>io.ReadAll\<close> of the body behind \<^verbatim>\<open>http.MaxBytesReader\<close>.\<close>

definition read_body :: "http_request \<Rightarrow> (broker_error, string) result" where
  "read_body r =
     (if maxIssueRequestBodyBytes < length (reqBody r) then Inl BodyTooLarge
      else if reqBodyError r then Inl BodyReadFailed else Inr (reqBody r))"

lemma read_body_code [code]:
  "read_body r =
     (if 65536 < int (length (reqBody r)) then Inl BodyTooLarge
      else if reqBodyError r then Inl BodyReadFailed else Inr (reqBody r))"
  by (simp add: read_body_def maxIssueRequestBodyBytes_def)

type_synonym 'w step = "request_context \<Rightarrow> 'w broker_state \<Rightarrow> (http_response, request_context) result \<times> 'w broker_state"

definition on_world :: "('w \<Rightarrow> 'r \<times> 'w) \<Rightarrow> 'w broker_state \<Rightarrow> 'r \<times> 'w broker_state" where
  "on_world f st = (case f (bsWorld st) of (r, w) \<Rightarrow> (r, st\<lparr>bsWorld := w\<rparr>))"

definition authenticateIssueRequest :: "'w server \<Rightarrow> 'w step" where
  "authenticateIssueRequest s c = on_world (\<lambda>w.
     (case envNow (srvEnv s) w of (now, w) \<Rightarrow>
        (case IdentityFromRequest now (cRequest c) of
           Inl e \<Rightarrow>
             (Inl (writeError 401 ''unauthorized''),
              audit_note s c EventCertificateDenied SeverityWarn DecisionDeny ReasonInvalidClientCertificate (Some (AuthnError e)) w)
         | Inr identity \<Rightarrow>
             (let c = c\<lparr>cIdentity := identity\<rparr> in
              (Inr c, audit_note s c EventCertificateRequestReceived SeverityInfo DecisionAllow ReasonOK None w)))))"

definition denyBadRequest ::
  "'w server \<Rightarrow> request_context \<Rightarrow> string \<Rightarrow> broker_error \<Rightarrow> string \<Rightarrow> 'w \<Rightarrow> (http_response, 'r) result \<times> 'w" where
  "denyBadRequest s c reason err message w =
     (Inl (writeError 400 message), audit_note s c EventCertificateDenied SeverityWarn DecisionDeny reason (Some err) w)"

definition parseIssueRequest :: "'w server \<Rightarrow> 'w step" where
  "parseIssueRequest s c = on_world (\<lambda>w.
     (case read_body (cRequest c) of
        Inl e \<Rightarrow> denyBadRequest s c ReasonInvalidRequest e ''invalid request'' w
      | Inr body \<Rightarrow>
          (case envUnmarshal (srvEnv s) body of
             None \<Rightarrow> denyBadRequest s c ReasonInvalidRequest BodyNotJSON ''invalid request'' w
           | Some req \<Rightarrow>
               if iqProfile req = [] \<or> iqCSRPEM req = [] then
                 denyBadRequest s (c\<lparr>cProfileName := iqProfile req\<rparr>) ReasonInvalidRequest FieldsRequired ''invalid request'' w
               else
                 let c = c\<lparr>cProfileName := iqProfile req, cCSRPEM := iqCSRPEM req\<rparr> in
                 (case ParseCSRPEM (envCrypto (srvEnv s)) (iqCSRPEM req) of
                    Inl e \<Rightarrow> denyBadRequest s c ReasonInvalidCSR (CSRError e) ''invalid csr'' w
                  | Inr csr \<Rightarrow> (Inr (c\<lparr>cCSR := Some csr\<rparr>), w)))))"

definition auditReasonForPolicyError :: "authorize_error \<Rightarrow> string" where
  "auditReasonForPolicyError err =
     (case err of
        ErrUnknownIdentity \<Rightarrow> ReasonUnknownIdentity
      | ErrUnknownProfile \<Rightarrow> ReasonUnknownProfile
      | ErrCSRNamesMismatch \<Rightarrow> ReasonCSRNamesMismatch
      | ErrInvalidCSR _ \<Rightarrow> ReasonInvalidCSR
      | ErrProfileNotAllowed \<Rightarrow> ReasonProfileNotAllowed)"

definition authorizeIssueRequest :: "'w server \<Rightarrow> 'w step" where
  "authorizeIssueRequest s c = on_world (\<lambda>w.
     (case Current (srvPolicy s) of
        None \<Rightarrow>
          (Inl (writeError 503 ''policy not loaded''),
           audit_note s c EventCertificateIssueFailed SeverityError DecisionError ReasonIssuerFailed (Some PolicyNotLoaded) w)
      | Some pol \<Rightarrow>
          (let c = c\<lparr>cPolicy := Some pol\<rparr> in
           case Authorize pol (cIdentity c) (cProfileName c) (cCSR c) of
             (profile, None) \<Rightarrow> (Inr (c\<lparr>cProfile := profile\<rparr>), w)
           | (profile, Some err) \<Rightarrow>
               (let c = (if profile \<noteq> None then c\<lparr>cProfile := profile\<rparr> else c) in
                (Inl (writeError 403 ''forbidden''),
                 audit_note s c EventCertificateDenied SeverityWarn DecisionDeny (auditReasonForPolicyError err)
                   (Some (PolicyError err)) w)))))"

text \<open>The request of the context is there whenever this step runs; a nil pointer would panic.\<close>

definition attachPublicKeyFingerprint :: "'w server \<Rightarrow> 'w step" where
  "attachPublicKeyFingerprint s c = on_world (\<lambda>w.
     (case PublicKeyFingerprint (envCrypto (srvEnv s)) (case cCSR c of Some csr \<Rightarrow> csrPublicKey csr | None \<Rightarrow> []) of
        Inl e \<Rightarrow> denyBadRequest s c ReasonInvalidCSR (CSRError e) ''invalid csr'' w
      | Inr fingerprint \<Rightarrow> (Inr (c\<lparr>cPublicKeyFP := fingerprint\<rparr>), w)))"

definition recordAuthorizedIssue :: "'w server \<Rightarrow> 'w step" where
  "recordAuthorizedIssue s c = on_world (\<lambda>w.
     (case auditEvent s c EventCertificateAuthorized SeverityInfo DecisionAllow ReasonOK None w of (ev, w) \<Rightarrow>
        (case auditBarrier s ev w of
           (Some e, w) \<Rightarrow> (Inl (writeError 503 ''audit unavailable''), w)
         | (None, w) \<Rightarrow> (Inr c, w))))"

definition checkIssueRateLimit :: "'w server \<Rightarrow> 'w step" where
  "checkIssueRateLimit s c st =
     (case on_world (envNow (srvEnv s)) st of (now, st) \<Rightarrow>
        (case Allow now (cIdentity c) (cProfileName c) (bsLimiter st) of
           (None, l) \<Rightarrow> (Inr c, st\<lparr>bsLimiter := l\<rparr>)
         | (Some err, l) \<Rightarrow>
             on_world (\<lambda>w. (Inl (writeError 429 ''rate limited''),
                audit_note s c EventCertificateDenied SeverityWarn DecisionDeny ReasonRateLimited (Some (RateError err)) w))
               (st\<lparr>bsLimiter := l\<rparr>)))"

definition server_cacheKey :: "'w server \<Rightarrow> string \<Rightarrow> string \<Rightarrow> compiled_profile \<Rightarrow> string \<Rightarrow> cache_key" where
  "server_cacheKey s identity profileName profile publicKeyFP =
     \<lparr>keyIdentity = identity, keyProfileName = profileName, keyProfileHash = profHash profile,
      keyPublicKeySHA256 = publicKeyFP, keyIssuerName = issName (srvIssuer s),
      keyIssuerDirectory = issDirectory (srvIssuer s), keyIssuerAccountKeyID = issAccountKeyID (srvIssuer s)\<rparr>"

definition issueOrLoad ::
  "'w server \<Rightarrow> cache_key \<Rightarrow> compiled_profile \<Rightarrow> string \<Rightarrow> 'w \<Rightarrow> (broker_error, issued_result) result \<times> 'w" where
  "issueOrLoad s key profile csrPEM w =
     (case sifGet (srvStore s) key (profRenewBefore profile) w of
        (Inr bdl, w) \<Rightarrow> (Inr \<lparr>irBundle = bdl, irCache = ''hit''\<rparr>, w)
      | (Inl err, w) \<Rightarrow>
          if err \<noteq> ErrCacheMiss then (Inl (StoreError err), w)
          else case issIssue (srvIssuer s)
                      \<lparr>irProfileName = profName profile, irDNSNames = profDNSNames profile, irCSRPEM = csrPEM,
                       irACMEChallenge = Challenge (profACME profile), irACMECredentialsName = Credentials (profACME profile)\<rparr> w of
            (Inl err, w) \<Rightarrow> (Inl (IssuerError err), w)
          | (Inr bdl, w) \<Rightarrow>
              (case sifPut (srvStore s) key bdl w of
                 (Some err, w) \<Rightarrow> (Inl (StoreError err), w)
               | (None, w) \<Rightarrow> (Inr \<lparr>irBundle = bdl, irCache = ''miss''\<rparr>, w)))"

text \<open>The closure that \<^verbatim>\<open>Do\<close> runs: the result becomes a value of any type.\<close>

definition flight_call ::
  "'w server \<Rightarrow> cache_key \<Rightarrow> compiled_profile \<Rightarrow> string \<Rightarrow> 'w \<Rightarrow> (broker_error, flight_value) result \<times> 'w" where
  "flight_call s key profile csrPEM w =
     (case issueOrLoad s key profile csrPEM w of
        (Inl e, w) \<Rightarrow> (Inl e, w)
      | (Inr issued, w) \<Rightarrow> (Inr (Issued issued), w))"

definition issueOrLoadWithSingleflight ::
  "'w server \<Rightarrow> request_context \<Rightarrow> compiled_profile \<Rightarrow> cache_key \<Rightarrow> 'w broker_state
   \<Rightarrow> (http_response, issued_result) result \<times> 'w broker_state" where
  "issueOrLoadWithSingleflight s c profile key = on_world (\<lambda>w.
     (case envFlight (srvEnv s) (CertificateCacheKey_String key) (flight_call s key profile (cCSRPEM c)) w of
        (Inl err, w) \<Rightarrow>
          (Inl (writeError 502 ''issuance failed''),
           audit_note s c EventCertificateIssueFailed SeverityError DecisionError ReasonIssuerFailed (Some err) w)
      | (Inr OtherValue, w) \<Rightarrow>
          (Inl (writeError 500 ''internal error''),
           audit_note s c EventCertificateIssueFailed SeverityError DecisionError ReasonIssuerFailed (Some UnexpectedFlightResult) w)
      | (Inr (Issued issued), w) \<Rightarrow> (Inr issued, w)))"

definition recordIssuedResult ::
  "'w server \<Rightarrow> request_context \<Rightarrow> issued_result \<Rightarrow> 'w broker_state \<Rightarrow> (http_response, unit) result \<times> 'w broker_state" where
  "recordIssuedResult s c issued = on_world (\<lambda>w.
     (case issuedEvent s c issued w of (ev, w) \<Rightarrow>
        (case auditBarrier s ev w of
           (Some e, w) \<Rightarrow> (Inl (writeError 503 ''audit unavailable''), w)
         | (None, w) \<Rightarrow> (Inr (), w))))"

section \<open>The handlers\<close>

text \<open>The next step runs when the one before went on.\<close>

definition and_then ::
  "(http_response, 'a) result \<times> 's \<Rightarrow> ('a \<Rightarrow> 's \<Rightarrow> (http_response, 'b) result \<times> 's) \<Rightarrow> (http_response, 'b) result \<times> 's" where
  "and_then r k = (case r of (Inl resp, st) \<Rightarrow> (Inl resp, st) | (Inr x, st) \<Rightarrow> k x st)"

text \<open>The checks before the certificate is fetched, and what follows them.\<close>

definition admit :: "'w server \<Rightarrow> 'w step" where
  "admit s c st =
     and_then (and_then (and_then (and_then (and_then (authenticateIssueRequest s c st)
       (parseIssueRequest s)) (authorizeIssueRequest s)) (attachPublicKeyFingerprint s))
       (recordAuthorizedIssue s)) (checkIssueRateLimit s)"

definition fulfil ::
  "'w server \<Rightarrow> request_context \<Rightarrow> 'w broker_state \<Rightarrow> (http_response, issued_result) result \<times> 'w broker_state" where
  "fulfil s c st =
     (let profile = (case cProfile c of Some p \<Rightarrow> p | None \<Rightarrow> zero_compiled_profile);
          key = server_cacheKey s (cIdentity c) (cProfileName c) profile (cPublicKeyFP c) in
      and_then (issueOrLoadWithSingleflight s c profile key st) (\<lambda>issued st.
      and_then (recordIssuedResult s c issued st) (\<lambda>_ st. (Inr issued, st))))"

definition new_context :: "string \<Rightarrow> http_request \<Rightarrow> request_context" where
  "new_context requestID r =
     \<lparr>cRequestID = requestID, cRequest = r, cIdentity = [], cProfileName = [], cPolicy = None, cProfile = None,
      cCSR = None, cCSRPEM = [], cPublicKeyFP = []\<rparr>"

definition issueCertificate :: "'w server \<Rightarrow> http_request \<Rightarrow> 'w broker_state \<Rightarrow> http_response \<times> 'w broker_state" where
  "issueCertificate s r st =
     (case on_world (NewID (srvEnv s) ''req_'') st of
        (None, st) \<Rightarrow> (writeError 500 ''internal error'', st)
      | (Some requestID, st) \<Rightarrow>
          (case and_then (admit s (new_context requestID r) st) (fulfil s) of
             (Inl resp, st) \<Rightarrow> (resp, st)
           | (Inr issued, st) \<Rightarrow> (writeJSON 200 (issue_response_json (newIssueResponse issued)), st)))"

definition healthz :: "http_response" where
  "healthz = \<lparr>respStatus = 200, respBody = ''ok'' @ [CHR 0x0A]\<rparr>"

definition readyz :: "'w server \<Rightarrow> http_response" where
  "readyz s =
     (if Current (srvPolicy s) = None then \<lparr>respStatus = 503, respBody = ''policy not loaded'' @ [CHR 0x0A]\<rparr>
      else \<lparr>respStatus = 200, respBody = ''ready'' @ [CHR 0x0A]\<rparr>)"

end
