(* ===== verification/Agent.thy ===== *)
theory Agent
  imports Stepca Broker
begin

text \<open>
  Package \<^verbatim>\<open>internal/agent\<close> and the assembly in \<^verbatim>\<open>cmd/agent\<close>: the agent keeps the service certificates
  of its host and its own identity up to date. Its world has the disk, the clock, the keys the
  random source gives, and the network behind the broker client and the identity authority. What
  the shell does is a parameter, as are the transport, the JSON decoder and the TLS parsers.
\<close>

section \<open>The world of the agent\<close>

record 'n agent_world =
  awOs :: os
  awClock :: instant
  awSteps :: "nat \<Rightarrow> nat"
  awReads :: nat
  awKeys :: "nat \<Rightarrow> private_key option"
  awDraws :: nat
  awNet :: 'n

definition on_disk :: "(os \<Rightarrow> 'r \<times> os) \<Rightarrow> 'n agent_world \<Rightarrow> 'r \<times> 'n agent_world" where
  "on_disk f w = (case f (awOs w) of (r, s) \<Rightarrow> (r, w\<lparr>awOs := s\<rparr>))"

definition on_net :: "('n \<Rightarrow> 'r \<times> 'n) \<Rightarrow> 'n agent_world \<Rightarrow> 'r \<times> 'n agent_world" where
  "on_net f w = (case f (awNet w) of (r, n) \<Rightarrow> (r, w\<lparr>awNet := n\<rparr>))"

definition agent_now :: "'n agent_world \<Rightarrow> instant \<times> 'n agent_world" where
  "agent_now w = (let t = awClock w + int (awSteps w (awReads w)) in (t, w\<lparr>awClock := t, awReads := Suc (awReads w)\<rparr>))"

definition agent_key :: "'n agent_world \<Rightarrow> private_key option \<times> 'n agent_world" where
  "agent_key w = (awKeys w (awDraws w), w\<lparr>awDraws := Suc (awDraws w)\<rparr>)"

section \<open>The broker client\<close>

text \<open>The client: base URL, timeout, the identity key pair and the CA bundle, as PEM texts.\<close>

record broker_client =
  bclURL :: string
  bclTimeout :: duration
  bclCertPEM :: string
  bclKeyPEM :: string
  bclRootCAs :: string

record http_answer =
  ansStatus :: int
  ansBody :: string
  ansReadError :: bool

record shell_outcome =
  shOutput :: string
  shFailed :: bool
  shTimedOut :: bool

text \<open>
  \<open>aeDo\<close> sends a POST request with a JSON body; \<open>None\<close> means that no answer came. \<open>aeRequestOK\<close> tells
  whether \<^verbatim>\<open>http.NewRequestWithContext\<close> accepts a URL.
\<close>

record 'n agent_env =
  aeCrypto :: crypto
  aeKeyPair :: "string \<Rightarrow> string \<Rightarrow> bool"
  aeAppendCerts :: "string \<Rightarrow> bool"
  aeRequestOK :: "string \<Rightarrow> bool"
  aeDo :: "broker_client \<Rightarrow> string \<Rightarrow> string \<Rightarrow> 'n \<Rightarrow> http_answer option \<times> 'n"
  aeUnmarshal :: "string \<Rightarrow> issue_response option"
  aeShell :: "string \<Rightarrow> duration \<Rightarrow> 'n agent_world \<Rightarrow> shell_outcome \<times> 'n agent_world"

datatype client_error =
    LoadKeyPairFailed
  | ServerCAUnreadable
  | ServerCAEmpty
  | BadRequestURL
  | CallFailed
  | ResponseUnreadable
  | BrokerStatus int string
  | ResponseInvalid
  | NotBeforeInvalid
  | NotAfterInvalid

definition LoadX509KeyPair ::
  "'n agent_env \<Rightarrow> string \<Rightarrow> string \<Rightarrow> os \<Rightarrow> (client_error, string \<times> string) result \<times> os" where
  "LoadX509KeyPair env certFile keyFile s =
     (case os_ReadFile certFile s of
        (Inl _, s) \<Rightarrow> (Inl LoadKeyPairFailed, s)
      | (Inr certPEM, s) \<Rightarrow>
          (case os_ReadFile keyFile s of
             (Inl _, s) \<Rightarrow> (Inl LoadKeyPairFailed, s)
           | (Inr keyPEM, s) \<Rightarrow>
               (if aeKeyPair env certPEM keyPEM then Inr (certPEM, keyPEM) else Inl LoadKeyPairFailed, s)))"

definition NewBrokerClient ::
  "'n agent_env \<Rightarrow> agent_config \<Rightarrow> os \<Rightarrow> (client_error, broker_client) result \<times> os" where
  "NewBrokerClient env cfg s =
     (case LoadX509KeyPair env (idCert (agIdentity cfg)) (idKey (agIdentity cfg)) s of
        (Inl e, s) \<Rightarrow> (Inl e, s)
      | (Inr (certPEM, keyPEM), s) \<Rightarrow>
          (case os_ReadFile (abServerCABundle (agBroker cfg)) s of
             (Inl _, s) \<Rightarrow> (Inl ServerCAUnreadable, s)
           | (Inr caData, s) \<Rightarrow>
               (if \<not> aeAppendCerts env caData then Inl ServerCAEmpty
                else Inr \<lparr>bclURL = abURL (agBroker cfg), bclTimeout = abTimeout (agBroker cfg),
                          bclCertPEM = certPEM, bclKeyPEM = keyPEM, bclRootCAs = caData\<rparr>, s)))"

definition issue_request_json :: "string \<Rightarrow> string \<Rightarrow> string" where
  "issue_request_json profile csrPEM =
     ''{'' @ Join (str_member ''profile'' profile @ str_member ''csr_pem'' csrPEM) '','' @ ''}''"

definition maxIssueResponseBytes :: nat where
  "maxIssueResponseBytes = 2 * 1024 * 1024"

text \<open>\<^verbatim>\<open>io.ReadAll\<close> of the body behind \<^verbatim>\<open>io.LimitReader\<close>.\<close>

definition limited_body :: "string \<Rightarrow> string" where
  "limited_body body = take maxIssueResponseBytes body"

lemma limited_body_code [code]:
  "limited_body body = (if int (length body) \<le> 2097152 then body else take maxIssueResponseBytes body)"
  by (simp add: limited_body_def maxIssueResponseBytes_def)

definition client_bundle :: "issue_response \<Rightarrow> (client_error, cert_bundle) result" where
  "client_bundle out =
     (case parse_rfc3339 (irspNotBefore out) of
        None \<Rightarrow> Inl NotBeforeInvalid
      | Some notBefore \<Rightarrow>
          (case parse_rfc3339 (irspNotAfter out) of
             None \<Rightarrow> Inl NotAfterInvalid
           | Some notAfter \<Rightarrow>
               Inr \<lparr>CertPEM = irspCertPEM out, ChainPEM = irspChainPEM out, FullChainPEM = irspFullChainPEM out,
                    LeafSerialNumber = irspSerialNumber out, bundleNotBefore = notBefore, bundleNotAfter = notAfter\<rparr>))"

definition client_Issue ::
  "'n agent_env \<Rightarrow> broker_client \<Rightarrow> string \<Rightarrow> string \<Rightarrow> 'n \<Rightarrow> (client_error, cert_bundle) result \<times> 'n" where
  "client_Issue env c profile csrPEM n =
     (let url = bclURL c @ ''/v1/certificates'' in
      if \<not> aeRequestOK env url then (Inl BadRequestURL, n)
      else case aeDo env c url (issue_request_json profile csrPEM) n of
        (None, n) \<Rightarrow> (Inl CallFailed, n)
      | (Some resp, n) \<Rightarrow>
          (let body = limited_body (ansBody resp) in
           if ansReadError resp then (Inl ResponseUnreadable, n)
           else if ansStatus resp < 200 \<or> 300 \<le> ansStatus resp
           then (Inl (BrokerStatus (ansStatus resp) (TrimSpace body)), n)
           else case aeUnmarshal env body of
             None \<Rightarrow> (Inl ResponseInvalid, n)
           | Some out \<Rightarrow> (client_bundle out, n)))"

section \<open>Service certificates\<close>

datatype service_error =
    KeyStatFailed
  | ServiceKeyFailed pki_error
  | CertStatFailed
  | CertReadFailed
  | ExistingCertInvalid pki_error
  | ExistingCertMismatch pki_error
  | ServiceCSRFailed pki_error
  | RequestFailed client_error
  | BrokerCertInvalid pki_error
  | BrokerCertMismatch pki_error
  | BrokerCertNames pki_error
  | InstallFailed string write_error
  | ReloadTimedOut
  | ReloadFailed string

text \<open>
  The existing certificate: \<open>Inr True\<close> when it is not in its renewal window and there is nothing to
  do, \<open>Inr False\<close> when there is none or it has to be renewed.
\<close>

definition existing_certificate ::
  "'n agent_env \<Rightarrow> cert_config \<Rightarrow> private_key \<Rightarrow> 'n agent_world \<Rightarrow> (service_error, bool) result \<times> 'n agent_world" where
  "existing_certificate env c key w =
     (case on_disk (FileExists (ccCert c)) w of
        (Inl _, w) \<Rightarrow> (Inl CertStatFailed, w)
      | (Inr False, w) \<Rightarrow> (Inr False, w)
      | (Inr True, w) \<Rightarrow>
          (case on_disk (os_ReadFile (ccCert c)) w of
             (Inl _, w) \<Rightarrow> (Inl CertReadFailed, w)
           | (Inr certData, w) \<Rightarrow>
               (case ParseCertificatePEM (aeCrypto env) certData of
                  Inl e \<Rightarrow> (Inl (ExistingCertInvalid e), w)
                | Inr cert \<Rightarrow>
                    (case CertificateMatchesPrivateKey (aeCrypto env) cert key of
                       Some e \<Rightarrow> (Inl (ExistingCertMismatch e), w)
                     | None \<Rightarrow>
                         (case agent_now w of (now, w) \<Rightarrow> (Inr (\<not> ExpiresWithin now cert (ccRenewBefore c)), w))))))"

text \<open>A new certificate: requested from the broker and checked before anything is written.\<close>

definition request_certificate ::
  "'n agent_env \<Rightarrow> broker_client \<Rightarrow> cert_config \<Rightarrow> private_key \<Rightarrow> 'n agent_world
   \<Rightarrow> (service_error, cert_bundle) result \<times> 'n agent_world" where
  "request_certificate env client c key w =
     (case GenerateServiceCSR (aeCrypto env) key (ccDNSNames c) of
        Inl e \<Rightarrow> (Inl (ServiceCSRFailed e), w)
      | Inr csrPEM \<Rightarrow>
          (case on_net (client_Issue env client (ccProfile c) csrPEM) w of
             (Inl e, w) \<Rightarrow> (Inl (RequestFailed e), w)
           | (Inr bdl, w) \<Rightarrow>
               (case ParseCertificatePEM (aeCrypto env) (CertPEM bdl) of
                  Inl e \<Rightarrow> (Inl (BrokerCertInvalid e), w)
                | Inr cert \<Rightarrow>
                    (case CertificateMatchesPrivateKey (aeCrypto env) cert key of
                       Some e \<Rightarrow> (Inl (BrokerCertMismatch e), w)
                     | None \<Rightarrow>
                         (case CertificateHasExactDNSNames cert (ccDNSNames c) of
                            Some e \<Rightarrow> (Inl (BrokerCertNames e), w)
                          | None \<Rightarrow> (Inr bdl, w))))))"

text \<open>\<open>reloadCtx.Err()\<close> is not nil when the timeout has passed; then the exit status does not matter.\<close>

definition runReload ::
  "'n agent_env \<Rightarrow> string \<Rightarrow> duration \<Rightarrow> 'n agent_world \<Rightarrow> (string \<times> service_error option) \<times> 'n agent_world" where
  "runReload env command timeout w =
     (case aeShell env command timeout w of
        (out, w) \<Rightarrow>
          (let trimmed = TrimSpace (shOutput out) in
           ((trimmed, if shTimedOut out then Some ReloadTimedOut
                      else if shFailed out then Some (ReloadFailed trimmed) else None), w)))"

definition install_certificate ::
  "'n agent_env \<Rightarrow> cert_config \<Rightarrow> cert_bundle \<Rightarrow> 'n agent_world \<Rightarrow> service_error option \<times> 'n agent_world" where
  "install_certificate env c bdl w =
     (case on_disk (WriteToDisk bdl (ccCert c) (ccChain c) (ccFullChain c)) w of
        (Some (path, e), w) \<Rightarrow> (Some (InstallFailed path e), w)
      | (None, w) \<Rightarrow>
          if TrimSpace (ccReloadCommand c) \<noteq> []
          then (case runReload env (ccReloadCommand c) (ccReloadTimeout c) w of ((out, e), w) \<Rightarrow> (e, w))
          else (None, w))"

definition ensureServiceCertificate ::
  "'n agent_env \<Rightarrow> broker_client \<Rightarrow> cert_config \<Rightarrow> 'n agent_world \<Rightarrow> service_error option \<times> 'n agent_world" where
  "ensureServiceCertificate env client c w =
     (case on_disk (FileExists (ccKey c)) w of
        (Inl _, w) \<Rightarrow> (Some KeyStatFailed, w)
      | (Inr keyExisted, w) \<Rightarrow>
     (case agent_key w of (drawn, w) \<Rightarrow>
     (case on_disk (EnsureECDSAPrivateKey (aeCrypto env) drawn (ccKey c)) w of
        (Inl e, w) \<Rightarrow> (Some (ServiceKeyFailed e), w)
      | (Inr (key, pemData), w) \<Rightarrow>
     (case existing_certificate env c key w of
        (Inl e, w) \<Rightarrow> (Some e, w)
      | (Inr True, w) \<Rightarrow> (None, w)
      | (Inr False, w) \<Rightarrow>
     (case request_certificate env client c key w of
        (Inl e, w) \<Rightarrow> (Some e, w)
      | (Inr bdl, w) \<Rightarrow> install_certificate env c bdl w)))))"

section \<open>The identity\<close>

datatype agent_error =
    AgentConfigRequired
  | AgentConfigError config_load_error
  | UnknownIdentityCA string
  | IdentityCAFailed stepca_error
  | LockFailed lock_error
  | IdentityStatFailed
  | IdentityMissing string
  | IdentityExists string
  | ClientFailed client_error
  | IdentityReadFailed string
  | IdentityInvalid pki_error
  | IdentityExpired instant
  | IdentityCAError ca_error
  | IdentityWriteFailed write_error
  | IdentityKeyFailed pki_error
  | TokenReadFailed string
  | TokenEmpty
  | IdentityCSRFailed pki_error
  | TokenRemoveFailed
  | ServiceFailed string service_error

definition read_identity :: "string \<Rightarrow> 'n agent_world \<Rightarrow> (agent_error, string) result \<times> 'n agent_world" where
  "read_identity path w =
     (case on_disk (os_ReadFile path) w of
        (Inl _, w) \<Rightarrow> (Inl (IdentityReadFailed path), w)
      | (Inr data, w) \<Rightarrow> (Inr data, w))"

text \<open>The certificate, the key and the CA bundle.\<close>

definition identity_material ::
  "identity_config \<Rightarrow> 'n agent_world \<Rightarrow> (agent_error, string \<times> string \<times> string) result \<times> 'n agent_world" where
  "identity_material i w =
     (case read_identity (idCert i) w of
        (Inl e, w) \<Rightarrow> (Inl e, w)
      | (Inr certData, w) \<Rightarrow>
     (case read_identity (idKey i) w of
        (Inl e, w) \<Rightarrow> (Inl e, w)
      | (Inr keyData, w) \<Rightarrow>
     (case read_identity (idIssuerCABundle i) w of
        (Inl e, w) \<Rightarrow> (Inl e, w)
      | (Inr rootCAData, w) \<Rightarrow> (Inr (certData, keyData, rootCAData), w))))"

text \<open>
  The clock is read by \<^verbatim>\<open>IsExpired\<close>, for the log, by \<^verbatim>\<open>ExpiresWithin\<close> and, outside the renewal window,
  by the second \<^verbatim>\<open>ExpiresWithin\<close> that decides about a warning.
\<close>

definition renewal_due ::
  "'n agent_env \<Rightarrow> identity_config \<Rightarrow> string \<Rightarrow> 'n agent_world \<Rightarrow> (agent_error, bool) result \<times> 'n agent_world" where
  "renewal_due env i certData w =
     (case ParseCertificatePEM (aeCrypto env) certData of
        Inl e \<Rightarrow> (Inl (IdentityInvalid e), w)
      | Inr cert \<Rightarrow>
     (case agent_now w of (now, w) \<Rightarrow>
      if IsExpired now cert then (Inl (IdentityExpired (certNotAfter cert)), w)
      else case agent_now w of (_, w) \<Rightarrow>
     (case agent_now w of (now, w) \<Rightarrow>
      if \<not> ExpiresWithin now cert (idRenewBefore i) then (Inr False, snd (agent_now w)) else (Inr True, w))))"

definition renew_identity ::
  "identity_config \<Rightarrow> 'n identity_ca \<Rightarrow> renewal_request \<Rightarrow> 'n agent_world \<Rightarrow> agent_error option \<times> 'n agent_world" where
  "renew_identity i ca req w =
     (case on_net (caRenew ca req) w of
        (Inl e, w) \<Rightarrow> (Some (IdentityCAError e), w)
      | (Inr renewed, w) \<Rightarrow>
     (case on_disk (WriteFileAtomic (idCert i) (icCertPEM renewed) 420) w of
        (Some e, w) \<Rightarrow> (Some (IdentityWriteFailed e), w)
      | (None, w) \<Rightarrow> (None, w)))"

definition RenewIdentityIfNeeded ::
  "'n agent_env \<Rightarrow> agent_config \<Rightarrow> 'n identity_ca \<Rightarrow> 'n agent_world \<Rightarrow> agent_error option \<times> 'n agent_world" where
  "RenewIdentityIfNeeded env cfg ca w =
     (let i = agIdentity cfg in
      case identity_material i w of
        (Inl e, w) \<Rightarrow> (Some e, w)
      | (Inr (certData, keyData, rootCAData), w) \<Rightarrow>
     (case renewal_due env i certData w of
        (Inl e, w) \<Rightarrow> (Some e, w)
      | (Inr False, w) \<Rightarrow> (None, w)
      | (Inr True, w) \<Rightarrow>
          renew_identity i ca \<lparr>rrCertPEM = certData, rrKeyPEM = keyData, rrIssuerCAPEM = rootCAData\<rparr> w))"

section \<open>A run\<close>

definition lock_path :: "agent_config \<Rightarrow> string" where
  "lock_path cfg = (if agStateDir cfg = [] then ''agent.lock'' else Clean (agStateDir cfg @ ''/agent.lock''))"

fun ensure_all ::
  "'n agent_env \<Rightarrow> broker_client \<Rightarrow> cert_config list \<Rightarrow> 'n agent_world \<Rightarrow> agent_error option \<times> 'n agent_world" where
  "ensure_all env client [] w = (None, w)"
| "ensure_all env client (c # cs) w =
     (case ensureServiceCertificate env client c w of
        (Some e, w) \<Rightarrow> (Some (ServiceFailed (ccName c) e), w)
      | (None, w) \<Rightarrow> ensure_all env client cs w)"

text \<open>What happens between taking the lock and releasing it.\<close>

definition run_locked ::
  "'n agent_env \<Rightarrow> agent_config \<Rightarrow> 'n identity_ca \<Rightarrow> 'n agent_world \<Rightarrow> agent_error option \<times> 'n agent_world" where
  "run_locked env cfg ca w =
     (case on_disk (FileExists (idCert (agIdentity cfg))) w of
        (Inl _, w) \<Rightarrow> (Some IdentityStatFailed, w)
      | (Inr False, w) \<Rightarrow> (Some (IdentityMissing (idCert (agIdentity cfg))), w)
      | (Inr True, w) \<Rightarrow>
     (case on_disk (NewBrokerClient env cfg) w of
        (Inl e, w) \<Rightarrow> (Some (ClientFailed e), w)
      | (Inr client, w) \<Rightarrow>
     (case RenewIdentityIfNeeded env cfg ca w of
        (Some e, w) \<Rightarrow> (Some e, w)
      | (None, w) \<Rightarrow> ensure_all env client (agCertificates cfg) w)))"

definition with_lock ::
  "agent_config \<Rightarrow> nat \<Rightarrow> ('n agent_world \<Rightarrow> agent_error option \<times> 'n agent_world) \<Rightarrow> 'n agent_world
   \<Rightarrow> agent_error option \<times> 'n agent_world" where
  "with_lock cfg pid body w =
     (case on_disk (AcquireLock (lock_path cfg) pid) w of
        (Inl e, w) \<Rightarrow> (Some (LockFailed e), w)
      | (Inr l, w) \<Rightarrow>
          (case body w of (r, w) \<Rightarrow> (r, snd (on_disk (Release (Some l)) w))))"

definition Run ::
  "'n agent_env \<Rightarrow> agent_config \<Rightarrow> 'n identity_ca \<Rightarrow> nat \<Rightarrow> 'n agent_world \<Rightarrow> agent_error option \<times> 'n agent_world" where
  "Run env cfg ca pid = with_lock cfg pid (run_locked env cfg ca)"

section \<open>Enrolment\<close>

text \<open>The key is made sure of, and then read back from the disk.\<close>

definition identity_key ::
  "'n agent_env \<Rightarrow> identity_config \<Rightarrow> 'n agent_world \<Rightarrow> (agent_error, private_key) result \<times> 'n agent_world" where
  "identity_key env i w =
     (case agent_key w of (drawn, w) \<Rightarrow>
     (case on_disk (EnsureECDSAPrivateKey (aeCrypto env) drawn (idKey i)) w of
        (Inl e, w) \<Rightarrow> (Inl (IdentityKeyFailed e), w)
      | (Inr _, w) \<Rightarrow>
     (case read_identity (idKey i) w of
        (Inl e, w) \<Rightarrow> (Inl e, w)
      | (Inr keyData, w) \<Rightarrow>
     (case ParsePrivateKeyPEM (aeCrypto env) keyData of
        Inl e \<Rightarrow> (Inl (IdentityKeyFailed e), w)
      | Inr key \<Rightarrow> (Inr key, w)))))"

definition bootstrap_token :: "identity_config \<Rightarrow> 'n agent_world \<Rightarrow> (agent_error, string) result \<times> 'n agent_world" where
  "bootstrap_token i w =
     (case on_disk (os_ReadFile (idBootstrapToken i)) w of
        (Inl _, w) \<Rightarrow> (Inl (TokenReadFailed (idBootstrapToken i)), w)
      | (Inr tokenData, w) \<Rightarrow>
          (let token = TrimSpace tokenData in if token = [] then (Inl TokenEmpty, w) else (Inr token, w)))"

definition enroll_identity ::
  "'n agent_env \<Rightarrow> identity_config \<Rightarrow> 'n identity_ca \<Rightarrow> private_key \<Rightarrow> string \<Rightarrow> 'n agent_world \<Rightarrow> agent_error option \<times> 'n agent_world" where
  "enroll_identity env i ca key token w =
     (case GenerateIdentityCSR (aeCrypto env) key (idName i) of
        Inl e \<Rightarrow> (Some (IdentityCSRFailed e), w)
      | Inr csrPEM \<Rightarrow>
     (case on_net (caEnroll ca \<lparr>erCSRPEM = csrPEM, erToken = token\<rparr>) w of
        (Inl e, w) \<Rightarrow> (Some (IdentityCAError e), w)
      | (Inr ic, w) \<Rightarrow>
     (case on_disk (WriteFileAtomic (idCert i) (icCertPEM ic) 420) w of
        (Some e, w) \<Rightarrow> (Some (IdentityWriteFailed e), w)
      | (None, w) \<Rightarrow>
     (case on_disk (os_Remove (idBootstrapToken i)) w of
        (Some _, w) \<Rightarrow> (Some TokenRemoveFailed, w)
      | (None, w) \<Rightarrow> (None, w)))))"

definition enroll_locked ::
  "'n agent_env \<Rightarrow> agent_config \<Rightarrow> 'n identity_ca \<Rightarrow> 'n agent_world \<Rightarrow> agent_error option \<times> 'n agent_world" where
  "enroll_locked env cfg ca w =
     (let i = agIdentity cfg in
      case on_disk (FileExists (idCert i)) w of
        (Inl _, w) \<Rightarrow> (Some IdentityStatFailed, w)
      | (Inr True, w) \<Rightarrow> (Some (IdentityExists (idCert i)), w)
      | (Inr False, w) \<Rightarrow>
     (case identity_key env i w of
        (Inl e, w) \<Rightarrow> (Some e, w)
      | (Inr key, w) \<Rightarrow>
     (case bootstrap_token i w of
        (Inl e, w) \<Rightarrow> (Some e, w)
      | (Inr token, w) \<Rightarrow> enroll_identity env i ca key token w)))"

definition Enroll ::
  "'n agent_env \<Rightarrow> agent_config \<Rightarrow> 'n identity_ca \<Rightarrow> nat \<Rightarrow> 'n agent_world \<Rightarrow> agent_error option \<times> 'n agent_world" where
  "Enroll env cfg ca pid = with_lock cfg pid (enroll_locked env cfg ca)"

section \<open>The check command\<close>

datatype check_error =
    IdentityKeyCheck
  | IdentityCertCheck
  | CheckReadKey string
  | CheckParseKey string pki_error
  | CheckReadCert string
  | CheckParseCert string pki_error
  | CheckMismatch string pki_error

definition check_certificate :: "crypto \<Rightarrow> cert_config \<Rightarrow> os \<Rightarrow> check_error option \<times> os" where
  "check_certificate cr c s =
     (case os_ReadFile (ccKey c) s of
        (Inl _, s) \<Rightarrow> (Some (CheckReadKey (ccName c)), s)
      | (Inr keyData, s) \<Rightarrow>
     (case ParsePrivateKeyPEM cr keyData of
        Inl e \<Rightarrow> (Some (CheckParseKey (ccName c) e), s)
      | Inr key \<Rightarrow>
     (case os_ReadFile (ccCert c) s of
        (Inl ErrNotExist, s) \<Rightarrow> (None, s)
      | (Inl _, s) \<Rightarrow> (Some (CheckReadCert (ccName c)), s)
      | (Inr certData, s) \<Rightarrow>
     (case ParseCertificatePEM cr certData of
        Inl e \<Rightarrow> (Some (CheckParseCert (ccName c) e), s)
      | Inr cert \<Rightarrow>
     (case CertificateMatchesPrivateKey cr cert key of
        Some e \<Rightarrow> (Some (CheckMismatch (ccName c) e), s)
      | None \<Rightarrow> (None, s))))))"

fun check_all :: "crypto \<Rightarrow> cert_config list \<Rightarrow> os \<Rightarrow> check_error option \<times> os" where
  "check_all cr [] s = (None, s)"
| "check_all cr (c # cs) s =
     (case check_certificate cr c s of
        (Some e, s) \<Rightarrow> (Some e, s)
      | (None, s) \<Rightarrow> check_all cr cs s)"

definition Check :: "crypto \<Rightarrow> agent_config \<Rightarrow> os \<Rightarrow> check_error option \<times> os" where
  "Check cr cfg s =
     (case os_Stat (idKey (agIdentity cfg)) s of
        (Inl _, s) \<Rightarrow> (Some IdentityKeyCheck, s)
      | (Inr _, s) \<Rightarrow>
     (case os_Stat (idCert (agIdentity cfg)) s of
        (Inl _, s) \<Rightarrow> (Some IdentityCertCheck, s)
      | (Inr _, s) \<Rightarrow> check_all cr (agCertificates cfg) s))"

section \<open>The commands\<close>

text \<open>\<open>uri\<close> and \<open>dec\<close> are \<^verbatim>\<open>url.ParseRequestURI\<close> and the YAML decoder.\<close>

definition loadAgentConfig ::
  "(string \<Rightarrow> bool) \<Rightarrow> (string \<Rightarrow> agent_config option) \<Rightarrow> string \<Rightarrow> 'n agent_world
   \<Rightarrow> (agent_error, agent_config) result \<times> 'n agent_world" where
  "loadAgentConfig uri dec path w =
     (if path = [] then (Inl AgentConfigRequired, w)
      else case on_disk (LoadAgent uri dec path) w of
        (Inl e, w) \<Rightarrow> (Inl (AgentConfigError e), w)
      | (Inr cfg, w) \<Rightarrow> (Inr cfg, w))"

definition resolveIdentityCA ::
  "crypto \<Rightarrow> ('c, 'n) step_api \<Rightarrow> agent_config \<Rightarrow> 'n agent_world
   \<Rightarrow> (agent_error, 'n identity_ca) result \<times> 'n agent_world" where
  "resolveIdentityCA cr api cfg w =
     (if idProvider (agIdentity cfg) = ''step-ca'' then
        (case on_net (stepca_New api (idStepCA (agIdentity cfg))) w of
           (Inl e, w) \<Rightarrow> (Inl (IdentityCAFailed e), w)
         | (Inr p, w) \<Rightarrow> (Inr (step_ca cr api p), w))
      else (Inl (UnknownIdentityCA (idProvider (agIdentity cfg))), w))"

definition loadAgentRuntime ::
  "(string \<Rightarrow> bool) \<Rightarrow> (string \<Rightarrow> agent_config option) \<Rightarrow> crypto \<Rightarrow> ('c, 'n) step_api \<Rightarrow> string \<Rightarrow> 'n agent_world
   \<Rightarrow> (agent_error, agent_config \<times> 'n identity_ca) result \<times> 'n agent_world" where
  "loadAgentRuntime uri dec cr api path w =
     (case loadAgentConfig uri dec path w of
        (Inl e, w) \<Rightarrow> (Inl e, w)
      | (Inr cfg, w) \<Rightarrow>
          (case resolveIdentityCA cr api cfg w of
             (Inl e, w) \<Rightarrow> (Inl e, w)
           | (Inr ca, w) \<Rightarrow> (Inr (cfg, ca), w)))"

definition runRun ::
  "'n agent_env \<Rightarrow> (string \<Rightarrow> bool) \<Rightarrow> (string \<Rightarrow> agent_config option) \<Rightarrow> ('c, 'n) step_api \<Rightarrow> string \<Rightarrow> nat
   \<Rightarrow> 'n agent_world \<Rightarrow> agent_error option \<times> 'n agent_world" where
  "runRun env uri dec api path pid w =
     (case loadAgentRuntime uri dec (aeCrypto env) api path w of
        (Inl e, w) \<Rightarrow> (Some e, w)
      | (Inr (cfg, ca), w) \<Rightarrow> Run env cfg ca pid w)"

definition runEnroll ::
  "'n agent_env \<Rightarrow> (string \<Rightarrow> bool) \<Rightarrow> (string \<Rightarrow> agent_config option) \<Rightarrow> ('c, 'n) step_api \<Rightarrow> string \<Rightarrow> nat
   \<Rightarrow> 'n agent_world \<Rightarrow> agent_error option \<times> 'n agent_world" where
  "runEnroll env uri dec api path pid w =
     (case loadAgentRuntime uri dec (aeCrypto env) api path w of
        (Inl e, w) \<Rightarrow> (Some e, w)
      | (Inr (cfg, ca), w) \<Rightarrow> Enroll env cfg ca pid w)"

datatype check_command_error = CheckLoadFailed agent_error | CheckFailed check_error

definition runCheck ::
  "crypto \<Rightarrow> (string \<Rightarrow> bool) \<Rightarrow> (string \<Rightarrow> agent_config option) \<Rightarrow> string \<Rightarrow> 'n agent_world
   \<Rightarrow> check_command_error option \<times> 'n agent_world" where
  "runCheck cr uri dec path w =
     (case loadAgentConfig uri dec path w of
        (Inl e, w) \<Rightarrow> (Some (CheckLoadFailed e), w)
      | (Inr cfg, w) \<Rightarrow>
          (case on_disk (Check cr cfg) w of
             (Some e, w) \<Rightarrow> (Some (CheckFailed e), w)
           | (None, w) \<Rightarrow> (None, w)))"

end
