(* ===== verification/Agent_Safety.thy ===== *)
theory Agent_Safety
  imports Agent
begin

text \<open>
  What the agent does to the files of its host, in every state of the disk on the way: a file that
  is not one of the targets is never touched, a certificate is replaced only by one that belongs
  to the key and carries exactly the configured names, an existing key is never replaced, and a
  bootstrap token is given up only when the identity it paid for is on the disk.
\<close>

section \<open>Every state on the way\<close>

text \<open>
  \<open>evolves P s s'\<close>: the disk changes from \<open>s\<close> to \<open>s'\<close> through states that all satisfy \<open>P\<close>, and so does
  the last one.
\<close>

definition evolves :: "(os_file strmap \<Rightarrow> bool) \<Rightarrow> os \<Rightarrow> os \<Rightarrow> bool" where
  "evolves P s s' \<longleftrightarrow> temp_suffix s' = temp_suffix s \<and> faults s' = faults s \<and>
     (\<exists>h. history s' = history s @ h \<and> (\<forall>m \<in> insert (files s') (set h). P m))"

lemma evolves_files: "evolves P s s' \<Longrightarrow> P (files s')"
  by (auto simp: evolves_def)

lemma evolves_plain: "evolves P s s' \<Longrightarrow> plain_path s' p = plain_path s p"
  by (simp add: evolves_def plain_path_def)

lemma evolves_mono: "evolves P s s' \<Longrightarrow> (\<And>m. P m \<Longrightarrow> Q m) \<Longrightarrow> evolves Q s s'"
  unfolding evolves_def by blast

lemma evolves_trans: "evolves P s t \<Longrightarrow> evolves P t u \<Longrightarrow> evolves P s u"
  unfolding evolves_def by fastforce

lemma evolves_same:
  "P (files s) \<Longrightarrow> files s' = files s \<Longrightarrow> history s' = history s \<Longrightarrow> temp_suffix s' = temp_suffix s \<Longrightarrow> faults s' = faults s
   \<Longrightarrow> evolves P s s'"
  by (simp add: evolves_def)

lemma evolves_tick [simp]: "evolves P s (tick s) \<longleftrightarrow> P (files s)"
  by (auto simp: evolves_def)

lemma touches_evolves:
  "touches A s s' \<Longrightarrow> (\<And>m. (\<forall>k. k \<notin> A \<longrightarrow> map_get m k = map_get (files s) k) \<Longrightarrow> P m) \<Longrightarrow> evolves P s s'"
  unfolding touches_def evolves_def by blast

lemma os_keeps [simp]:
  "temp_suffix (snd (os_call s)) = temp_suffix s" "faults (snd (os_call s)) = faults s"
  "temp_suffix (snd (os_Rename p q s)) = temp_suffix s" "faults (snd (os_Rename p q s)) = faults s"
  by (auto simp: os_defs split: option.splits)

lemma syncDir_keeps: "temp_suffix (snd (syncDir s)) = temp_suffix s \<and> faults (snd (syncDir s)) = faults s"
  by (auto simp: syncDir_def os_call_def split: bool.splits)

lemma WriteFileAtomic_keeps:
  assumes "WriteFileAtomic path data m s = (r, s')"
  shows "temp_suffix s' = temp_suffix s \<and> faults s' = faults s"
proof -
  obtain c t where 1: "os_CreateTemp (Dir path) ''.certplane-'' (tick s) = (c, t)"
    by (cases "os_CreateTemp (Dir path) ''.certplane-'' (tick s)")
  then have t: "temp_suffix t = temp_suffix s \<and> faults t = faults s"
    by (auto simp: os_CreateTemp_def Let_def split: if_splits)
  have rm: "temp_suffix (snd (os_Remove p x)) = temp_suffix x \<and> faults (snd (os_Remove p x)) = faults x" for p x
    by (simp add: os_Remove_def)
  obtain f u where 2: "fill_temp (case c of Inr n \<Rightarrow> n | Inl _ \<Rightarrow> []) data m t = (f, u)"
    by (cases "fill_temp (case c of Inr n \<Rightarrow> n | Inl _ \<Rightarrow> []) data m t")
  have u: "temp_suffix u = temp_suffix s \<and> faults u = faults s"
    using fill_temp_touches [of "case c of Inr n \<Rightarrow> n | Inl _ \<Rightarrow> []" t data m] 2 t by (simp add: touches_def)
  show ?thesis
  proof (cases "failing s")
    case True
    then show ?thesis using assms by (auto simp: WriteFileAtomic_def os_call_def)
  next
    case False
    show ?thesis
    proof (cases c)
      case (Inl e)
      then show ?thesis using assms False 1 t by (simp add: WriteFileAtomic_def os_call_def)
    next
      case (Inr n)
      then have "s' = snd (os_Remove n u) \<or> s' = snd (syncDir (snd (os_Rename n path u)))
          \<or> s' = snd (os_Remove n (snd (os_Rename n path u)))"
        using assms False 1 2 by (auto simp: WriteFileAtomic_def os_call_def split: option.splits prod.splits bool.splits)
      then show ?thesis using u rm syncDir_keeps by auto
    qed
  qed
qed

text \<open>The rule for writing a file: all states keep the other files, and the target is the old or the new one.\<close>

lemma write_evolves:
  assumes "WriteFileAtomic path data m s = (r, s')" and "plain_path s path"
    and P: "\<And>d. (\<forall>k. plain_path s k \<longrightarrow> k \<noteq> path \<longrightarrow> map_get d k = map_get (files s) k)
      \<Longrightarrow> map_get d path \<in> {map_get (files s) path, Some \<lparr>content = data, mode = m\<rparr>} \<Longrightarrow> P d"
  shows "evolves P s s'"
proof -
  obtain tmp where out: "if committed r
      then is_temp s tmp \<and> (\<exists>t. touches {tmp} s t
          \<and> files s' = map_put path \<lparr>content = data, mode = m\<rparr> (map_del tmp (files t))
          \<and> history s' = history t @ [files s'])
      else touches {tmp} s s' \<and> (is_temp s tmp \<or> touches {} s s')"
    using WriteFileAtomic_outcome [OF assms(1)] by blast
  have keep: "P d" if "\<forall>k. k \<notin> {tmp} \<longrightarrow> map_get d k = map_get (files s) k" "is_temp s tmp" for d
    using that plain_path_not_temp [of s _ tmp] assms(2) by (intro P) auto
  show ?thesis
  proof (cases "committed r")
    case True
    then obtain t where t: "is_temp s tmp" "touches {tmp} s t"
      "files s' = map_put path \<lparr>content = data, mode = m\<rparr> (map_del tmp (files t))" "history s' = history t @ [files s']"
      using out by auto
    have "map_get (files s') k = (if k = path then Some \<lparr>content = data, mode = m\<rparr> else if k = tmp then None else map_get (files s) k)" for k
      using t(2,3) touches_files [OF t(2)] by (simp add: sd.get_put)
    then have "P (files s')" using plain_path_not_temp [OF _ t(1)] by (intro P) auto
    moreover have "evolves P s t" using touches_evolves [OF t(2)] keep t(1) by blast
    ultimately show ?thesis using t(4) WriteFileAtomic_keeps [OF assms(1)] by (auto simp: evolves_def)
  next
    case False
    then consider "touches {tmp} s s'" "is_temp s tmp" | "touches {} s s'" using out by auto
    then show ?thesis
    proof cases
      case 1
      then show ?thesis using touches_evolves keep by blast
    next
      case 2
      then show ?thesis by (rule touches_evolves) (intro P, auto)
    qed
  qed
qed

section \<open>The steps of the agent\<close>

lemma on_disk_split: "on_disk f w = (r, w') \<longleftrightarrow> (\<exists>s'. f (awOs w) = (r, s') \<and> w' = w\<lparr>awOs := s'\<rparr>)"
  by (auto simp: on_disk_def split: prod.splits)

lemma on_net_split: "on_net f w = (r, w') \<longleftrightarrow> (\<exists>n'. f (awNet w) = (r, n') \<and> w' = w\<lparr>awNet := n'\<rparr>)"
  by (auto simp: on_net_def split: prod.splits)

lemma agent_now_disk: "agent_now w = (t, w') \<Longrightarrow> awOs w' = awOs w \<and> awKeys w' = awKeys w \<and> awNet w' = awNet w"
  by (auto simp: agent_now_def Let_def)

lemma os_ReadFile_cases:
  assumes "os_ReadFile path s = (r, s')"
  shows "s' = tick s \<and> (\<forall>data. r = Inr data \<longrightarrow> (\<exists>f. map_get (files s) path = Some f \<and> content f = data))"
  using assms by (auto simp: os_ReadFile_def split: if_splits option.splits)

lemma ensure_key_evolves:
  assumes "EnsureECDSAPrivateKey cr drawn path s = (r, s')" and "plain_path s path"
    and P: "\<And>d. (\<forall>k. plain_path s k \<longrightarrow> k \<noteq> path \<longrightarrow> map_get d k = map_get (files s) k)
      \<Longrightarrow> (map_get (files s) path \<noteq> None \<longrightarrow> map_get d path = map_get (files s) path) \<Longrightarrow> P d"
  shows "evolves P s s'"
proof -
  obtain x s1 where 1: "FileExists path s = (x, s1)" by (cases "FileExists path s")
  note ex = FileExists_cases [OF 1]
  have now: "P (files s)" by (rule P) auto
  show ?thesis
  proof (cases "x = Inr False \<and> (\<exists>key pem. drawn = Some key \<and> MarshalPrivateKeyPEM cr key = Inr pem)")
    case True
    then obtain key pem where k: "drawn = Some key" "MarshalPrivateKeyPEM cr key = Inr pem" "x = Inr False" by blast
    have none: "map_get (files s) path = None" using ex k(3) by simp
    obtain e where W: "WriteFileAtomic path pem 384 s1 = (e, s')"
      using assms(1) 1 k by (auto simp: EnsureECDSAPrivateKey_def split: prod.splits option.splits)
    have plain: "plain_path s1 p = plain_path s p" for p using ex by simp
    have "evolves P s1 s'"
      by (rule write_evolves [OF W]) (use plain assms(2) none ex in \<open>auto intro!: P\<close>)
    moreover have "evolves P s s1" using ex now by simp
    ultimately show ?thesis by (rule evolves_trans [rotated])
  next
    case False
    then have "s' = tick s \<or> s' = tick (tick s)"
      using assms(1) 1 ex
      by (auto simp: EnsureECDSAPrivateKey_def os_ReadFile_def split: sum.splits bool.splits option.splits prod.splits if_splits)
    then show ?thesis using now by (auto simp: evolves_def)
  qed
qed

text \<open>The files of a service certificate, and when key and certificate on the disk belong together.\<close>

definition cert_paths :: "cert_config \<Rightarrow> string list" where
  "cert_paths c = [ccKey c, ccCert c, ccChain c, ccFullChain c]"

definition key_on_disk :: "crypto \<Rightarrow> string \<Rightarrow> private_key \<Rightarrow> os_file strmap \<Rightarrow> bool" where
  "key_on_disk cr path key d \<longleftrightarrow> (\<exists>f. map_get d path = Some f \<and> ParsePrivateKeyPEM cr (content f) = Inr key)"

definition cert_on_disk :: "crypto \<Rightarrow> string \<Rightarrow> certificate \<Rightarrow> os_file strmap \<Rightarrow> bool" where
  "cert_on_disk cr path cert d \<longleftrightarrow> (\<exists>f. map_get d path = Some f \<and> ParseCertificatePEM cr (content f) = Inr cert)"

definition usable :: "crypto \<Rightarrow> cert_config \<Rightarrow> certificate \<Rightarrow> os_file strmap \<Rightarrow> bool" where
  "usable cr c cert d \<longleftrightarrow> (\<exists>key. key_on_disk cr (ccKey c) key d \<and> cert_on_disk cr (ccCert c) cert d
     \<and> CertificateMatchesPrivateKey cr cert key = None)"

lemma existing_certificate_outcome:
  assumes "existing_certificate env c key w = (r, w')"
  shows "files (awOs w') = files (awOs w) \<and> history (awOs w') = history (awOs w)
     \<and> temp_suffix (awOs w') = temp_suffix (awOs w) \<and> faults (awOs w') = faults (awOs w) \<and> awKeys w' = awKeys w
     \<and> awNet w' = awNet w
     \<and> (r = Inr True \<longrightarrow> (\<exists>cert now. cert_on_disk (aeCrypto env) (ccCert c) cert (files (awOs w))
          \<and> CertificateMatchesPrivateKey (aeCrypto env) cert key = None \<and> \<not> ExpiresWithin now cert (ccRenewBefore c)))"
  using assms
  by (auto simp: existing_certificate_def on_disk_split cert_on_disk_def
      split: prod.splits sum.splits bool.splits option.splits
      dest!: FileExists_cases os_ReadFile_cases agent_now_disk)

lemma request_certificate_outcome:
  assumes "request_certificate env client c key w = (r, w')"
  shows "awOs w' = awOs w \<and> awKeys w' = awKeys w \<and> (\<forall>bdl. r = Inr bdl \<longrightarrow>
     (\<exists>cert csrPEM n n'. ParseCertificatePEM (aeCrypto env) (CertPEM bdl) = Inr cert
        \<and> CertificateMatchesPrivateKey (aeCrypto env) cert key = None
        \<and> CertificateHasExactDNSNames cert (ccDNSNames c) = None
        \<and> GenerateServiceCSR (aeCrypto env) key (ccDNSNames c) = Inr csrPEM
        \<and> client_Issue env client (ccProfile c) csrPEM n = (Inr bdl, n')))"
  using assms
  by (auto simp: request_certificate_def on_net_split split: prod.splits sum.splits option.splits)

text \<open>Writing several files: each is the old or the new one at every moment, and the others stay.\<close>

definition rewritten :: "os \<Rightarrow> (string \<times> string) list \<Rightarrow> os_file strmap \<Rightarrow> bool" where
  "rewritten s fs d \<longleftrightarrow>
     (\<forall>k. plain_path s k \<longrightarrow> k \<notin> fst ` set fs \<longrightarrow> map_get d k = map_get (files s) k)
     \<and> (\<forall>(p, data) \<in> set fs. map_get d p \<in> {map_get (files s) p, Some \<lparr>content = data, mode = 420\<rparr>})"

lemma rewritten_weaken:
  assumes "rewritten s [f] d" and "f \<in> set fs" and "\<forall>p \<in> fst ` set fs. plain_path s p" and "distinct (map fst fs)"
  shows "rewritten s fs d"
proof -
  obtain p data where f: "f = (p, data)" by (cases f)
  have "map_get d q \<in> {map_get (files s) q, Some \<lparr>content = data', mode = 420\<rparr>}" if "(q, data') \<in> set fs" for q data'
  proof (cases "q = p")
    case True
    then have "data' = data" using assms(2,4) that f eq_key_imp_eq_value by fastforce
    then show ?thesis using assms(1) True f by (auto simp: rewritten_def)
  next
    case False
    have "q \<in> fst ` set fs" using that by force
    then have "plain_path s q" using assms(3) by blast
    then show ?thesis using assms(1) False f by (auto simp: rewritten_def)
  qed
  moreover have "p \<in> fst ` set fs" using assms(2) f by force
  ultimately show ?thesis using assms(1) f by (auto simp: rewritten_def)
qed

lemma rewritten_step:
  assumes s1: "rewritten s [(p, data)] (files s1)" "\<And>k. plain_path s1 k = plain_path s k"
    and "p \<notin> fst ` set fs" and "plain_path s p" and "\<forall>q \<in> fst ` set fs. plain_path s q" and d: "rewritten s1 fs d"
  shows "rewritten s ((p, data) # fs) d"
proof -
  have same: "map_get (files s1) k = map_get (files s) k" if "plain_path s k" "k \<noteq> p" for k
    using s1(1) that by (auto simp: rewritten_def)
  have "map_get d k = map_get (files s) k" if "plain_path s k" "k \<notin> fst ` set ((p, data) # fs)" for k
    using d s1(2) same that by (auto simp: rewritten_def)
  moreover have "map_get d p = map_get (files s1) p" using d assms(3,4) s1(2) by (auto simp: rewritten_def)
  then have "map_get d p \<in> {map_get (files s) p, Some \<lparr>content = data, mode = 420\<rparr>}"
    using s1(1) by (auto simp: rewritten_def)
  moreover have "map_get d q \<in> {map_get (files s) q, Some \<lparr>content = data', mode = 420\<rparr>}" if q: "(q, data') \<in> set fs" for q data'
  proof -
    have "q \<in> fst ` set fs" using q by force
    then have "q \<noteq> p" "plain_path s q" using assms(3,5) by auto
    with same show ?thesis using d q by (auto simp: rewritten_def)
  qed
  ultimately show ?thesis unfolding rewritten_def by auto
qed

lemma write_files_evolves:
  assumes "write_files fs s = (r, s')" and "\<forall>p \<in> fst ` set fs. plain_path s p" and "distinct (map fst fs)"
  shows "evolves (rewritten s fs) s s'
     \<and> (r = None \<longrightarrow> (\<forall>(p, data) \<in> set fs. map_get (files s') p = Some \<lparr>content = data, mode = 420\<rparr>))"
  using assms
proof (induction fs arbitrary: s)
  case Nil
  then show ?case by (auto simp: rewritten_def evolves_def)
next
  case (Cons f fs)
  obtain p data where f: "f = (p, data)" by (cases f)
  obtain e s1 where W: "WriteFileAtomic p data 420 s = (e, s1)" by (cases "WriteFileAtomic p data 420 s")
  have plain: "plain_path s p" using Cons.prems(2) f by simp
  have ev1: "evolves (rewritten s [(p, data)]) s s1"
    by (rule write_evolves [OF W plain]) (auto simp: rewritten_def)
  then have ev: "evolves (rewritten s (f # fs)) s s1"
    using rewritten_weaken [of s f _ "f # fs"] Cons.prems(2,3) f by (auto intro: evolves_mono)
  show ?case
  proof (cases e)
    case (Some x)
    then show ?thesis using Cons.prems(1) W f ev by auto
  next
    case None
    then have rest: "write_files fs s1 = (r, s')" using Cons.prems(1) W f by simp
    have pl: "plain_path s1 k = plain_path s k" for k using evolves_plain [OF ev1] .
    have IH: "evolves (rewritten s1 fs) s1 s'"
      "r = None \<longrightarrow> (\<forall>(p, data) \<in> set fs. map_get (files s') p = Some \<lparr>content = data, mode = 420\<rparr>)"
      using Cons.IH [OF rest] Cons.prems(2,3) pl by auto
    have step: "rewritten s (f # fs) d" if "rewritten s1 fs d" for d
      using rewritten_step [OF evolves_files [OF ev1] pl _ plain _ that] Cons.prems(2,3) f by auto
    have p: "map_get (files s') p = Some \<lparr>content = data, mode = 420\<rparr>"
      using evolves_files [OF IH(1)] WriteFileAtomic_done [OF plain, of data 420 s1] W None Cons.prems(3) f plain pl
      by (auto simp: rewritten_def)
    have "evolves (rewritten s (f # fs)) s1 s'" by (rule evolves_mono [OF IH(1)]) (rule step)
    then have "evolves (rewritten s (f # fs)) s s'" by (rule evolves_trans [OF ev])
    then show ?thesis using IH(2) p f by auto
  qed
qed

text \<open>
  \<open>M\<close> is the set of the files the agent relies on. The reload command may do what it likes to the
  rest of the disk, but not to them.
\<close>

definition shell_keeps :: "'n agent_env \<Rightarrow> string set \<Rightarrow> bool" where
  "shell_keeps env M \<longleftrightarrow> (\<forall>command timeout w out w'. aeShell env command timeout w = (out, w') \<longrightarrow>
     awKeys w' = awKeys w \<and> (\<exists>A. A \<inter> M = {} \<and> touches A (awOs w) (awOs w')))"

text \<open>What holds of every state of the disk while a certificate is taken care of, \<open>f0\<close> being the first one.\<close>

definition service_state ::
  "crypto \<Rightarrow> string set \<Rightarrow> cert_config \<Rightarrow> os_file strmap \<Rightarrow> os_file strmap \<Rightarrow> bool" where
  "service_state cr M c f0 d \<longleftrightarrow>
     (\<forall>k \<in> M - set (cert_paths c). map_get d k = map_get f0 k)
     \<and> (map_get f0 (ccKey c) \<noteq> None \<longrightarrow> map_get d (ccKey c) = map_get f0 (ccKey c))
     \<and> (map_get d (ccCert c) = map_get f0 (ccCert c)
         \<or> (\<exists>cert. usable cr c cert d \<and> CertificateHasExactDNSNames cert (ccDNSNames c) = None))"

lemma usable_cong:
  "map_get d (ccKey c) = map_get d' (ccKey c) \<Longrightarrow> map_get d (ccCert c) = map_get d' (ccCert c)
   \<Longrightarrow> usable cr c cert d = usable cr c cert d'"
  by (simp add: usable_def key_on_disk_def cert_on_disk_def)

lemma service_state_cong:
  assumes "set (cert_paths c) \<subseteq> M" and "\<forall>k \<in> M. map_get d k = map_get d' k" and "service_state cr M c f0 d'"
  shows "service_state cr M c f0 d"
proof -
  have "map_get d (ccKey c) = map_get d' (ccKey c)" "map_get d (ccCert c) = map_get d' (ccCert c)"
    using assms(1,2) by (auto simp: cert_paths_def)
  then show ?thesis using assms(2,3) usable_cong [of d c d'] unfolding service_state_def by auto
qed

lemma runReload_evolves:
  assumes "runReload env command timeout w = (oe, w')" and "shell_keeps env M" and "set (cert_paths c) \<subseteq> M"
    and "service_state cr M c f0 (files (awOs w))"
  shows "evolves (service_state cr M c f0) (awOs w) (awOs w') \<and> awKeys w' = awKeys w
     \<and> (\<forall>k \<in> M. map_get (files (awOs w')) k = map_get (files (awOs w)) k)"
proof -
  obtain out where sh: "aeShell env command timeout w = (out, w')"
    using assms(1) by (auto simp: runReload_def Let_def split: prod.splits)
  then obtain A where A: "A \<inter> M = {}" "touches A (awOs w) (awOs w')" "awKeys w' = awKeys w"
    using assms(2) [unfolded shell_keeps_def, rule_format, OF sh] by blast
  have "evolves (service_state cr M c f0) (awOs w) (awOs w')"
  proof (rule touches_evolves [OF A(2)])
    fix m assume "\<forall>k. k \<notin> A \<longrightarrow> map_get m k = map_get (files (awOs w)) k"
    then have "\<forall>k \<in> M. map_get m k = map_get (files (awOs w)) k" using A(1) by blast
    then show "service_state cr M c f0 m" using assms(4) by (rule service_state_cong [OF assms(3)])
  qed
  moreover have "map_get (files (awOs w')) k = map_get (files (awOs w)) k" if "k \<in> M" for k
    using touches_files [OF A(2)] A(1) that by auto
  ultimately show ?thesis using A(3) by blast
qed

lemma install_evolves:
  assumes I: "install_certificate env c bdl w = (r, w')" and "shell_keeps env M" and M: "set (cert_paths c) \<subseteq> M"
    and plain: "\<forall>p \<in> M. plain_path (awOs w) p" and "distinct (cert_paths c)"
    and now: "service_state cr M c f0 (files (awOs w))"
    and key: "key_on_disk cr (ccKey c) key (files (awOs w))"
    and cert: "ParseCertificatePEM cr (CertPEM bdl) = Inr cert" "CertificateMatchesPrivateKey cr cert key = None"
      "CertificateHasExactDNSNames cert (ccDNSNames c) = None"
  shows "evolves (service_state cr M c f0) (awOs w) (awOs w') \<and> awKeys w' = awKeys w
     \<and> (r = None \<longrightarrow> usable cr c cert (files (awOs w')))"
proof -
  let ?fs = "[(ccCert c, CertPEM bdl), (ccChain c, ChainPEM bdl), (ccFullChain c, FullChainPEM bdl)]"
  obtain e s1 where W: "write_files ?fs (awOs w) = (e, s1)" by (cases "write_files ?fs (awOs w)")
  have paths: "ccKey c \<in> M" "ccCert c \<in> M" "\<forall>p \<in> fst ` set ?fs. plain_path (awOs w) p" "distinct (map fst ?fs)"
    "ccKey c \<notin> fst ` set ?fs" using M plain assms(5) by (auto simp: cert_paths_def)
  note wf = write_files_evolves [OF W paths(3,4)]
  have state: "service_state cr M c f0 d" if "rewritten (awOs w) ?fs d" for d
  proof -
    have k: "map_get d (ccKey c) = map_get (files (awOs w)) (ccKey c)" using that paths plain by (auto simp: rewritten_def)
    have "map_get d p = map_get (files (awOs w)) p" if "p \<in> M - set (cert_paths c)" for p
      using \<open>rewritten (awOs w) ?fs d\<close> that plain by (auto simp: rewritten_def cert_paths_def)
    moreover have "map_get d (ccCert c) = map_get (files (awOs w)) (ccCert c) \<or> usable cr c cert d"
      using that key cert(1,2) k by (auto simp: rewritten_def usable_def key_on_disk_def cert_on_disk_def)
    ultimately show ?thesis
      using now k cert(3) usable_cong [of d c "files (awOs w)"] unfolding service_state_def by metis
  qed
  have ev: "evolves (service_state cr M c f0) (awOs w) s1" using wf state by (auto intro: evolves_mono)
  have inst: "usable cr c cert (files s1)" if "e = None"
  proof -
    have "map_get (files s1) (ccKey c) = map_get (files (awOs w)) (ccKey c)"
      using evolves_files [OF conjunct1 [OF wf]] paths plain by (auto simp: rewritten_def)
    then show ?thesis using wf that key cert by (auto simp: usable_def key_on_disk_def cert_on_disk_def)
  qed
  show ?thesis
  proof (cases "e = None \<and> TrimSpace (ccReloadCommand c) \<noteq> []")
    case True
    then obtain oe where R: "runReload env (ccReloadCommand c) (ccReloadTimeout c) (w\<lparr>awOs := s1\<rparr>) = (oe, w')"
      using I W by (auto simp: install_certificate_def WriteToDisk_def on_disk_def split: prod.splits)
    note rr = runReload_evolves [OF R assms(2) M, of cr f0]
    have "evolves (service_state cr M c f0) s1 (awOs w')" "awKeys w' = awKeys w"
      "\<forall>k \<in> M. map_get (files (awOs w')) k = map_get (files s1) k"
      using rr evolves_files [OF ev] by auto
    moreover from this(3) have "usable cr c cert (files (awOs w'))"
      using usable_cong [of "files (awOs w')" c "files s1"] inst True paths by blast
    ultimately show ?thesis using evolves_trans [OF ev] by blast
  next
    case False
    then have "awOs w' = s1" "awKeys w' = awKeys w" "r = None \<longrightarrow> e = None"
      using I W by (auto simp: install_certificate_def WriteToDisk_def on_disk_def split: prod.splits option.splits)
    then show ?thesis using ev inst by blast
  qed
qed

lemma ensure_key_state:
  assumes "EnsureECDSAPrivateKey cr drawn (ccKey c) s = (r, s')" and M: "set (cert_paths c) \<subseteq> M"
    and plain: "\<forall>p \<in> M. plain_path s p" and "distinct (cert_paths c)"
  shows "evolves (service_state cr M c (files s)) s s'"
proof (rule ensure_key_evolves [OF assms(1)])
  have paths: "ccKey c \<in> M" "ccCert c \<in> M" "ccKey c \<in> set (cert_paths c)" "ccCert c \<noteq> ccKey c"
    using M assms(4) by (auto simp: cert_paths_def)
  then show "plain_path s (ccKey c)" using plain by blast
  fix d assume d: "\<forall>k. plain_path s k \<longrightarrow> k \<noteq> ccKey c \<longrightarrow> map_get d k = map_get (files s) k"
    "map_get (files s) (ccKey c) \<noteq> None \<longrightarrow> map_get d (ccKey c) = map_get (files s) (ccKey c)"
  then have "map_get d k = map_get (files s) k" if "k \<in> M" "k \<noteq> ccKey c" for k using plain that by blast
  then show "service_state cr M c (files s) d" using d(2) paths unfolding service_state_def by auto
qed

lemma ensured_key:
  assumes E: "EnsureECDSAPrivateKey cr drawn path s = (Inr (key, pem), s')" and "plain_path s path"
    and "\<forall>k. drawn = Some k \<longrightarrow> key_roundtrip cr k"
  shows "key_on_disk cr path key (files s')"
  using EnsureECDSAPrivateKey_result [OF assms(2) E assms(3)]
  by (auto simp: key_on_disk_def split: option.splits)

text \<open>The parts of a run for one certificate, in the order of the code.\<close>

lemma ensureServiceCertificate_parts:
  assumes "ensureServiceCertificate env client c w = (r, w')"
  obtains (early) "r \<noteq> None" and "w' = w\<lparr>awOs := tick (awOs w)\<rparr>"
  | (no_key) w2 x s3 where "r \<noteq> None" and "w2 = w\<lparr>awOs := tick (awOs w), awDraws := Suc (awDraws w)\<rparr>"
      and "EnsureECDSAPrivateKey (aeCrypto env) (awKeys w (awDraws w)) (ccKey c) (awOs w2) = (x, s3)" and "w' = w2\<lparr>awOs := s3\<rparr>"
  | (keyed) w2 key pem s3 e w4 where "w2 = w\<lparr>awOs := tick (awOs w), awDraws := Suc (awDraws w)\<rparr>"
      and "EnsureECDSAPrivateKey (aeCrypto env) (awKeys w (awDraws w)) (ccKey c) (awOs w2) = (Inr (key, pem), s3)"
      and "existing_certificate env c key (w2\<lparr>awOs := s3\<rparr>) = (e, w4)"
      and "(case e of Inl x \<Rightarrow> r = Some x \<and> w' = w4 | Inr True \<Rightarrow> r = None \<and> w' = w4
        | Inr False \<Rightarrow> (case request_certificate env client c key w4 of
            (Inl x, w5) \<Rightarrow> r = Some x \<and> w' = w5 | (Inr bdl, w5) \<Rightarrow> install_certificate env c bdl w5 = (r, w')))"
proof -
  obtain x s1 where 1: "FileExists (ccKey c) (awOs w) = (x, s1)" by (cases "FileExists (ccKey c) (awOs w)")
  have s1: "s1 = tick (awOs w)" using FileExists_cases [OF 1] by blast
  let ?w2 = "w\<lparr>awOs := s1, awDraws := Suc (awDraws w)\<rparr>"
  let ?E = "EnsureECDSAPrivateKey (aeCrypto env) (awKeys w (awDraws w)) (ccKey c) s1"
  obtain k s3 where 2: "?E = (k, s3)" by (cases ?E)
  show ?thesis
  proof (cases x)
    case (Inl a)
    then show ?thesis using assms 1 s1 early by (auto simp: ensureServiceCertificate_def on_disk_def)
  next
    case (Inr b)
    show ?thesis
    proof (cases k)
      case (Inl a)
      then show ?thesis using assms 1 2 s1 \<open>x = Inr b\<close> no_key [of ?w2 k s3]
        by (auto simp: ensureServiceCertificate_def on_disk_def agent_key_def)
    next
      case (Inr kp)
      obtain key pem where kp: "kp = (key, pem)" by (cases kp)
      obtain e w4 where 3: "existing_certificate env c key (?w2\<lparr>awOs := s3\<rparr>) = (e, w4)"
        by (cases "existing_certificate env c key (?w2\<lparr>awOs := s3\<rparr>)")
      have "ensureServiceCertificate env client c w = (case (e, w4) of (Inl x, w) \<Rightarrow> (Some x, w) | (Inr True, w) \<Rightarrow> (None, w)
          | (Inr False, w) \<Rightarrow> (case request_certificate env client c key w of
              (Inl x, w) \<Rightarrow> (Some x, w) | (Inr bdl, w) \<Rightarrow> install_certificate env c bdl w))"
        using 1 2 3 \<open>x = Inr b\<close> \<open>k = Inr kp\<close> kp
        by (simp add: ensureServiceCertificate_def on_disk_def agent_key_def)
      then show ?thesis
        using assms 2 3 s1 \<open>k = Inr kp\<close> kp keyed [of ?w2 key pem s3 e w4]
        by (auto split: sum.splits bool.splits prod.splits)
    qed
  qed
qed

text \<open>
  One certificate: all states on the way, and what success means.
\<close>

lemma ensure_outcome:
  assumes E: "ensureServiceCertificate env client c w = (r, w')" and shell: "shell_keeps env M" and M: "set (cert_paths c) \<subseteq> M"
    and plain: "\<forall>p \<in> M. plain_path (awOs w) p" and dist: "distinct (cert_paths c)"
    and keys: "\<forall>n k. awKeys w n = Some k \<longrightarrow> key_roundtrip (aeCrypto env) k"
  shows "evolves (service_state (aeCrypto env) M c (files (awOs w))) (awOs w) (awOs w') \<and> awKeys w' = awKeys w
     \<and> (r = None \<longrightarrow> (\<exists>cert. usable (aeCrypto env) c cert (files (awOs w'))
          \<and> (CertificateHasExactDNSNames cert (ccDNSNames c) = None \<or> (\<exists>now. \<not> ExpiresWithin now cert (ccRenewBefore c)))))"
proof -
  let ?cr = "aeCrypto env" and ?S = "service_state (aeCrypto env) M c (files (awOs w))"
  have start: "?S (files (awOs w))" by (simp add: service_state_def)
  have tick: "evolves ?S (awOs w) (tick (awOs w))" using start by simp
  from E show ?thesis
  proof (cases rule: ensureServiceCertificate_parts)
    case early
    then show ?thesis using tick by auto
  next
    case (no_key w2 x s3)
    then have "evolves ?S (tick (awOs w)) s3"
      using ensure_key_state [of ?cr _ c "tick (awOs w)" x s3 M] M plain dist by simp
    then show ?thesis using no_key evolves_trans [OF tick] by auto
  next
    case (keyed w2 key pem s3 e w4)
    have 3: "evolves ?S (awOs w) s3"
      using keyed(1,2) ensure_key_state [of ?cr _ c "tick (awOs w)" "Inr (key, pem)" s3 M] M plain dist evolves_trans [OF tick] by simp
    have "ccKey c \<in> M" using M by (auto simp: cert_paths_def)
    then have key: "key_on_disk ?cr (ccKey c) key (files s3)"
      using keyed(1,2) ensured_key [of ?cr _ "ccKey c" "tick (awOs w)" key pem s3] plain keys by auto
    note ex = existing_certificate_outcome [OF keyed(3)]
    have 4: "evolves ?S (awOs w) (awOs w4)" "files (awOs w4) = files s3" "awKeys w4 = awKeys w"
      using ex keyed(1) by (auto intro!: evolves_trans [OF 3] evolves_same evolves_files [OF 3])
    show ?thesis
    proof (cases e)
      case (Inl x)
      then show ?thesis using keyed(4) 4 by simp
    next
      case (Inr skip)
      show ?thesis
      proof (cases skip)
        case True
        then obtain cert now where "cert_on_disk ?cr (ccCert c) cert (files s3)"
          "CertificateMatchesPrivateKey ?cr cert key = None" "\<not> ExpiresWithin now cert (ccRenewBefore c)"
          using ex Inr by auto
        then show ?thesis using keyed(4) Inr True 4 key unfolding usable_def by auto
      next
        case False
        obtain q w5 where R: "request_certificate env client c key w4 = (q, w5)" by (cases "request_certificate env client c key w4")
        note rq = request_certificate_outcome [OF R]
        show ?thesis
        proof (cases q)
          case (Inl x)
          then show ?thesis using keyed(4) Inr False R rq 4 \<open>e = Inr skip\<close> by simp
        next
          case (Inr bdl)
          then obtain cert where cert: "ParseCertificatePEM ?cr (CertPEM bdl) = Inr cert"
            "CertificateMatchesPrivateKey ?cr cert key = None" "CertificateHasExactDNSNames cert (ccDNSNames c) = None"
            using rq by blast
          have I: "install_certificate env c bdl w5 = (r, w')" using keyed(4) \<open>e = Inr skip\<close> False R Inr by simp
          have w5: "awOs w5 = awOs w4" "awKeys w5 = awKeys w" using rq 4 by auto
          have "\<forall>p \<in> M. plain_path (awOs w5) p" using plain evolves_plain [OF 4(1)] w5 by simp
          then have "evolves ?S (awOs w5) (awOs w') \<and> awKeys w' = awKeys w5 \<and> (r = None \<longrightarrow> usable ?cr c cert (files (awOs w')))"
            using install_evolves [OF I shell M _ dist, of ?cr "files (awOs w)" key cert] evolves_files [OF 4(1)] w5 4(2) key cert by simp
          then show ?thesis using evolves_trans [OF 4(1)] w5 cert(3) by auto
        qed
      qed
    qed
  qed
qed

section \<open>All certificates\<close>

definition services_state ::
  "crypto \<Rightarrow> string set \<Rightarrow> cert_config list \<Rightarrow> os_file strmap \<Rightarrow> os_file strmap \<Rightarrow> bool" where
  "services_state cr M cs f0 d \<longleftrightarrow>
     (\<forall>k \<in> M - set (concat (map cert_paths cs)). map_get d k = map_get f0 k)
     \<and> (\<forall>c \<in> set cs. (map_get f0 (ccKey c) \<noteq> None \<longrightarrow> map_get d (ccKey c) = map_get f0 (ccKey c))
         \<and> (map_get d (ccCert c) = map_get f0 (ccCert c)
            \<or> (\<exists>cert. usable cr c cert d \<and> CertificateHasExactDNSNames cert (ccDNSNames c) = None)))"

lemma cert_paths_keys [simp]: "ccKey c \<in> set (cert_paths c)" "ccCert c \<in> set (cert_paths c)"
  by (simp_all add: cert_paths_def)

lemma service_paths_member:
  "c \<in> set cs \<Longrightarrow> ccKey c \<in> set (concat (map cert_paths cs)) \<and> ccCert c \<in> set (concat (map cert_paths cs))"
  by (auto intro: bexI [of _ c])

lemma services_state_first:
  assumes "service_state cr M c f0 d" and M: "set (concat (map cert_paths (c # cs))) \<subseteq> M"
    and dist: "distinct (concat (map cert_paths (c # cs)))"
  shows "services_state cr M (c # cs) f0 d"
proof -
  have "map_get d p = map_get f0 p" if "c' \<in> set cs" "p \<in> set (cert_paths c')" for c' p
  proof -
    have "p \<in> set (concat (map cert_paths cs))" using that by auto
    then have "p \<in> M - set (cert_paths c)" using M dist by auto
    then show ?thesis using assms(1) by (auto simp: service_state_def)
  qed
  then have "\<forall>c' \<in> set cs. map_get d (ccKey c') = map_get f0 (ccKey c') \<and> map_get d (ccCert c') = map_get f0 (ccCert c')"
    by auto
  then show ?thesis using assms(1) unfolding services_state_def service_state_def by auto
qed

lemma services_state_rest:
  assumes f1: "service_state cr M c f0 f1" and d: "services_state cr M cs f1 d"
    and M: "set (concat (map cert_paths (c # cs))) \<subseteq> M" and dist: "distinct (concat (map cert_paths (c # cs)))"
  shows "services_state cr M (c # cs) f0 d"
proof -
  have disj: "set (cert_paths c) \<inter> set (concat (map cert_paths cs)) = {}" using dist by auto
  have c: "map_get d p = map_get f1 p" if "p \<in> set (cert_paths c)" for p
  proof -
    have "p \<in> M - set (concat (map cert_paths cs))" using that M disj by auto
    then show ?thesis using d by (auto simp: services_state_def)
  qed
  have rest: "map_get f1 p = map_get f0 p" if "p \<in> set (concat (map cert_paths cs))" for p
  proof -
    have "p \<in> M - set (cert_paths c)" using that M disj by auto
    then show ?thesis using f1 by (auto simp: service_state_def)
  qed
  have "map_get f1 (ccKey c') = map_get f0 (ccKey c') \<and> map_get f1 (ccCert c') = map_get f0 (ccCert c')" if "c' \<in> set cs" for c'
    using that rest by force
  then have tl: "\<forall>c' \<in> set cs. (map_get f0 (ccKey c') \<noteq> None \<longrightarrow> map_get d (ccKey c') = map_get f0 (ccKey c'))
         \<and> (map_get d (ccCert c') = map_get f0 (ccCert c')
            \<or> (\<exists>cert. usable cr c' cert d \<and> CertificateHasExactDNSNames cert (ccDNSNames c') = None))"
    using d unfolding services_state_def by metis
  have "map_get d (ccKey c) = map_get f1 (ccKey c)" "map_get d (ccCert c) = map_get f1 (ccCert c)" using c by simp_all
  then have hd: "(map_get f0 (ccKey c) \<noteq> None \<longrightarrow> map_get d (ccKey c) = map_get f0 (ccKey c))
         \<and> (map_get d (ccCert c) = map_get f0 (ccCert c)
            \<or> (\<exists>cert. usable cr c cert d \<and> CertificateHasExactDNSNames cert (ccDNSNames c) = None))"
    using f1 usable_cong [of d c f1] unfolding service_state_def by metis
  have "map_get d k = map_get f0 k" if "k \<in> M - set (concat (map cert_paths (c # cs)))" for k
    using that d f1 by (auto simp: services_state_def service_state_def)
  with hd tl show ?thesis unfolding services_state_def by auto
qed

lemma usable_unchanged:
  assumes "services_state cr M cs f1 d" and "set (cert_paths c) \<subseteq> M" and "set (cert_paths c) \<inter> set (concat (map cert_paths cs)) = {}"
  shows "usable cr c cert d = usable cr c cert f1"
proof (rule usable_cong)
  have "map_get d p = map_get f1 p" if "p \<in> set (cert_paths c)" for p
    using assms that unfolding services_state_def by blast
  then show "map_get d (ccKey c) = map_get f1 (ccKey c)" "map_get d (ccCert c) = map_get f1 (ccCert c)" by simp_all
qed

lemma ensure_all_outcome:
  assumes "ensure_all env client cs w = (r, w')" and shell: "shell_keeps env M"
    and "set (concat (map cert_paths cs)) \<subseteq> M" and "\<forall>p \<in> M. plain_path (awOs w) p"
    and "distinct (concat (map cert_paths cs))"
    and "\<forall>n k. awKeys w n = Some k \<longrightarrow> key_roundtrip (aeCrypto env) k"
  shows "evolves (services_state (aeCrypto env) M cs (files (awOs w))) (awOs w) (awOs w')
     \<and> (r = None \<longrightarrow> (\<forall>c \<in> set cs. \<exists>cert. usable (aeCrypto env) c cert (files (awOs w'))))"
  using assms(1,3-)
proof (induction cs arbitrary: w)
  case Nil
  then show ?case by (simp add: evolves_def services_state_def)
next
  case (Cons c cs)
  let ?cr = "aeCrypto env"
  obtain e w1 where E: "ensureServiceCertificate env client c w = (e, w1)" by (cases "ensureServiceCertificate env client c w")
  have M: "set (cert_paths c) \<subseteq> M" "set (concat (map cert_paths cs)) \<subseteq> M" "distinct (cert_paths c)" "distinct (concat (map cert_paths cs))"
    "set (cert_paths c) \<inter> set (concat (map cert_paths cs)) = {}"
    using Cons.prems(2,4) by auto
  note out = ensure_outcome [OF E shell M(1) Cons.prems(3) M(3) Cons.prems(5)]
  then have ev1: "evolves (service_state ?cr M c (files (awOs w))) (awOs w) (awOs w1)" and keys: "awKeys w1 = awKeys w" by blast+
  have first: "evolves (services_state ?cr M (c # cs) (files (awOs w))) (awOs w) (awOs w1)"
    by (rule evolves_mono [OF ev1]) (rule services_state_first [OF _ Cons.prems(2,4)])
  show ?case
  proof (cases e)
    case (Some x)
    then show ?thesis using Cons.prems(1) E first by auto
  next
    case None
    then have rest: "ensure_all env client cs w1 = (r, w')" using Cons.prems(1) E by simp
    have plain: "\<forall>p \<in> M. plain_path (awOs w1) p" using Cons.prems(3) evolves_plain [OF ev1] by simp
    note IH = Cons.IH [OF rest M(2) plain M(4)]
    have ev2: "evolves (services_state ?cr M cs (files (awOs w1))) (awOs w1) (awOs w')"
      and tl: "r = None \<longrightarrow> (\<forall>c \<in> set cs. \<exists>cert. usable ?cr c cert (files (awOs w')))"
      using IH Cons.prems(5) keys by auto
    have "evolves (services_state ?cr M (c # cs) (files (awOs w))) (awOs w1) (awOs w')"
      by (rule evolves_mono [OF ev2]) (rule services_state_rest [OF evolves_files [OF ev1] _ Cons.prems(2,4)])
    moreover have "\<exists>cert. usable ?cr c cert (files (awOs w'))"
      using out None usable_unchanged [OF evolves_files [OF ev2] M(1) M(5)] by blast
    ultimately show ?thesis using evolves_trans [OF first] tl by auto
  qed
qed

end
