(* ===== verification/Agent_Run.thy ===== *)
theory Agent_Run
  imports Agent_Safety
begin

text \<open>
  Whole runs of the agent: under its lock, with the renewal of its identity, and the enrolment of a
  host; and what the check command then finds.
\<close>

section \<open>The lock\<close>

lemma touches_OpenExcl: "os_OpenExcl path m s = (r, s') \<Longrightarrow> touches {path} s s'"
  by (auto simp: os_OpenExcl_def sd.get_put intro!: touches_change split: if_splits option.splits)

lemma touches_Remove: "os_Remove path s = (r, s') \<Longrightarrow> touches {path} s s'"
  by (auto simp: os_Remove_def intro!: touches_change split: if_splits)

lemma AcquireLock_touches:
  assumes "AcquireLock path pid s = (r, s')"
  shows "touches {path} s s'"
proof -
  obtain e s1 where 1: "os_OpenExcl path 384 (tick s) = (e, s1)" by (cases "os_OpenExcl path 384 (tick s)")
  have t: "touches {path} s s1" using touches_trans [OF touches_tick touches_OpenExcl [OF 1]] .
  have "s' = tick s \<or> s' = s1 \<or> s' = snd (os_Write path (decimal pid @ [CHR 0x0A]) s1)"
    using assms 1 by (auto simp: AcquireLock_def os_call_def split: if_splits option.splits bool.splits prod.splits)
  then show ?thesis using t touches_trans [OF t touches_calls(2)] by auto
qed

lemma Release_touches:
  assumes "Release (Some path) s = (r, s')"
  shows "touches {path} s s'"
proof -
  obtain e s1 where 1: "os_Remove path (tick s) = (e, s1)" by (cases "os_Remove path (tick s)")
  then have "s' = s1" using assms by (auto simp: Release_def os_call_def Let_def)
  then show ?thesis using touches_trans [OF touches_tick touches_Remove [OF 1]] by simp
qed

text \<open>
  A body under the lock: a property of the states that does not look at the lock file holds in all of
  them. Without the lock nothing happens.
\<close>

lemma with_lock_evolves:
  assumes "with_lock cfg pid body w = (r, w')"
    and cong: "\<And>d d'. (\<forall>k. k \<noteq> lock_path cfg \<longrightarrow> map_get d k = map_get d' k) \<Longrightarrow> P d' \<Longrightarrow> P d"
    and "P (files (awOs w))"
    and body: "\<And>w1 r1 w2. body w1 = (r1, w2) \<Longrightarrow> awKeys w1 = awKeys w \<Longrightarrow> awNet w1 = awNet w \<Longrightarrow> touches {lock_path cfg} (awOs w) (awOs w1)
      \<Longrightarrow> evolves P (awOs w1) (awOs w2)"
  shows "evolves P (awOs w) (awOs w')"
proof -
  obtain l s1 where A: "AcquireLock (lock_path cfg) pid (awOs w) = (l, s1)" by (cases "AcquireLock (lock_path cfg) pid (awOs w)")
  note t = AcquireLock_touches [OF A]
  have 1: "evolves P (awOs w) s1" by (rule touches_evolves [OF t]) (rule cong [OF _ assms(3)], simp)
  show ?thesis
  proof (cases l)
    case (Inl e)
    then show ?thesis using assms(1) A 1 by (auto simp: with_lock_def on_disk_def)
  next
    case (Inr p)
    then have p: "p = lock_path cfg" using AcquireLock_cases [OF A] by auto
    obtain r2 w2 where B: "body (w\<lparr>awOs := s1\<rparr>) = (r2, w2)" by (cases "body (w\<lparr>awOs := s1\<rparr>)")
    have 2: "evolves P s1 (awOs w2)" using body [OF B] t by simp
    obtain e s3 where R: "Release (Some p) (awOs w2) = (e, s3)" by (cases "Release (Some p) (awOs w2)")
    have "evolves P (awOs w2) s3"
      by (rule touches_evolves [OF Release_touches [OF R]]) (rule cong [OF _ evolves_files [OF 2]], simp add: p)
    moreover have "awOs w' = s3" using assms(1) A Inr B R by (auto simp: with_lock_def on_disk_def)
    ultimately show ?thesis using evolves_trans [OF evolves_trans [OF 1 2]] by simp
  qed
qed

section \<open>The identity\<close>

definition same_disk :: "os \<Rightarrow> os \<Rightarrow> bool" where
  "same_disk s s' \<longleftrightarrow> files s' = files s \<and> history s' = history s \<and> temp_suffix s' = temp_suffix s \<and> faults s' = faults s"

lemma same_disk_evolves: "same_disk s s' \<Longrightarrow> P (files s) \<Longrightarrow> evolves P s s'"
  by (auto simp: same_disk_def intro: evolves_same)

lemma same_disk_tick [simp]: "same_disk s (tick s)" "same_disk s (tick (tick s))" "same_disk s (tick (tick (tick s)))" "same_disk s s"
  by (simp_all add: same_disk_def)

text \<open>A renewal that writes: what was on the disk, when, and what the authority answered.\<close>

definition renews ::
  "'n agent_env \<Rightarrow> agent_config \<Rightarrow> 'n identity_ca \<Rightarrow> os_file strmap \<Rightarrow> identity_certificate \<Rightarrow> bool" where
  "renews env cfg ca f0 ic \<longleftrightarrow> (\<exists>cf kf cert now now' root n n'.
     map_get f0 (idCert (agIdentity cfg)) = Some cf \<and> map_get f0 (idKey (agIdentity cfg)) = Some kf
     \<and> ParseCertificatePEM (aeCrypto env) (content cf) = Inr cert \<and> \<not> IsExpired now cert
     \<and> ExpiresWithin now' cert (idRenewBefore (agIdentity cfg))
     \<and> caRenew ca \<lparr>rrCertPEM = content cf, rrKeyPEM = content kf, rrIssuerCAPEM = root\<rparr> n = (Inr ic, n'))"

lemma read_identity_cases:
  assumes "read_identity path w = (r, w')"
  shows "w' = w\<lparr>awOs := tick (awOs w)\<rparr>
     \<and> (\<forall>data. r = Inr data \<longrightarrow> (\<exists>f. map_get (files (awOs w)) path = Some f \<and> content f = data))"
  using assms by (auto simp: read_identity_def on_disk_split split: prod.splits sum.splits dest!: os_ReadFile_cases)

lemma identity_material_cases:
  assumes "identity_material i w = (r, w')"
  shows "same_disk (awOs w) (awOs w') \<and> awKeys w' = awKeys w \<and> (\<forall>c k ca. r = Inr (c, k, ca) \<longrightarrow>
     (\<exists>cf kf. map_get (files (awOs w)) (idCert i) = Some cf \<and> content cf = c
        \<and> map_get (files (awOs w)) (idKey i) = Some kf \<and> content kf = k))"
  using assms
  by (auto simp: identity_material_def split: prod.splits sum.splits dest!: read_identity_cases)

lemma renewal_due_cases:
  assumes "renewal_due env i certData w = (r, w')"
  shows "awOs w' = awOs w \<and> awKeys w' = awKeys w \<and> (r = Inr True \<longrightarrow>
     (\<exists>cert now now'. ParseCertificatePEM (aeCrypto env) certData = Inr cert \<and> \<not> IsExpired now cert
        \<and> ExpiresWithin now' cert (idRenewBefore i)))"
  using assms
  by (auto simp: renewal_due_def agent_now_def Let_def split: prod.splits sum.splits if_splits)

lemma renew_identity_cases:
  assumes "renew_identity i ca req w = (r, w')"
  shows "awKeys w' = awKeys w \<and> (awOs w' = awOs w \<or> (\<exists>ic n n' e. caRenew ca req n = (Inr ic, n')
     \<and> WriteFileAtomic (idCert i) (icCertPEM ic) 420 (awOs w) = (e, awOs w')))"
  using assms
  by (auto simp: renew_identity_def on_disk_split on_net_split split: prod.splits sum.splits option.splits) blast+

lemma renew_parts:
  assumes "RenewIdentityIfNeeded env cfg ca w = (r, w')"
  shows "awKeys w' = awKeys w \<and> (same_disk (awOs w) (awOs w')
     \<or> (\<exists>s1 ic e. same_disk (awOs w) s1 \<and> renews env cfg ca (files (awOs w)) ic
          \<and> WriteFileAtomic (idCert (agIdentity cfg)) (icCertPEM ic) 420 s1 = (e, awOs w')))"
proof -
  let ?i = "agIdentity cfg"
  obtain m w1 where 1: "identity_material ?i w = (m, w1)" by (cases "identity_material ?i w")
  note m = identity_material_cases [OF 1]
  show ?thesis
  proof (cases m)
    case (Inl e)
    then show ?thesis using assms 1 m by (auto simp: RenewIdentityIfNeeded_def)
  next
    case (Inr t)
    obtain c k root where t: "t = (c, k, root)" by (cases t)
    obtain d w2 where 2: "renewal_due env ?i c w1 = (d, w2)" by (cases "renewal_due env ?i c w1")
    note d = renewal_due_cases [OF 2]
    show ?thesis
    proof (cases "d = Inr True")
      case True
      then have R: "renew_identity ?i ca \<lparr>rrCertPEM = c, rrKeyPEM = k, rrIssuerCAPEM = root\<rparr> w2 = (r, w')"
        using assms 1 2 Inr t by (simp add: RenewIdentityIfNeeded_def)
      note rc = renew_identity_cases [OF R]
      obtain cf kf where files: "map_get (files (awOs w)) (idCert ?i) = Some cf" "content cf = c"
        "map_get (files (awOs w)) (idKey ?i) = Some kf" "content kf = k" using m Inr t by auto
      obtain cert now now' where "ParseCertificatePEM (aeCrypto env) c = Inr cert" "\<not> IsExpired now cert"
        "ExpiresWithin now' cert (idRenewBefore ?i)" using d True by auto
      with files have "renews env cfg ca (files (awOs w)) ic"
        if "caRenew ca \<lparr>rrCertPEM = c, rrKeyPEM = k, rrIssuerCAPEM = root\<rparr> n = (Inr ic, n')" for n ic n'
        using that unfolding renews_def by auto
      moreover have "same_disk (awOs w) (awOs w2)" "awKeys w2 = awKeys w" using m d by auto
      ultimately show ?thesis using rc by metis
    next
      case False
      then have "w' = w2" using assms 1 2 Inr t by (auto simp: RenewIdentityIfNeeded_def split: sum.splits bool.splits)
      then show ?thesis using m d by simp
    qed
  qed
qed

section \<open>A run\<close>

text \<open>The files that the agent owns.\<close>

definition own_paths :: "agent_config \<Rightarrow> string list" where
  "own_paths cfg = lock_path cfg # idCert (agIdentity cfg) # idKey (agIdentity cfg)
     # concat (map cert_paths (agCertificates cfg))"

text \<open>
  What holds of every state of the disk during a run that began with \<open>f0\<close>: keys are kept, a service
  certificate is the old one or one that belongs to its key and has exactly the configured names, and the
  identity is the old one or one that a renewal gave.
\<close>

definition run_state ::
  "'n agent_env \<Rightarrow> agent_config \<Rightarrow> 'n identity_ca \<Rightarrow> os_file strmap \<Rightarrow> os_file strmap \<Rightarrow> bool" where
  "run_state env cfg ca f0 d \<longleftrightarrow>
     (\<forall>c \<in> set (agCertificates cfg). (map_get f0 (ccKey c) \<noteq> None \<longrightarrow> map_get d (ccKey c) = map_get f0 (ccKey c))
         \<and> (map_get d (ccCert c) = map_get f0 (ccCert c)
            \<or> (\<exists>cert. usable (aeCrypto env) c cert d \<and> CertificateHasExactDNSNames cert (ccDNSNames c) = None)))
     \<and> map_get d (idKey (agIdentity cfg)) = map_get f0 (idKey (agIdentity cfg))
     \<and> (map_get d (idCert (agIdentity cfg)) = map_get f0 (idCert (agIdentity cfg))
         \<or> (\<exists>ic. renews env cfg ca f0 ic \<and> map_get d (idCert (agIdentity cfg)) = Some \<lparr>content = icCertPEM ic, mode = 420\<rparr>))"

lemma run_state_refl: "run_state env cfg ca f0 f0"
  by (simp add: run_state_def)

lemma run_state_cong:
  assumes "\<forall>k \<in> set (own_paths cfg) - {lock_path cfg}. map_get d k = map_get d' k" and "distinct (own_paths cfg)"
    and "run_state env cfg ca f0 d'"
  shows "run_state env cfg ca f0 d"
proof -
  have same: "map_get d k = map_get d' k"
    if "k = idCert (agIdentity cfg) \<or> k = idKey (agIdentity cfg) \<or> k \<in> set (concat (map cert_paths (agCertificates cfg)))" for k
    using assms(1,2) that by (auto simp: own_paths_def)
  have c: "map_get d (ccKey c) = map_get d' (ccKey c) \<and> map_get d (ccCert c) = map_get d' (ccCert c)"
    if "c \<in> set (agCertificates cfg)" for c
    using same service_paths_member [OF that] by simp
  have u: "usable (aeCrypto env) c cert d = usable (aeCrypto env) c cert d'" if "c \<in> set (agCertificates cfg)" for c cert
    using usable_cong c that by blast
  show ?thesis
    using assms(3) same [of "idCert (agIdentity cfg)"] same [of "idKey (agIdentity cfg)"]
    unfolding run_state_def by (simp add: c u cong: ball_cong)
qed

lemma run_state_start:
  assumes "\<forall>k \<in> set (own_paths cfg) - {lock_path cfg}. map_get f1 k = map_get f0 k" and "distinct (own_paths cfg)"
    and "run_state env cfg ca f1 d"
  shows "run_state env cfg ca f0 d"
proof -
  have same: "map_get f1 k = map_get f0 k"
    if "k = idCert (agIdentity cfg) \<or> k = idKey (agIdentity cfg) \<or> k \<in> set (concat (map cert_paths (agCertificates cfg)))" for k
    using assms(1,2) that by (auto simp: own_paths_def)
  have c: "map_get f1 (ccKey c) = map_get f0 (ccKey c) \<and> map_get f1 (ccCert c) = map_get f0 (ccCert c)"
    if "c \<in> set (agCertificates cfg)" for c
    using same service_paths_member [OF that] by simp
  have r: "renews env cfg ca f1 ic = renews env cfg ca f0 ic" for ic
    using same [of "idCert (agIdentity cfg)"] same [of "idKey (agIdentity cfg)"] by (simp add: renews_def)
  show ?thesis
    using assms(3) same [of "idCert (agIdentity cfg)"] same [of "idKey (agIdentity cfg)"]
    unfolding run_state_def by (simp add: c r cong: ball_cong)
qed

text \<open>The renewal of the identity, and the certificates after it.\<close>

lemma renew_run_state:
  assumes "RenewIdentityIfNeeded env cfg ca w = (r, w')" and plain: "\<forall>p \<in> set (own_paths cfg). plain_path (awOs w) p"
    and dist: "distinct (own_paths cfg)"
  shows "awKeys w' = awKeys w \<and> evolves (\<lambda>d. run_state env cfg ca (files (awOs w)) d
     \<and> (\<forall>k \<in> set (concat (map cert_paths (agCertificates cfg))). map_get d k = map_get (files (awOs w)) k)) (awOs w) (awOs w')"
proof -
  let ?i = "idCert (agIdentity cfg)" and ?f0 = "files (awOs w)"
  let ?P = "\<lambda>d. run_state env cfg ca ?f0 d \<and> (\<forall>k \<in> set (concat (map cert_paths (agCertificates cfg))). map_get d k = map_get ?f0 k)"
  note parts = renew_parts [OF assms(1)]
  consider "same_disk (awOs w) (awOs w')"
    | s1 ic e where "same_disk (awOs w) s1" "renews env cfg ca ?f0 ic" "WriteFileAtomic ?i (icCertPEM ic) 420 s1 = (e, awOs w')"
    using parts by blast
  then have "evolves ?P (awOs w) (awOs w')"
  proof cases
    case 1
    then show ?thesis using run_state_refl by (intro same_disk_evolves) auto
  next
    case 2
    have s1: "files s1 = ?f0" "plain_path s1 p = plain_path (awOs w) p" for p
      using 2(1) by (auto simp: same_disk_def plain_path_def)
    have i: "?i \<in> set (own_paths cfg)" by (simp add: own_paths_def)
    have ev: "evolves ?P s1 (awOs w')"
    proof (rule write_evolves [OF 2(3)])
      show "plain_path s1 ?i" using s1 plain i by blast
      fix d assume others: "\<forall>k. plain_path s1 k \<longrightarrow> k \<noteq> ?i \<longrightarrow> map_get d k = map_get (files s1) k"
        and new: "map_get d ?i \<in> {map_get (files s1) ?i, Some \<lparr>content = icCertPEM ic, mode = 420\<rparr>}"
      have same: "map_get d k = map_get ?f0 k" if "k \<in> set (own_paths cfg)" "k \<noteq> ?i" for k
        using others s1 plain that by auto
      have "\<forall>k \<in> set (concat (map cert_paths (agCertificates cfg))). map_get d k = map_get ?f0 k"
        using same dist by (auto simp: own_paths_def)
      moreover from this have "\<forall>c \<in> set (agCertificates cfg). map_get d (ccKey c) = map_get ?f0 (ccKey c)
          \<and> map_get d (ccCert c) = map_get ?f0 (ccCert c)" using service_paths_member by blast
      moreover have "map_get d (idKey (agIdentity cfg)) = map_get ?f0 (idKey (agIdentity cfg))"
        using same dist by (auto simp: own_paths_def)
      ultimately show "?P d" using new s1(1) 2(2) unfolding run_state_def by auto
    qed
    have "?P ?f0" using run_state_refl by simp
    then have "evolves ?P (awOs w) s1" using 2(1) by (intro same_disk_evolves)
    then show ?thesis using ev by (rule evolves_trans)
  qed
  then show ?thesis using parts by blast
qed

text \<open>Reading the identity changes nothing, and when it succeeds its files are there.\<close>

lemma NewBrokerClient_cases:
  assumes "NewBrokerClient env cfg s = (r, s')"
  shows "same_disk s s' \<and> (\<forall>client. r = Inr client \<longrightarrow>
     map_get (files s) (idCert (agIdentity cfg)) \<noteq> None \<and> map_get (files s) (idKey (agIdentity cfg)) \<noteq> None)"
  using assms
  by (auto simp: NewBrokerClient_def LoadX509KeyPair_def os_ReadFile_def same_disk_def
      split: prod.splits sum.splits if_splits option.splits)

definition identity_there :: "agent_config \<Rightarrow> os_file strmap \<Rightarrow> bool" where
  "identity_there cfg d \<longleftrightarrow> map_get d (idCert (agIdentity cfg)) \<noteq> None \<and> map_get d (idKey (agIdentity cfg)) \<noteq> None"

lemma run_locked_parts:
  assumes "run_locked env cfg ca w = (r, w')"
  shows "r \<noteq> None \<and> same_disk (awOs w) (awOs w') \<or> (\<exists>client w1 e w2. same_disk (awOs w) (awOs w1) \<and> awKeys w1 = awKeys w
     \<and> identity_there cfg (files (awOs w)) \<and> RenewIdentityIfNeeded env cfg ca w1 = (e, w2)
     \<and> (case e of Some x \<Rightarrow> r = Some x \<and> w' = w2 | None \<Rightarrow> ensure_all env client (agCertificates cfg) w2 = (r, w')))"
proof -
  let ?c = "idCert (agIdentity cfg)"
  obtain x s1 where 1: "FileExists ?c (awOs w) = (x, s1)" by (cases "FileExists ?c (awOs w)")
  have s1: "s1 = tick (awOs w)" using FileExists_cases [OF 1] by blast
  obtain cl s2 where 2: "NewBrokerClient env cfg s1 = (cl, s2)" by (cases "NewBrokerClient env cfg s1")
  note nb = NewBrokerClient_cases [OF 2]
  have d2: "same_disk (awOs w) s2" using nb s1 by (simp add: same_disk_def)
  show ?thesis
  proof (cases "x = Inr True \<and> is_ok cl")
    case False
    then have "r \<noteq> None \<and> (awOs w' = s1 \<or> awOs w' = s2)"
      using assms 1 2 by (auto simp: run_locked_def on_disk_def is_ok_def split: sum.splits bool.splits)
    then show ?thesis using d2 s1 by auto
  next
    case True
    then obtain client where cl: "cl = Inr client" by (auto simp: is_ok_def split: sum.splits)
    obtain e w2 where 3: "RenewIdentityIfNeeded env cfg ca (w\<lparr>awOs := s2\<rparr>) = (e, w2)"
      by (cases "RenewIdentityIfNeeded env cfg ca (w\<lparr>awOs := s2\<rparr>)")
    have "run_locked env cfg ca w = (case e of Some x \<Rightarrow> (Some x, w2) | None \<Rightarrow> ensure_all env client (agCertificates cfg) w2)"
      using 1 2 3 True cl by (simp add: run_locked_def on_disk_def split: option.splits)
    moreover have "identity_there cfg (files (awOs w))" using nb cl s1 by (auto simp: identity_there_def)
    ultimately show ?thesis using assms 3 d2
      by (intro disjI2 exI [of _ client] exI [of _ "w\<lparr>awOs := s2\<rparr>"] exI [of _ e] exI [of _ w2]) (auto split: option.splits)
  qed
qed

lemma services_run_state:
  assumes f1: "run_state env cfg ca f0 f1" "\<forall>k \<in> set (concat (map cert_paths (agCertificates cfg))). map_get f1 k = map_get f0 k"
    and d: "services_state (aeCrypto env) (set (own_paths cfg)) (agCertificates cfg) f1 d" and dist: "distinct (own_paths cfg)"
  shows "run_state env cfg ca f0 d"
proof -
  have "map_get d k = map_get f1 k" if "k \<in> set (own_paths cfg) - set (concat (map cert_paths (agCertificates cfg)))" for k
    using d that unfolding services_state_def by blast
  then have i: "map_get d (idCert (agIdentity cfg)) = map_get f1 (idCert (agIdentity cfg))"
    "map_get d (idKey (agIdentity cfg)) = map_get f1 (idKey (agIdentity cfg))" using dist by (auto simp: own_paths_def)
  have c: "map_get f1 (ccKey c) = map_get f0 (ccKey c) \<and> map_get f1 (ccCert c) = map_get f0 (ccCert c)"
    if "c \<in> set (agCertificates cfg)" for c
    using f1(2) service_paths_member [OF that] by blast
  show ?thesis
    using d f1(1) i unfolding run_state_def services_state_def by (simp add: c cong: ball_cong)
qed

lemma run_locked_outcome:
  assumes R: "run_locked env cfg ca w = (r, w')" and shell: "shell_keeps env (set (own_paths cfg))"
    and plain: "\<forall>p \<in> set (own_paths cfg). plain_path (awOs w) p" and dist: "distinct (own_paths cfg)"
    and keys: "\<forall>n k. awKeys w n = Some k \<longrightarrow> key_roundtrip (aeCrypto env) k"
  shows "evolves (run_state env cfg ca (files (awOs w))) (awOs w) (awOs w')
     \<and> (r = None \<longrightarrow> identity_there cfg (files (awOs w'))
          \<and> (\<forall>c \<in> set (agCertificates cfg). \<exists>cert. usable (aeCrypto env) c cert (files (awOs w'))))"
proof -
  let ?f0 = "files (awOs w)" and ?M = "set (own_paths cfg)" and ?cs = "agCertificates cfg"
  consider "r \<noteq> None" "same_disk (awOs w) (awOs w')"
    | client w1 e w2 where "same_disk (awOs w) (awOs w1)" "awKeys w1 = awKeys w" "identity_there cfg ?f0"
      "RenewIdentityIfNeeded env cfg ca w1 = (e, w2)"
      "case e of Some x \<Rightarrow> r = Some x \<and> w' = w2 | None \<Rightarrow> ensure_all env client ?cs w2 = (r, w')"
    using run_locked_parts [OF R] by blast
  then show ?thesis
  proof cases
    case 1
    then show ?thesis using same_disk_evolves [OF 1(2), of "run_state env cfg ca (files (awOs w))"] run_state_refl [of env cfg ca "files (awOs w)"] by auto
  next
    case 2
    have p1: "\<forall>p \<in> ?M. plain_path (awOs w1) p" using plain 2(1) by (simp add: same_disk_def plain_path_def)
    have f1: "files (awOs w1) = ?f0" using 2(1) by (simp add: same_disk_def)
    let ?P = "\<lambda>d. run_state env cfg ca ?f0 d \<and> (\<forall>k \<in> set (concat (map cert_paths ?cs)). map_get d k = map_get ?f0 k)"
    have rn: "awKeys w2 = awKeys w" "evolves ?P (awOs w1) (awOs w2)"
      using renew_run_state [OF 2(4) p1 dist] 2(2) f1 by auto
    have to1: "evolves ?P (awOs w) (awOs w1)" by (rule same_disk_evolves [OF 2(1)]) (simp add: run_state_refl)
    note to2 = evolves_trans [OF to1 rn(2)]
    have ev2: "evolves (run_state env cfg ca ?f0) (awOs w) (awOs w2)" using to2 by (rule evolves_mono) blast
    show ?thesis
    proof (cases e)
      case (Some x)
      then show ?thesis using 2(5) ev2 by simp
    next
      case None
      then have E: "ensure_all env client ?cs w2 = (r, w')" using 2(5) by simp
      have M: "set (concat (map cert_paths ?cs)) \<subseteq> ?M" "distinct (concat (map cert_paths ?cs))" using dist by (auto simp: own_paths_def)
      have "\<forall>p \<in> ?M. plain_path (awOs w2) p" using plain evolves_plain [OF to2] by simp
      note all = ensure_all_outcome [OF E shell M(1) this M(2)]
      have ev3: "evolves (services_state (aeCrypto env) ?M ?cs (files (awOs w2))) (awOs w2) (awOs w')"
        using all keys rn(1) by auto
      have "evolves (run_state env cfg ca ?f0) (awOs w2) (awOs w')"
        by (rule evolves_mono [OF ev3])
          (rule services_run_state [OF conjunct1 [OF evolves_files [OF to2]] conjunct2 [OF evolves_files [OF to2]] _ dist])
      then have ev: "evolves (run_state env cfg ca ?f0) (awOs w) (awOs w')" by (rule evolves_trans [OF ev2])
      moreover have "identity_there cfg (files (awOs w'))"
        using evolves_files [OF ev] 2(3) by (auto simp: run_state_def identity_there_def)
      ultimately show ?thesis using all keys rn(1) by auto
    qed
  qed
qed

lemma with_lock_ran:
  assumes "with_lock cfg pid body w = (None, w')"
  obtains w1 w2 where "body w1 = (None, w2)" and "awKeys w1 = awKeys w" and "touches {lock_path cfg} (awOs w) (awOs w1)"
    and "touches {lock_path cfg} (awOs w2) (awOs w')"
proof -
  obtain l s1 where A: "AcquireLock (lock_path cfg) pid (awOs w) = (l, s1)" by (cases "AcquireLock (lock_path cfg) pid (awOs w)")
  obtain p where l: "l = Inr p" using assms A by (cases l) (auto simp: with_lock_def on_disk_def)
  then have p: "p = lock_path cfg" using AcquireLock_cases [OF A] by auto
  obtain r2 w2 where B: "body (w\<lparr>awOs := s1\<rparr>) = (r2, w2)" by (cases "body (w\<lparr>awOs := s1\<rparr>)")
  obtain e s3 where R: "Release (Some p) (awOs w2) = (e, s3)" by (cases "Release (Some p) (awOs w2)")
  have "r2 = None" "awOs w' = s3" using assms A l B R by (auto simp: with_lock_def on_disk_def)
  then show ?thesis using that [OF B [simplified \<open>r2 = None\<close>]] AcquireLock_touches [OF A] Release_touches [OF R [unfolded p]] by simp
qed

text \<open>A run, from the state before the lock is taken.\<close>

lemma Run_outcome:
  assumes R: "Run env cfg ca pid w = (r, w')" and shell: "shell_keeps env (set (own_paths cfg))"
    and plain: "\<forall>p \<in> set (own_paths cfg). plain_path (awOs w) p" and dist: "distinct (own_paths cfg)"
    and keys: "\<forall>n k. awKeys w n = Some k \<longrightarrow> key_roundtrip (aeCrypto env) k"
  shows "evolves (run_state env cfg ca (files (awOs w))) (awOs w) (awOs w')"
proof (rule with_lock_evolves [OF R [unfolded Run_def]])
  fix d d' assume "\<forall>k. k \<noteq> lock_path cfg \<longrightarrow> map_get d k = map_get d' k" and d': "run_state env cfg ca (files (awOs w)) d'"
  then have "\<forall>k \<in> set (own_paths cfg) - {lock_path cfg}. map_get d k = map_get d' k" by blast
  then show "run_state env cfg ca (files (awOs w)) d" using dist d' by (rule run_state_cong)
next
  show "run_state env cfg ca (files (awOs w)) (files (awOs w))" by (rule run_state_refl)
next
  fix w1 r1 w2
  assume B: "run_locked env cfg ca w1 = (r1, w2)" and k: "awKeys w1 = awKeys w" and t: "touches {lock_path cfg} (awOs w) (awOs w1)"
  have "\<forall>p \<in> set (own_paths cfg). plain_path (awOs w1) p" using plain t by (simp add: touches_def plain_path_def)
  then have ev: "evolves (run_state env cfg ca (files (awOs w1))) (awOs w1) (awOs w2)"
    using run_locked_outcome [OF B shell _ dist] keys k by simp
  have same: "\<forall>k \<in> set (own_paths cfg) - {lock_path cfg}. map_get (files (awOs w1)) k = map_get (files (awOs w)) k"
    using touches_files [OF t] by blast
  show "evolves (run_state env cfg ca (files (awOs w))) (awOs w1) (awOs w2)"
    by (rule evolves_mono [OF ev]) (rule run_state_start [OF same dist])
qed

lemma Run_success:
  assumes R: "Run env cfg ca pid w = (None, w')" and shell: "shell_keeps env (set (own_paths cfg))"
    and plain: "\<forall>p \<in> set (own_paths cfg). plain_path (awOs w) p" and dist: "distinct (own_paths cfg)"
    and keys: "\<forall>n k. awKeys w n = Some k \<longrightarrow> key_roundtrip (aeCrypto env) k"
  shows "identity_there cfg (files (awOs w'))
     \<and> (\<forall>c \<in> set (agCertificates cfg). \<exists>cert. usable (aeCrypto env) c cert (files (awOs w')))"
proof -
  obtain w1 w2 where B: "run_locked env cfg ca w1 = (None, w2)" "awKeys w1 = awKeys w"
    and t: "touches {lock_path cfg} (awOs w) (awOs w1)" "touches {lock_path cfg} (awOs w2) (awOs w')"
    using with_lock_ran [OF R [unfolded Run_def]] by blast
  have "\<forall>p \<in> set (own_paths cfg). plain_path (awOs w1) p" using plain t(1) by (simp add: touches_def plain_path_def)
  then have *: "identity_there cfg (files (awOs w2))" "\<forall>c \<in> set (agCertificates cfg). \<exists>cert. usable (aeCrypto env) c cert (files (awOs w2))"
    using run_locked_outcome [OF B(1) shell _ dist] keys B(2) by auto
  have same: "map_get (files (awOs w')) k = map_get (files (awOs w2)) k" if "k \<noteq> lock_path cfg" for k
    using touches_files [OF t(2)] that by simp
  have "usable (aeCrypto env) c cert (files (awOs w')) = usable (aeCrypto env) c cert (files (awOs w2))"
    if "c \<in> set (agCertificates cfg)" for c cert
  proof (rule usable_cong)
    have "ccKey c \<noteq> lock_path cfg" "ccCert c \<noteq> lock_path cfg" using service_paths_member [OF that] dist by (auto simp: own_paths_def)
    then show "map_get (files (awOs w')) (ccKey c) = map_get (files (awOs w2)) (ccKey c)"
      "map_get (files (awOs w')) (ccCert c) = map_get (files (awOs w2)) (ccCert c)" using same by simp_all
  qed
  then show ?thesis using * same dist by (auto simp: identity_there_def own_paths_def)
qed

section \<open>The check command\<close>

lemma check_usable:
  assumes "\<forall>n. \<not> faults s n" and "usable cr c cert (files s)"
  shows "check_certificate cr c s = (None, tick (tick s))"
proof -
  have nf: "\<not> failing s" "\<not> failing (tick s)" using assms(1) by (simp_all add: failing_def)
  show ?thesis using assms(2) nf
    by (auto simp: usable_def key_on_disk_def cert_on_disk_def check_certificate_def os_ReadFile_def)
qed

lemma check_all_usable:
  assumes "\<forall>n. \<not> faults s n" and "\<forall>c \<in> set cs. \<exists>cert. usable cr c cert (files s)"
  shows "fst (check_all cr cs s) = None"
  using assms
proof (induction cs arbitrary: s)
  case (Cons c cs)
  then obtain cert where "check_certificate cr c s = (None, tick (tick s))" using check_usable by force
  then show ?case using Cons by simp
qed simp

section \<open>Enrolment\<close>

definition enroll_paths :: "agent_config \<Rightarrow> string list" where
  "enroll_paths cfg = [lock_path cfg, idCert (agIdentity cfg), idKey (agIdentity cfg), idBootstrapToken (agIdentity cfg)]"

text \<open>The identity that the authority gave for the token on the disk.\<close>

definition enrolled :: "agent_config \<Rightarrow> 'n identity_ca \<Rightarrow> os_file strmap \<Rightarrow> os_file strmap \<Rightarrow> bool" where
  "enrolled cfg ca f0 d \<longleftrightarrow> (\<exists>tf csr ic n n'. map_get f0 (idBootstrapToken (agIdentity cfg)) = Some tf
     \<and> caEnroll ca \<lparr>erCSRPEM = csr, erToken = TrimSpace (content tf)\<rparr> n = (Inr ic, n')
     \<and> map_get d (idCert (agIdentity cfg)) = Some \<lparr>content = icCertPEM ic, mode = 420\<rparr>)"

text \<open>
  Every state during an enrolment that began with \<open>f0\<close>: an existing key is kept, the identity
  certificate is untouched or the new one, and the token is there unless the new certificate is.
\<close>

definition enroll_state :: "agent_config \<Rightarrow> 'n identity_ca \<Rightarrow> os_file strmap \<Rightarrow> os_file strmap \<Rightarrow> bool" where
  "enroll_state cfg ca f0 d \<longleftrightarrow> (let i = agIdentity cfg in
     (map_get f0 (idKey i) \<noteq> None \<longrightarrow> map_get d (idKey i) = map_get f0 (idKey i))
     \<and> (map_get d (idCert i) = map_get f0 (idCert i) \<or> map_get f0 (idCert i) = None \<and> enrolled cfg ca f0 d)
     \<and> (map_get d (idBootstrapToken i) = map_get f0 (idBootstrapToken i) \<or> enrolled cfg ca f0 d))"

lemma enroll_state_refl: "enroll_state cfg ca f0 f0"
  by (simp add: enroll_state_def Let_def)

lemma enroll_state_cong:
  assumes "\<forall>k \<in> set (enroll_paths cfg) - {lock_path cfg}. map_get d k = map_get d' k" and "distinct (enroll_paths cfg)"
  shows "enroll_state cfg ca f0 d = enroll_state cfg ca f0 d'" and "enroll_state cfg ca d f1 = enroll_state cfg ca d' f1"
proof -
  have i: "map_get d (idCert (agIdentity cfg)) = map_get d' (idCert (agIdentity cfg))"
    "map_get d (idKey (agIdentity cfg)) = map_get d' (idKey (agIdentity cfg))"
    "map_get d (idBootstrapToken (agIdentity cfg)) = map_get d' (idBootstrapToken (agIdentity cfg))"
    using assms by (auto simp: enroll_paths_def)
  then show "enroll_state cfg ca f0 d = enroll_state cfg ca f0 d'" "enroll_state cfg ca d f1 = enroll_state cfg ca d' f1"
    by (simp_all add: enroll_state_def enrolled_def Let_def)
qed

lemma identity_key_outcome:
  assumes "identity_key env i w = (r, w')" and "plain_path (awOs w) (idKey i)"
    and P: "\<And>d. (\<forall>k. plain_path (awOs w) k \<longrightarrow> k \<noteq> idKey i \<longrightarrow> map_get d k = map_get (files (awOs w)) k)
      \<Longrightarrow> (map_get (files (awOs w)) (idKey i) \<noteq> None \<longrightarrow> map_get d (idKey i) = map_get (files (awOs w)) (idKey i)) \<Longrightarrow> P d"
  shows "evolves P (awOs w) (awOs w') \<and> awKeys w' = awKeys w \<and> (\<forall>key. r = Inr key \<longrightarrow> key_on_disk (aeCrypto env) (idKey i) key (files (awOs w')))"
proof -
  obtain x s1 where 1: "EnsureECDSAPrivateKey (aeCrypto env) (awKeys w (awDraws w)) (idKey i) (awOs w) = (x, s1)"
    by (cases "EnsureECDSAPrivateKey (aeCrypto env) (awKeys w (awDraws w)) (idKey i) (awOs w)")
  have ev: "evolves P (awOs w) s1" using ensure_key_evolves [OF 1 assms(2)] P by blast
  have cases: "awKeys w' = awKeys w \<and> (awOs w' = s1 \<or> awOs w' = tick s1)"
    "r = Inr key \<Longrightarrow> key_on_disk (aeCrypto env) (idKey i) key (files s1)" for key
    using assms(1) 1
    by (auto simp: identity_key_def agent_key_def on_disk_split read_identity_def key_on_disk_def
        split: prod.splits sum.splits dest!: os_ReadFile_cases)
  have "evolves P (awOs w) (awOs w') \<and> files (awOs w') = files s1"
    using cases(1) ev evolves_trans [OF ev, of "tick s1"] evolves_files [OF ev] by auto
  then show ?thesis using cases by auto
qed

lemma bootstrap_token_outcome:
  assumes "bootstrap_token i w = (r, w')"
  shows "same_disk (awOs w) (awOs w') \<and> awKeys w' = awKeys w \<and> (\<forall>token. r = Inr token \<longrightarrow> token \<noteq> []
     \<and> (\<exists>f. map_get (files (awOs w)) (idBootstrapToken i) = Some f \<and> token = TrimSpace (content f)))"
  using assms
  by (auto simp: bootstrap_token_def on_disk_split Let_def split: prod.splits sum.splits if_splits dest!: os_ReadFile_cases)

lemma enroll_identity_parts:
  assumes "enroll_identity env i ca key token w = (r, w')"
  shows "r \<noteq> None \<and> awOs w' = awOs w \<or> (\<exists>csr ic n n' e s1. caEnroll ca \<lparr>erCSRPEM = csr, erToken = token\<rparr> n = (Inr ic, n')
     \<and> GenerateIdentityCSR (aeCrypto env) key (idName i) = Inr csr
     \<and> WriteFileAtomic (idCert i) (icCertPEM ic) 420 (awOs w) = (e, s1)
     \<and> (if e = None then \<exists>x. os_Remove (idBootstrapToken i) s1 = (x, awOs w') \<and> (r = None \<longleftrightarrow> x = None)
        else r \<noteq> None \<and> awOs w' = s1))"
proof -
  show ?thesis
  proof (cases "GenerateIdentityCSR (aeCrypto env) key (idName i)")
    case (Inl e)
    then show ?thesis using assms by (auto simp: enroll_identity_def)
  next
    case (Inr csr)
    obtain a n' where C: "caEnroll ca \<lparr>erCSRPEM = csr, erToken = token\<rparr> (awNet w) = (a, n')"
      by (cases "caEnroll ca \<lparr>erCSRPEM = csr, erToken = token\<rparr> (awNet w)")
    show ?thesis
    proof (cases a)
      case (Inl e)
      then show ?thesis using assms Inr C by (auto simp: enroll_identity_def on_net_def)
    next
      case ic: (Inr ic)
      obtain e s1 where W: "WriteFileAtomic (idCert i) (icCertPEM ic) 420 (awOs w) = (e, s1)"
        by (cases "WriteFileAtomic (idCert i) (icCertPEM ic) 420 (awOs w)")
      obtain x s2 where X: "os_Remove (idBootstrapToken i) s1 = (x, s2)" by (cases "os_Remove (idBootstrapToken i) s1")
      have "if e = None then \<exists>x. os_Remove (idBootstrapToken i) s1 = (x, awOs w') \<and> (r = None \<longleftrightarrow> x = None) else r \<noteq> None \<and> awOs w' = s1"
        using assms Inr C ic W X by (auto simp: enroll_identity_def on_net_def on_disk_def split: option.splits)
      then show ?thesis using C ic Inr W by blast
    qed
  qed
qed

lemma os_Remove_gone: "os_Remove path s = (None, s') \<Longrightarrow> map_get (files s') path = None"
  by (auto simp: os_Remove_def split: if_splits)

lemma enrolled_cong:
  "map_get d (idCert (agIdentity cfg)) = map_get d' (idCert (agIdentity cfg)) \<Longrightarrow> enrolled cfg ca f0 d = enrolled cfg ca f0 d'"
  by (simp add: enrolled_def)

lemma enroll_identity_outcome:
  assumes E: "enroll_identity env (agIdentity cfg) ca key token w = (r, w')"
    and plain: "\<forall>p \<in> set (enroll_paths cfg). plain_path (awOs w) p" and dist: "distinct (enroll_paths cfg)"
    and st: "enroll_state cfg ca f0 (files (awOs w))" and none: "map_get f0 (idCert (agIdentity cfg)) = None"
    and tf: "map_get f0 (idBootstrapToken (agIdentity cfg)) = Some tf" "token = TrimSpace (content tf)"
  shows "evolves (enroll_state cfg ca f0) (awOs w) (awOs w')
     \<and> (r = None \<longrightarrow> enrolled cfg ca f0 (files (awOs w')) \<and> map_get (files (awOs w')) (idBootstrapToken (agIdentity cfg)) = None
          \<and> map_get (files (awOs w')) (idKey (agIdentity cfg)) = map_get (files (awOs w)) (idKey (agIdentity cfg)))"
proof -
  let ?i = "agIdentity cfg" and ?P = "enroll_state cfg ca f0"
  have paths: "idCert ?i \<noteq> idKey ?i" "idCert ?i \<noteq> idBootstrapToken ?i" "idKey ?i \<noteq> idBootstrapToken ?i"
    "plain_path (awOs w) (idCert ?i)" "plain_path (awOs w) (idKey ?i)" "plain_path (awOs w) (idBootstrapToken ?i)"
    using dist plain by (auto simp: enroll_paths_def)
  have stop: "evolves ?P (awOs w) (awOs w)" using st by (simp add: evolves_def)
  consider "r \<noteq> None" "awOs w' = awOs w"
    | csr ic n n' e s1 where "caEnroll ca \<lparr>erCSRPEM = csr, erToken = token\<rparr> n = (Inr ic, n')"
      "WriteFileAtomic (idCert ?i) (icCertPEM ic) 420 (awOs w) = (e, s1)"
      "if e = None then \<exists>x. os_Remove (idBootstrapToken ?i) s1 = (x, awOs w') \<and> (r = None \<longleftrightarrow> x = None) else r \<noteq> None \<and> awOs w' = s1"
    using enroll_identity_parts [OF E] by blast
  then show ?thesis
  proof cases
    case 1
    then show ?thesis using stop by auto
  next
    case 2
    have new: "enrolled cfg ca f0 d" if "map_get d (idCert ?i) = Some \<lparr>content = icCertPEM ic, mode = 420\<rparr>" for d
      using that tf 2(1) unfolding enrolled_def by blast
    have ev: "evolves ?P (awOs w) s1"
    proof (rule write_evolves [OF 2(2) paths(4)])
      fix d assume others: "\<forall>k. plain_path (awOs w) k \<longrightarrow> k \<noteq> idCert ?i \<longrightarrow> map_get d k = map_get (files (awOs w)) k"
        and c: "map_get d (idCert ?i) \<in> {map_get (files (awOs w)) (idCert ?i), Some \<lparr>content = icCertPEM ic, mode = 420\<rparr>}"
      have "map_get d (idKey ?i) = map_get (files (awOs w)) (idKey ?i)"
        "map_get d (idBootstrapToken ?i) = map_get (files (awOs w)) (idBootstrapToken ?i)" using others paths by auto
      then show "?P d"
        using st c new [of d] none enrolled_cong [of d cfg "files (awOs w)" ca f0] unfolding enroll_state_def Let_def by auto
    qed
    show ?thesis
    proof (cases e)
      case (Some x)
      then show ?thesis using 2(3) ev by auto
    next
      case None
      then obtain x where X: "os_Remove (idBootstrapToken ?i) s1 = (x, awOs w')" "r = None \<longleftrightarrow> x = None" using 2(3) by auto
      have s1: "map_get (files s1) k = (if k = idCert ?i then Some \<lparr>content = icCertPEM ic, mode = 420\<rparr> else map_get (files (awOs w)) k)" for k
        using WriteFileAtomic_done [OF paths(4)] 2(2) None by blast
      note t = touches_Remove [OF X(1)]
      have e1: "evolves ?P s1 (awOs w')"
      proof (rule touches_evolves [OF t])
        fix d assume d: "\<forall>k. k \<notin> {idBootstrapToken ?i} \<longrightarrow> map_get d k = map_get (files s1) k"
        then have "map_get d (idCert ?i) = Some \<lparr>content = icCertPEM ic, mode = 420\<rparr>"
          "map_get d (idKey ?i) = map_get (files (awOs w)) (idKey ?i)" using paths s1 by auto
        then show "?P d" using new [of d] none st unfolding enroll_state_def Let_def by simp
      qed
      have "map_get (files (awOs w')) (idCert ?i) = Some \<lparr>content = icCertPEM ic, mode = 420\<rparr>"
        "map_get (files (awOs w')) (idKey ?i) = map_get (files (awOs w)) (idKey ?i)"
        using touches_files [OF t] paths s1 by simp_all
      moreover have "map_get (files (awOs w')) (idBootstrapToken ?i) = None" if "x = None"
        using X(1) that os_Remove_gone by blast
      ultimately show ?thesis using evolves_trans [OF ev e1] X(2) new by auto
    qed
  qed
qed

lemma enroll_locked_outcome:
  assumes E: "enroll_locked env cfg ca w = (r, w')"
    and plain: "\<forall>p \<in> set (enroll_paths cfg). plain_path (awOs w) p" and dist: "distinct (enroll_paths cfg)"
  shows "evolves (enroll_state cfg ca (files (awOs w))) (awOs w) (awOs w')
     \<and> (r = None \<longrightarrow> enrolled cfg ca (files (awOs w)) (files (awOs w'))
          \<and> map_get (files (awOs w')) (idBootstrapToken (agIdentity cfg)) = None
          \<and> (\<exists>key. key_on_disk (aeCrypto env) (idKey (agIdentity cfg)) key (files (awOs w'))))"
proof -
  let ?i = "agIdentity cfg" and ?f0 = "files (awOs w)"
  let ?P = "\<lambda>d. enroll_state cfg ca ?f0 d \<and> map_get d (idCert ?i) = map_get ?f0 (idCert ?i)
     \<and> map_get d (idBootstrapToken ?i) = map_get ?f0 (idBootstrapToken ?i)"
  obtain x s1 where 1: "FileExists (idCert ?i) (awOs w) = (x, s1)" by (cases "FileExists (idCert ?i) (awOs w)")
  note fe = FileExists_cases [OF 1]
  have ev1: "evolves ?P (awOs w) s1" using fe enroll_state_refl by simp
  let ?w1 = "w\<lparr>awOs := s1\<rparr>"
  obtain k w2 where 2: "identity_key env ?i ?w1 = (k, w2)" by (cases "identity_key env ?i ?w1")
  have paths: "idCert ?i \<noteq> idKey ?i" "idBootstrapToken ?i \<noteq> idKey ?i"
    "plain_path s1 (idCert ?i)" "plain_path s1 (idKey ?i)" "plain_path s1 (idBootstrapToken ?i)"
    using dist plain fe by (auto simp: enroll_paths_def)
  have kept: "?P d" if d: "\<forall>k. plain_path s1 k \<longrightarrow> k \<noteq> idKey ?i \<longrightarrow> map_get d k = map_get (files s1) k"
      "map_get (files s1) (idKey ?i) \<noteq> None \<longrightarrow> map_get d (idKey ?i) = map_get (files s1) (idKey ?i)" for d
  proof -
    have "files s1 = ?f0" using fe by simp
    then have "map_get d (idCert ?i) = map_get ?f0 (idCert ?i)" "map_get d (idBootstrapToken ?i) = map_get ?f0 (idBootstrapToken ?i)"
      "map_get ?f0 (idKey ?i) \<noteq> None \<longrightarrow> map_get d (idKey ?i) = map_get ?f0 (idKey ?i)"
      using d paths by auto
    then show ?thesis by (simp add: enroll_state_def Let_def)
  qed
  have os: "awOs ?w1 = s1" by simp
  have key: "evolves ?P s1 (awOs w2) \<and> awKeys w2 = awKeys ?w1 \<and> (\<forall>key. k = Inr key \<longrightarrow> key_on_disk (aeCrypto env) (idKey ?i) key (files (awOs w2)))"
    by (rule identity_key_outcome [OF 2, unfolded os, OF paths(4) kept])
  note ev2 = evolves_trans [OF ev1 conjunct1 [OF key]]
  obtain t w3 where 3: "bootstrap_token ?i w2 = (t, w3)" by (cases "bootstrap_token ?i w2")
  note tok = bootstrap_token_outcome [OF 3]
  have ev3: "evolves ?P (awOs w) (awOs w3)"
    by (rule evolves_trans [OF ev2], rule same_disk_evolves [OF conjunct1 [OF tok]], rule evolves_files [OF ev2])
  have weak: "evolves (enroll_state cfg ca ?f0) (awOs w) s" if "evolves ?P (awOs w) s" for s
    using that by (rule evolves_mono) blast
  have unfold: "enroll_locked env cfg ca w = (case x of Inl _ \<Rightarrow> (Some IdentityStatFailed, ?w1)
      | Inr True \<Rightarrow> (Some (IdentityExists (idCert ?i)), ?w1)
      | Inr False \<Rightarrow> (case k of Inl e \<Rightarrow> (Some e, w2) | Inr key \<Rightarrow>
          (case t of Inl e \<Rightarrow> (Some e, w3) | Inr token \<Rightarrow> enroll_identity env ?i ca key token w3)))"
    using 1 2 3 by (auto simp: enroll_locked_def on_disk_def Let_def split: sum.splits bool.splits)
  show ?thesis
  proof (cases "x = Inr False \<and> is_ok k \<and> is_ok t")
    case True
    then obtain key token where kt: "k = Inr key" "t = Inr token" by (auto simp: is_ok_def split: sum.splits)
    then have EI: "enroll_identity env ?i ca key token w3 = (r, w')" using E unfold True by simp
    have w3: "files (awOs w3) = files (awOs w2)" using tok by (simp add: same_disk_def)
    obtain tf where tf: "map_get ?f0 (idBootstrapToken ?i) = Some tf" "token = TrimSpace (content tf)"
      using tok kt(2) evolves_files [OF ev2] by auto
    have "map_get ?f0 (idCert ?i) = None" using fe True by simp
    moreover have "\<forall>p \<in> set (enroll_paths cfg). plain_path (awOs w3) p" using plain evolves_plain [OF ev3] by simp
    ultimately have out: "evolves (enroll_state cfg ca ?f0) (awOs w3) (awOs w')"
      "r = None \<longrightarrow> enrolled cfg ca ?f0 (files (awOs w')) \<and> map_get (files (awOs w')) (idBootstrapToken ?i) = None
          \<and> map_get (files (awOs w')) (idKey ?i) = map_get (files (awOs w3)) (idKey ?i)"
      using enroll_identity_outcome [OF EI _ dist _ _ tf] evolves_files [OF ev3] by auto
    have "key_on_disk (aeCrypto env) (idKey ?i) key (files (awOs w2))" using key kt by simp
    then show ?thesis using evolves_trans [OF weak [OF ev3] out(1)] out(2) w3 by (auto simp: key_on_disk_def)
  next
    case False
    then have "r \<noteq> None \<and> (awOs w' = s1 \<or> awOs w' = awOs w2 \<or> awOs w' = awOs w3)"
      using E unfold by (auto simp: is_ok_def split: sum.splits bool.splits)
    then show ?thesis using weak [OF ev1] weak [OF ev2] weak [OF ev3] by auto
  qed
qed

lemma Enroll_outcome:
  assumes R: "Enroll env cfg ca pid w = (r, w')"
    and plain: "\<forall>p \<in> set (enroll_paths cfg). plain_path (awOs w) p" and dist: "distinct (enroll_paths cfg)"
  shows "evolves (enroll_state cfg ca (files (awOs w))) (awOs w) (awOs w')"
proof (rule with_lock_evolves [OF R [unfolded Enroll_def]])
  fix d d' assume "\<forall>k. k \<noteq> lock_path cfg \<longrightarrow> map_get d k = map_get d' k" and d': "enroll_state cfg ca (files (awOs w)) d'"
  then have "\<forall>k \<in> set (enroll_paths cfg) - {lock_path cfg}. map_get d k = map_get d' k" by blast
  then show "enroll_state cfg ca (files (awOs w)) d" using d' enroll_state_cong(1) [OF _ dist] by blast
next
  show "enroll_state cfg ca (files (awOs w)) (files (awOs w))" by (rule enroll_state_refl)
next
  fix w1 r1 w2
  assume B: "enroll_locked env cfg ca w1 = (r1, w2)" and t: "touches {lock_path cfg} (awOs w) (awOs w1)"
  have "\<forall>p \<in> set (enroll_paths cfg). plain_path (awOs w1) p" using plain t by (simp add: touches_def plain_path_def)
  then have ev: "evolves (enroll_state cfg ca (files (awOs w1))) (awOs w1) (awOs w2)"
    using enroll_locked_outcome [OF B _ dist] by blast
  have same: "\<forall>k \<in> set (enroll_paths cfg) - {lock_path cfg}. map_get (files (awOs w1)) k = map_get (files (awOs w)) k"
    using touches_files [OF t] by blast
  show "evolves (enroll_state cfg ca (files (awOs w))) (awOs w1) (awOs w2)"
    by (rule evolves_mono [OF ev]) (simp add: enroll_state_cong(2) [OF same dist])
qed

lemma Enroll_success:
  assumes R: "Enroll env cfg ca pid w = (None, w')"
    and plain: "\<forall>p \<in> set (enroll_paths cfg). plain_path (awOs w) p" and dist: "distinct (enroll_paths cfg)"
  shows "(\<exists>req ic n n'. caEnroll ca req n = (Inr ic, n')
        \<and> map_get (files (awOs w')) (idCert (agIdentity cfg)) = Some \<lparr>content = icCertPEM ic, mode = 420\<rparr>)
     \<and> map_get (files (awOs w')) (idBootstrapToken (agIdentity cfg)) = None
     \<and> (\<exists>key. key_on_disk (aeCrypto env) (idKey (agIdentity cfg)) key (files (awOs w')))"
proof -
  obtain w1 w2 where B: "enroll_locked env cfg ca w1 = (None, w2)"
    and t: "touches {lock_path cfg} (awOs w) (awOs w1)" "touches {lock_path cfg} (awOs w2) (awOs w')"
    using with_lock_ran [OF R [unfolded Enroll_def]] by blast
  have "\<forall>p \<in> set (enroll_paths cfg). plain_path (awOs w1) p" using plain t(1) by (simp add: touches_def plain_path_def)
  then have out: "enrolled cfg ca (files (awOs w1)) (files (awOs w2))" "map_get (files (awOs w2)) (idBootstrapToken (agIdentity cfg)) = None"
    "\<exists>key. key_on_disk (aeCrypto env) (idKey (agIdentity cfg)) key (files (awOs w2))"
    using enroll_locked_outcome [OF B _ dist] by blast+
  have "map_get (files (awOs w')) k = map_get (files (awOs w2)) k" if "k \<noteq> lock_path cfg" for k
    using touches_files [OF t(2)] that by simp
  then have "map_get (files (awOs w')) k = map_get (files (awOs w2)) k"
    if "k \<in> {idCert (agIdentity cfg), idKey (agIdentity cfg), idBootstrapToken (agIdentity cfg)}" for k
    using dist that by (auto simp: enroll_paths_def)
  then show ?thesis using out unfolding enrolled_def key_on_disk_def by auto
qed

end
