(* ===== verification/Agent_Guarantees.thy ===== *)
theory Agent_Guarantees
  imports Agent_Run
begin

text \<open>
  What the agent guarantees about the files of its host, and an example of a host.
\<close>

section \<open>An example\<close>

definition agent_crypto :: crypto where
  "agent_crypto = example_crypto\<lparr>
     parse_certificate := (\<lambda>s. if s = ''der'' then Some (example_certificate\<lparr>certDNSNames := [''a.b'']\<rparr>) else None),
     pem_encode := (\<lambda>t b. if t = ''CERTIFICATE REQUEST'' then ''q'' else t @ '':'' @ b)\<rparr>"

definition example_cert_config :: cert_config where
  "example_cert_config = \<lparr>ccName = ''web'', ccProfile = ''web'', ccDNSNames = [''A.b''], ccKey = ''/d/k'',
     ccCert = ''/d/c'', ccChain = ''/d/h'', ccFullChain = ''/d/f'', ccReloadCommand = ''r'', ccReloadTimeout = 30,
     ccRenewBefore = 30 * 24 * Hour\<rparr>"

definition example_agent_config :: agent_config where
  "example_agent_config = \<lparr>agStateDir = ''/s'',
     agIdentity = \<lparr>idName = ''host-1'', idProvider = ''step-ca'', idCert = ''/i/c'', idKey = ''/i/k'', idIssuerCABundle = ''/i/a'',
       idBootstrapToken = ''/i/t'', idRenewBefore = 8 * Hour, idWarnBefore = 24 * Hour,
       idStepCA = \<lparr>stURL = ''https://ca'', stFingerprint = ''fp'', stRootCABundle = [], stTimeout = 10\<rparr>\<rparr>,
     agBroker = \<lparr>abURL = ''https://b'', abServerCABundle = ''/i/b'', abTimeout = 30\<rparr>,
     agCertificates = [example_cert_config],
     agLogging = \<lparr>logLevel = ''info'', logFormat = ''text'', logDestination = ''stderr''\<rparr>\<rparr>"

definition example_agent_env :: "unit agent_env" where
  "example_agent_env = \<lparr>aeCrypto = agent_crypto, aeKeyPair = (\<lambda>_ _. True), aeAppendCerts = (\<lambda>_. True), aeRequestOK = (\<lambda>_. True),
     aeDo = (\<lambda>_ _ _ n. (Some \<lparr>ansStatus = 200, ansBody = ''{}'', ansReadError = False\<rparr>, n)),
     aeUnmarshal = (\<lambda>_. Some \<lparr>irspCertPEM = ''CERTIFICATE:der'', irspChainPEM = ''CERTIFICATE:ca'',
       irspFullChainPEM = ''CERTIFICATE:derCERTIFICATE:ca'', irspSerialNumber = ''7'', irspNotBefore = ''1970-01-01T00:00:00Z'',
       irspNotAfter = ''1970-04-11T00:00:00Z'', irspCache = ''miss''\<rparr>),
     aeShell = (\<lambda>_ _ w. (\<lparr>shOutput = [], shFailed = False, shTimedOut = False\<rparr>, w))\<rparr>"

definition example_step_api :: "(unit, unit) step_api" where
  "example_step_api = \<lparr>stepNewClient = (\<lambda>_ _ n. (Some (), n)),
     stepSign = (\<lambda>_ _ _ n. (Inr (Some \<lparr>srServerPEM = Some example_certificate, srCaPEM = None, srCertChainPEM = []\<rparr>), n)),
     stepRenew = (\<lambda>_ n. (Inr (Some \<lparr>srServerPEM = Some example_certificate, srCaPEM = None, srCertChainPEM = []\<rparr>), n)),
     x509KeyPair = (\<lambda>_ _. True)\<rparr>"

definition example_ca :: "unit identity_ca" where
  "example_ca = step_ca agent_crypto example_step_api (idStepCA (agIdentity example_agent_config), ())"

definition agent_disk :: "os_file strmap \<Rightarrow> os" where
  "agent_disk fs = \<lparr>files = fs, calls = 0, faults = (\<lambda>_. False), short = (\<lambda>_. 0), temp_suffix = (\<lambda>_. ''1''), history = []\<rparr>"

definition agent_at :: "os_file strmap \<Rightarrow> unit agent_world" where
  "agent_at fs = \<lparr>awOs = agent_disk fs, awClock = 24 * Hour, awSteps = (\<lambda>_. 0), awReads = 0, awKeys = (\<lambda>_. Some ''key''),
     awDraws = 0, awNet = ()\<rparr>"

text \<open>A host that has been enrolled.\<close>

definition enrolled_files :: "os_file strmap" where
  "enrolled_files = [(''/i/a'', \<lparr>content = ''CERTIFICATE:ca'', mode = 420\<rparr>), (''/i/b'', \<lparr>content = ''CERTIFICATE:ca'', mode = 420\<rparr>),
     (''/i/c'', \<lparr>content = ''CERTIFICATE:der'', mode = 420\<rparr>), (''/i/k'', \<lparr>content = ''PRIVATE KEY:key'', mode = 384\<rparr>)]"

lemma example_run: "Option.is_none (fst (Run example_agent_env example_agent_config example_ca 1 (agent_at enrolled_files)))"
  by code_simp

lemma example_plain:
  assumes "list_all (\<lambda>p. \<not> HasPrefix (Base_raw p) ''.certplane-'') ps"
  shows "\<forall>p \<in> set ps. plain_path (awOs (agent_at fs)) p"
  using assms by (auto simp: plain_path_def agent_at_def agent_disk_def list_all_iff)

lemma example_shell: "shell_keeps example_agent_env M"
  unfolding shell_keeps_def
proof (intro allI impI)
  fix command timeout w out w'
  assume "aeShell example_agent_env command timeout w = (out, w')"
  then have "w' = w" by (simp add: example_agent_env_def)
  then show "awKeys w' = awKeys w \<and> (\<exists>A. A \<inter> M = {} \<and> touches A (awOs w) (awOs w'))" by (auto intro: exI [of _ "{}"])
qed

lemma example_keys: "\<forall>n k. awKeys (agent_at fs) n = Some k \<longrightarrow> key_roundtrip (aeCrypto example_agent_env) k"
proof -
  have "key_roundtrip (aeCrypto example_agent_env) ''key''" by code_simp
  then show ?thesis by (simp add: agent_at_def)
qed

lemma example_own_paths: "distinct (own_paths example_agent_config)"
  "\<forall>p \<in> set (own_paths example_agent_config). plain_path (awOs (agent_at fs)) p"
proof -
  show "distinct (own_paths example_agent_config)" by code_simp
  have "list_all (\<lambda>p. \<not> HasPrefix (Base_raw p) ''.certplane-'') (own_paths example_agent_config)" by code_simp
  then show "\<forall>p \<in> set (own_paths example_agent_config). plain_path (awOs (agent_at fs)) p" by (rule example_plain)
qed

lemma example_enroll_paths: "distinct (enroll_paths example_agent_config)"
  "\<forall>p \<in> set (enroll_paths example_agent_config). plain_path (awOs (agent_at fs)) p"
proof -
  show "distinct (enroll_paths example_agent_config)" by code_simp
  have "list_all (\<lambda>p. \<not> HasPrefix (Base_raw p) ''.certplane-'') (enroll_paths example_agent_config)" by code_simp
  then show "\<forall>p \<in> set (enroll_paths example_agent_config). plain_path (awOs (agent_at fs)) p" by (rule example_plain)
qed

section \<open>Properties\<close>



text \<open>
  C23: after a run that reports success every configured certificate is on the disk, parses and belongs
  to the key next to it, the identity is in place, and the check command finds nothing to complain about.
\<close>

theorem successful_run_passes_check:
  assumes "Run env cfg ca pid w = (None, w')" and "shell_keeps env (set (own_paths cfg))"
    and "\<forall>p \<in> set (own_paths cfg). plain_path (awOs w) p" and "distinct (own_paths cfg)"
    and "\<forall>n k. awKeys w n = Some k \<longrightarrow> key_roundtrip (aeCrypto env) k"
    and "\<forall>n. \<not> faults (awOs w') n"
  shows "(\<forall>c \<in> set (agCertificates cfg). \<exists>cert. usable (aeCrypto env) c cert (files (awOs w')))
     \<and> fst (Check (aeCrypto env) cfg (awOs w')) = None"
proof -
  let ?s = "awOs w'"
  note ok = Run_success [OF assms(1-5)]
  have nf: "\<not> failing ?s" "\<not> failing (tick ?s)" using assms(6) by (simp_all add: failing_def)
  have "fst (check_all (aeCrypto env) (agCertificates cfg) (tick (tick ?s))) = None"
    using ok assms(6) by (intro check_all_usable) simp_all
  moreover have "map_get (files ?s) (idKey (agIdentity cfg)) \<noteq> None" "map_get (files ?s) (idCert (agIdentity cfg)) \<noteq> None"
    using ok by (simp_all add: identity_there_def)
  ultimately show ?thesis using ok nf by (simp add: Check_def os_Stat_def)
qed

theorem successful_run_passes_check_witness:
  "fst (Check agent_crypto example_agent_config
     (awOs (snd (Run example_agent_env example_agent_config example_ca 1 (agent_at enrolled_files))))) = None"
proof -
  let ?R = "Run example_agent_env example_agent_config example_ca 1 (agent_at enrolled_files)"
  have R: "?R = (None, snd ?R)" using example_run by (simp add: prod_eq_iff Option.is_none_def)
  have "faults (awOs (snd ?R)) = faults (awOs (agent_at enrolled_files))"
    using Run_outcome [OF R example_shell example_own_paths(2,1) example_keys] by (simp add: evolves_def)
  then have "\<forall>n. \<not> faults (awOs (snd ?R)) n" by (simp add: agent_at_def agent_disk_def)
  from successful_run_passes_check [OF R example_shell example_own_paths(2,1) example_keys this]
  show ?thesis by (simp add: example_agent_env_def)
qed

text \<open>
  C8: an enrolment does not lose its token. In every state of the disk, whatever fails, the bootstrap
  token is still there or the identity certificate that the authority gave for it is in place; a key that
  existed is kept and an identity certificate that existed is not overwritten. After success the
  certificate on the disk is the PEM text of the certificate in the answer of the authority, the key parses and the token is gone.
\<close>

theorem enroll_spends_token_last:
  assumes "Enroll env cfg (step_ca (aeCrypto env) api p) pid w = (r, w')"
    and "\<forall>p \<in> set (enroll_paths cfg). plain_path (awOs w) p" and "distinct (enroll_paths cfg)"
  shows "(\<exists>h. history (awOs w') = history (awOs w) @ h
        \<and> (\<forall>d \<in> set h. enroll_state cfg (step_ca (aeCrypto env) api p) (files (awOs w)) d))
     \<and> (r = None \<longrightarrow> map_get (files (awOs w')) (idBootstrapToken (agIdentity cfg)) = None
          \<and> (\<exists>cert key. map_get (files (awOs w')) (idCert (agIdentity cfg)) = Some \<lparr>content = EncodeCertPEM (aeCrypto env) cert, mode = 420\<rparr>
               \<and> key_on_disk (aeCrypto env) (idKey (agIdentity cfg)) key (files (awOs w'))))"
proof -
  have "\<exists>h. history (awOs w') = history (awOs w) @ h
      \<and> (\<forall>d \<in> set h. enroll_state cfg (step_ca (aeCrypto env) api p) (files (awOs w)) d)"
    using Enroll_outcome [OF assms] unfolding evolves_def by blast
  moreover have "map_get (files (awOs w')) (idBootstrapToken (agIdentity cfg)) = None
      \<and> (\<exists>cert key. map_get (files (awOs w')) (idCert (agIdentity cfg)) = Some \<lparr>content = EncodeCertPEM (aeCrypto env) cert, mode = 420\<rparr>
           \<and> key_on_disk (aeCrypto env) (idKey (agIdentity cfg)) key (files (awOs w')))" if "r = None"
  proof -
    have A: "Enroll env cfg (step_ca (aeCrypto env) api p) pid w = (None, w')" using assms(1) that by simp
    obtain req ic n n' where ic: "caEnroll (step_ca (aeCrypto env) api p) req n = (Inr ic, n')"
      "map_get (files (awOs w')) (idCert (agIdentity cfg)) = Some \<lparr>content = icCertPEM ic, mode = 420\<rparr>"
      using Enroll_success [OF A assms(2,3)] by blast
    have "icCertPEM ic = EncodeCertPEM (aeCrypto env) (icCertificate ic)"
      using step.enrolled_wf [OF ic(1)] by (simp add: identity_wf_def)
    then show ?thesis using Enroll_success [OF A assms(2,3)] ic(2) by metis
  qed
  ultimately show ?thesis by blast
qed

definition new_host_files :: "os_file strmap" where
  "new_host_files = [(''/i/t'', \<lparr>content = ''tok'', mode = 384\<rparr>)]"

definition enroll_env :: "unit agent_env" where
  "enroll_env = example_agent_env\<lparr>aeCrypto := example_crypto\<rparr>"

definition enroll_ca :: "unit identity_ca" where
  "enroll_ca = step_ca example_crypto example_step_api (idStepCA (agIdentity example_agent_config), ())"

lemma example_enroll: "Option.is_none (fst (Enroll enroll_env example_agent_config enroll_ca 1 (agent_at new_host_files)))"
  by code_simp

theorem enroll_spends_token_last_witness:
  "map_get (files (awOs (snd (Enroll enroll_env example_agent_config enroll_ca 1 (agent_at new_host_files))))) ''/i/t'' = None
   \<and> list_all (enroll_state example_agent_config enroll_ca new_host_files)
       (history (awOs (snd (Enroll enroll_env example_agent_config enroll_ca 1 (agent_at new_host_files)))))"
proof -
  let ?R = "Enroll enroll_env example_agent_config enroll_ca 1 (agent_at new_host_files)"
  have R: "?R = (None, snd ?R)" using example_enroll by (simp add: prod_eq_iff Option.is_none_def)
  have ca: "enroll_ca = step_ca (aeCrypto enroll_env) example_step_api (idStepCA (agIdentity example_agent_config), ())"
    by (simp add: enroll_ca_def enroll_env_def)
  have start: "files (awOs (agent_at new_host_files)) = new_host_files" "history (awOs (agent_at new_host_files)) = []"
    by (simp_all add: agent_at_def agent_disk_def)
  note T = enroll_spends_token_last [OF R [unfolded ca] example_enroll_paths(2,1), folded ca, unfolded start]
  have "idBootstrapToken (agIdentity example_agent_config) = ''/i/t''" by (simp add: example_agent_config_def)
  then show ?thesis using T by (auto simp: list_all_iff)
qed

text \<open>
  C39: validation compares the path of the key with that of the certificate only. A configuration
  whose chain (or full chain) is to be written to the path of the key is accepted, and installing a bundle
  then replaces the private key by the chain.
\<close>

theorem chain_path_overwrites_key:
  assumes "install_certificate env c bdl w = (r, w')" and "ccChain c = ccKey c" and "distinct [ccKey c, ccCert c, ccFullChain c]"
    and "plain_path (awOs w) (ccKey c)" and "plain_path (awOs w) (ccCert c)" and "plain_path (awOs w) (ccFullChain c)"
    and "TrimSpace (ccReloadCommand c) = []" and "r = None"
  shows "map_get (files (awOs w')) (ccKey c) = Some \<lparr>content = ChainPEM bdl, mode = 420\<rparr>
     \<and> (\<forall>other seen i. other \<noteq> [] \<and> ccKey c \<noteq> [] \<longrightarrow> cert_errors seen i c = cert_errors seen i (c\<lparr>ccChain := other\<rparr>))"
proof -
  let ?fs = "[(ccCert c, CertPEM bdl), (ccChain c, ChainPEM bdl), (ccFullChain c, FullChainPEM bdl)]"
  have "write_files ?fs (awOs w) = (None, awOs w')"
    using assms(1,7,8) by (auto simp: install_certificate_def WriteToDisk_def on_disk_def split: prod.splits option.splits)
  from write_files_evolves [OF this] have "map_get (files (awOs w')) (ccKey c) = Some \<lparr>content = ChainPEM bdl, mode = 420\<rparr>"
    using assms(2-6) by auto
  then show ?thesis using assms(2) by (simp add: cert_errors_def Let_def split: sum.splits)
qed

definition overwriting_config :: cert_config where
  "overwriting_config = example_cert_config\<lparr>ccChain := ''/d/k'', ccReloadCommand := []\<rparr>"

definition overwriting_bundle :: cert_bundle where
  "overwriting_bundle = \<lparr>CertPEM = ''CERTIFICATE:der'', ChainPEM = ''CERTIFICATE:ca'', FullChainPEM = ''CERTIFICATE:derCERTIFICATE:ca'',
     LeafSerialNumber = ''7'', bundleNotBefore = 0, bundleNotAfter = 100 * 24 * Hour\<rparr>"

theorem chain_path_overwrites_key_witness:
  "cert_errors [] 0 overwriting_config = []
   \<and> map_get (files (awOs (snd (install_certificate example_agent_env overwriting_config overwriting_bundle (agent_at enrolled_files))))) ''/d/k''
     = Some \<lparr>content = ''CERTIFICATE:ca'', mode = 420\<rparr>"
proof -
  let ?I = "install_certificate example_agent_env overwriting_config overwriting_bundle (agent_at enrolled_files)"
  have I: "?I = (fst ?I, snd ?I)" by simp
  have "Option.is_none (fst ?I)" by code_simp
  then have ok: "fst ?I = None" by (simp add: Option.is_none_def)
  have "list_all (\<lambda>p. \<not> HasPrefix (Base_raw p) ''.certplane-'') [''/d/k'', ''/d/c'', ''/d/f'']" by code_simp
  from example_plain [OF this, of enrolled_files]
  have "plain_path (awOs (agent_at enrolled_files)) ''/d/k''" "plain_path (awOs (agent_at enrolled_files)) ''/d/c''"
    "plain_path (awOs (agent_at enrolled_files)) ''/d/f''" by simp_all
  moreover have c: "ccKey overwriting_config = ''/d/k''" "ccCert overwriting_config = ''/d/c''"
    "ccChain overwriting_config = ''/d/k''" "ccFullChain overwriting_config = ''/d/f''"
    "TrimSpace (ccReloadCommand overwriting_config) = []" "ChainPEM overwriting_bundle = ''CERTIFICATE:ca''" by code_simp+
  ultimately have "map_get (files (awOs (snd ?I))) ''/d/k'' = Some \<lparr>content = ''CERTIFICATE:ca'', mode = 420\<rparr>"
    using chain_path_overwrites_key [OF I _ _ _ _ _ c(5) ok] unfolding c by simp
  moreover have "cert_errors [] 0 overwriting_config = []" by code_simp
  ultimately show ?thesis by blast
qed

end
