(* ===== verification/Broker_Safety.thy ===== *)
theory Broker_Safety
  imports Broker
begin

text \<open>
  What the handler for certificate requests guarantees, for every store, issuer, recorder and
  environment that keep the laws of the locale \<open>handler_world\<close>: the recorder appends the event it
  accepts to a log and touches nothing else, the other operations leave the log alone and the clock
  does not go back. The locale \<open>broker_world\<close> adds that \<^verbatim>\<open>singleflight\<close> either runs the function it is
  given or hands out the result of another call under the same key.
\<close>

section \<open>A granted request\<close>

text \<open>
  The context \<open>c\<close> is that of the request \<open>r\<close>, which was authenticated at the time \<open>now\<close>, parsed
  and authorised by the current policy.
\<close>

definition granted :: "'w server \<Rightarrow> http_request \<Rightarrow> instant \<Rightarrow> compiled_profile \<Rightarrow> request_context \<Rightarrow> bool" where
  "granted s r now profile c \<longleftrightarrow>
     cRequest c = r \<and> IdentityFromRequest now r = Inr (cIdentity c)
     \<and> (\<exists>body csr pol. read_body r = Inr body
          \<and> envUnmarshal (srvEnv s) body = Some \<lparr>iqProfile = cProfileName c, iqCSRPEM = cCSRPEM c\<rparr>
          \<and> cProfileName c \<noteq> [] \<and> cCSRPEM c \<noteq> []
          \<and> ParseCSRPEM (envCrypto (srvEnv s)) (cCSRPEM c) = Inr csr
          \<and> Current (srvPolicy s) = Some pol
          \<and> Authorize pol (cIdentity c) (cProfileName c) (Some csr) = (Some profile, None)
          \<and> PublicKeyFingerprint (envCrypto (srvEnv s)) (csrPublicKey csr) = Inr (cPublicKeyFP c)
          \<and> cCSR c = Some csr \<and> cPolicy c = Some pol)
     \<and> cProfile c = Some profile"

abbreviation request_key :: "'w server \<Rightarrow> request_context \<Rightarrow> compiled_profile \<Rightarrow> cache_key" where
  "request_key s c profile \<equiv> server_cacheKey s (cIdentity c) (cProfileName c) profile (cPublicKeyFP c)"

text \<open>An event about a context, of a given type.\<close>

definition event_about :: "request_context \<Rightarrow> event_type \<Rightarrow> event \<Rightarrow> bool" where
  "event_about c typ ev \<longleftrightarrow>
     evType ev = typ \<and> RequestID ev = cRequestID c \<and> evIdentity ev = cIdentity c \<and> evProfileName ev = cProfileName c"

text \<open>The event that the result is recorded with.\<close>

definition result_event :: "request_context \<Rightarrow> issued_result \<Rightarrow> event \<Rightarrow> bool" where
  "result_event c issued ev \<longleftrightarrow>
     event_about c (if irCache issued = ''hit'' then EventCertificateCacheHit else EventCertificateIssued) ev
     \<and> CertSerialNumber ev = LeafSerialNumber (irBundle issued)
     \<and> evCertNotAfter ev = Some (bundleNotAfter (irBundle issued)) \<and> CacheResult ev = irCache issued"

text \<open>
  A result that was obtained under a key: by a call of \<^verbatim>\<open>issueOrLoad\<close> for a key with the same text,
  which is the one the request made itself or the one it was joined to.
\<close>

definition obtained :: "'w server \<Rightarrow> cache_key \<Rightarrow> issued_result \<Rightarrow> bool" where
  "obtained s key issued \<longleftrightarrow>
     (\<exists>key' profile' csrPEM' w w'. CertificateCacheKey_String key' = CertificateCacheKey_String key
        \<and> issueOrLoad s key' profile' csrPEM' w = (Inr issued, w'))"

text \<open>The server refuses to go on without its audit log.\<close>

definition must_audit :: "'w server \<Rightarrow> bool" where
  "must_audit s \<longleftrightarrow> srvFailureMode s = ''fail_closed'' \<and> srvAudit s \<noteq> None"

text \<open>
  What \<^verbatim>\<open>singleflight\<close> documents: a call runs its function, or it waits for a call in flight under the
  same key and shares its result.
\<close>

definition singleflight :: "'w server \<Rightarrow> bool" where
  "singleflight s \<longleftrightarrow> (\<forall>key profile csrPEM w r w'.
     envFlight (srvEnv s) (CertificateCacheKey_String key) (flight_call s key profile csrPEM) w = (r, w') \<longrightarrow>
     flight_call s key profile csrPEM w = (r, w')
     \<or> w' = w \<and> (\<exists>key' profile' csrPEM' w0. CertificateCacheKey_String key' = CertificateCacheKey_String key
           \<and> fst (flight_call s key' profile' csrPEM' w0) = r))"

text \<open>\<open>context_fields\<close> and normalisation leave these fields alone.\<close>

lemma context_fields_keeps [simp]:
  "evType (context_fields env c ev) = evType ev" "RequestID (context_fields env c ev) = RequestID ev"
  "evIdentity (context_fields env c ev) = evIdentity ev" "evProfileName (context_fields env c ev) = evProfileName ev"
  "EventID (context_fields env c ev) = EventID ev"
  by (simp_all add: context_fields_def Let_def split: option.splits sum.splits)

definition same_event :: "event \<Rightarrow> event \<Rightarrow> bool" where
  "same_event ev ev' \<longleftrightarrow> ev' = ev\<lparr>EventID := EventID ev', RequestID := RequestID ev', Timestamp := Timestamp ev'\<rparr>
     \<and> (RequestID ev \<noteq> [] \<longrightarrow> RequestID ev' = RequestID ev)"

lemma same_event_fields:
  assumes "same_event ev ev'"
  shows "evType ev' = evType ev" "evIdentity ev' = evIdentity ev" "evProfileName ev' = evProfileName ev"
    "CertSerialNumber ev' = CertSerialNumber ev" "evCertNotAfter ev' = evCertNotAfter ev" "CacheResult ev' = CacheResult ev"
    "RequestID ev \<noteq> [] \<Longrightarrow> RequestID ev' = RequestID ev"
proof -
  have "ev' = ev\<lparr>EventID := EventID ev', RequestID := RequestID ev', Timestamp := Timestamp ev'\<rparr>"
    using assms by (simp add: same_event_def)
  then obtain a b t where "ev' = ev\<lparr>EventID := a, RequestID := b, Timestamp := t\<rparr>" by blast
  then show "evType ev' = evType ev" "evIdentity ev' = evIdentity ev" "evProfileName ev' = evProfileName ev"
    "CertSerialNumber ev' = CertSerialNumber ev" "evCertNotAfter ev' = evCertNotAfter ev" "CacheResult ev' = CacheResult ev"
    by simp_all
  show "RequestID ev \<noteq> [] \<Longrightarrow> RequestID ev' = RequestID ev" using assms by (simp add: same_event_def)
qed

text \<open>Requests that are handled one after the other.\<close>

fun handle_all :: "'w server \<Rightarrow> http_request list \<Rightarrow> 'w broker_state \<Rightarrow> http_response list \<times> 'w broker_state" where
  "handle_all s [] st = ([], st)"
| "handle_all s (r # rs) st =
     (case issueCertificate s r st of (resp, st1) \<Rightarrow>
        (case handle_all s rs st1 of (resps, st2) \<Rightarrow> (resp # resps, st2)))"

section \<open>The laws\<close>

locale handler_world =
  fixes s :: "'w server" and entries :: "'w \<Rightarrow> 'a list" and entry :: "event \<Rightarrow> 'a"
    and backend :: "'w \<Rightarrow> 'b" and clock :: "'w \<Rightarrow> instant"
  assumes now_law: "envNow (srvEnv s) w = (t, w') \<Longrightarrow>
      entries w' = entries w \<and> backend w' = backend w \<and> clock w \<le> t \<and> t \<le> clock w'"
    and ulid_law: "envUlid (srvEnv s) t w = (i, w') \<Longrightarrow>
      entries w' = entries w \<and> backend w' = backend w \<and> clock w \<le> clock w'"
    and record_law: "srvAudit s = Some rec \<Longrightarrow> rec ev w = (e, w') \<Longrightarrow>
      backend w' = backend w \<and> clock w \<le> clock w' \<and> (\<exists>t. entries w' = entries w @ t)
      \<and> (e = None \<longrightarrow> entries w' = entries w @ [entry ev])"
    and get_law: "sifGet (srvStore s) k d w = (g, w') \<Longrightarrow>
      entries w' = entries w \<and> backend w' = backend w \<and> clock w \<le> clock w'"
    and put_law: "sifPut (srvStore s) k b w = (p, w') \<Longrightarrow> entries w' = entries w \<and> clock w \<le> clock w'"
    and issue_law: "issIssue (srvIssuer s) req w = (b', w') \<Longrightarrow> entries w' = entries w \<and> clock w \<le> clock w'"
begin

definition noted :: "'w \<Rightarrow> 'w \<Rightarrow> bool" where
  "noted w w' \<longleftrightarrow> backend w' = backend w \<and> clock w \<le> clock w' \<and> (\<exists>t. entries w' = entries w @ t)"

definition quiet :: "'w \<Rightarrow> 'w \<Rightarrow> bool" where
  "quiet w w' \<longleftrightarrow> backend w' = backend w \<and> clock w \<le> clock w' \<and> entries w' = entries w"

lemma quiet_refl [simp]: "quiet w w"
  by (simp add: quiet_def)

lemma quiet_trans: "quiet w w' \<Longrightarrow> quiet w' w'' \<Longrightarrow> quiet w w''"
  by (auto simp: quiet_def)

lemma noted_trans: "noted w w' \<Longrightarrow> noted w' w'' \<Longrightarrow> noted w w''"
  by (auto simp: noted_def)

lemma quiet_noted: "quiet w w' \<Longrightarrow> noted w w'"
  by (auto simp: quiet_def noted_def)

lemma noted_refl [simp]: "noted w w"
  by (simp add: noted_def)

lemma now_quiet: "envNow (srvEnv s) w = (t, w') \<Longrightarrow> quiet w w'"
  using now_law by (force simp: quiet_def)

lemma NewID_quiet:
  assumes "NewID (srvEnv s) p w = (i, w')"
  shows "quiet w w'"
proof -
  obtain t w1 where 1: "envNow (srvEnv s) w = (t, w1)" by (cases "envNow (srvEnv s) w")
  obtain u w2 where 2: "envUlid (srvEnv s) t w1 = (u, w2)" by (cases "envUlid (srvEnv s) t w1")
  have "quiet w1 w2" using ulid_law [OF 2] by (simp add: quiet_def)
  moreover have "w' = w2" using assms by (simp add: NewID_def 1 2 split: option.splits)
  ultimately show ?thesis using now_quiet [OF 1] quiet_trans by blast
qed

lemma auditEvent_outcome:
  assumes "auditEvent s c typ sev dec reason err w = (ev, w')"
  shows "quiet w w' \<and> event_about c typ ev"
proof -
  obtain i w1 where 1: "NewID (srvEnv s) ''evt_'' w = (i, w1)" by (cases "NewID (srvEnv s) ''evt_'' w")
  obtain t w2 where 2: "envNow (srvEnv s) w1 = (t, w2)" by (cases "envNow (srvEnv s) w1")
  have "w' = w2" "event_about c typ ev"
    using assms
    by (auto simp: auditEvent_def newAuditEvent_def 1 2 Let_def event_about_def zero_event_def split: option.splits)
  then show ?thesis using NewID_quiet [OF 1] now_quiet [OF 2] quiet_trans by blast
qed

lemma issuedEvent_outcome:
  assumes "issuedEvent s c issued w = (ev, w')"
  shows "quiet w w' \<and> result_event c issued ev"
proof -
  let ?kind = "if irCache issued = ''hit'' then EventCertificateCacheHit else EventCertificateIssued"
  let ?dec = "if irCache issued = ''hit'' then DecisionCacheHit else DecisionIssue"
  let ?rea = "if irCache issued = ''hit'' then ReasonCacheHit else ReasonCacheMiss"
  obtain ev1 w1 where 1: "auditEvent s c ?kind SeverityInfo ?dec ?rea None w = (ev1, w1)"
    by (cases "auditEvent s c ?kind SeverityInfo ?dec ?rea None w")
  have "w' = w1" "ev = ev1\<lparr>evIssuerName := issName (srvIssuer s), evIssuerDirectory := issDirectory (srvIssuer s),
        CertSerialNumber := LeafSerialNumber (irBundle issued), evCertNotBefore := Some (bundleNotBefore (irBundle issued)),
        evCertNotAfter := Some (bundleNotAfter (irBundle issued)), CacheResult := irCache issued\<rparr>"
    using assms by (simp_all add: issuedEvent_def Let_def 1)
  with auditEvent_outcome [OF 1] show ?thesis by (simp add: result_event_def event_about_def)
qed

lemma normalize_outcome:
  assumes "normalizeAuditEvent (srvEnv s) ev w = (ev', w')"
  shows "quiet w w' \<and> same_event ev ev'"
proof -
  obtain e1 w1 where 1: "(if EventID ev = [] then (case NewID (srvEnv s) ''evt_'' w of (i, w) \<Rightarrow> (ev\<lparr>EventID := id_or_empty i\<rparr>, w)) else (ev, w)) = (e1, w1)"
    by fastforce
  obtain e2 w2 where 2: "(if RequestID e1 = [] then (case NewID (srvEnv s) ''req_'' w1 of (i, w) \<Rightarrow> (e1\<lparr>RequestID := id_or_empty i\<rparr>, w)) else (e1, w1)) = (e2, w2)"
    by fastforce
  have 3: "(if Timestamp e2 = zero_time then (case envNow (srvEnv s) w2 of (now, w) \<Rightarrow> (e2\<lparr>Timestamp := now\<rparr>, w)) else (e2, w2)) = (ev', w')"
    using assms unfolding normalizeAuditEvent_def 1 prod.case 2 .
  have 4: "quiet w w1" "\<exists>i. e1 = ev\<lparr>EventID := i\<rparr>"
    using 1 NewID_quiet by (auto split: if_splits prod.splits intro: exI [of _ "EventID ev"])
  have 5: "quiet w1 w2" "\<exists>i. e2 = e1\<lparr>RequestID := i\<rparr> \<and> (RequestID e1 \<noteq> [] \<longrightarrow> i = RequestID e1)"
    using 2 NewID_quiet by (auto split: if_splits prod.splits intro: exI [of _ "RequestID e1"])
  have 6: "quiet w2 w'" "\<exists>t. ev' = e2\<lparr>Timestamp := t\<rparr>"
    using 3 now_quiet by (auto split: if_splits prod.splits intro: exI [of _ "Timestamp e2"])
  obtain a where a: "e1 = ev\<lparr>EventID := a\<rparr>" using 4(2) by blast
  obtain b where b: "e2 = e1\<lparr>RequestID := b\<rparr>" "RequestID e1 \<noteq> [] \<longrightarrow> b = RequestID e1" using 5(2) by blast
  obtain t where t: "ev' = e2\<lparr>Timestamp := t\<rparr>" using 6(2) by blast
  have "ev' = ev\<lparr>EventID := a, RequestID := b, Timestamp := t\<rparr>" "RequestID ev \<noteq> [] \<longrightarrow> b = RequestID ev"
    using a b t by simp_all
  then have "same_event ev ev'" by (simp add: same_event_def)
  moreover have "quiet w w'" using 4(1) 5(1) 6(1) quiet_trans by blast
  ultimately show ?thesis by blast
qed

text \<open>An accepted event is the next entry of the log.\<close>

definition logged :: "event \<Rightarrow> 'w \<Rightarrow> 'w \<Rightarrow> bool" where
  "logged ev w w' \<longleftrightarrow> (\<exists>ev'. same_event ev ev' \<and> entries w' = entries w @ [entry ev'])"

lemma record_event_outcome:
  assumes "record_event s ev w = (e, w')"
  shows "noted w w' \<and> (e = None \<and> srvAudit s \<noteq> None \<longrightarrow> logged ev w w')"
proof -
  obtain ev1 w1 where 1: "normalizeAuditEvent (srvEnv s) ev w = (ev1, w1)"
    by (cases "normalizeAuditEvent (srvEnv s) ev w")
  note n = normalize_outcome [OF 1]
  show ?thesis
  proof (cases "srvAudit s")
    case None
    then have "w' = w1" using assms by (simp add: record_event_def 1)
    then show ?thesis using n None by (simp add: quiet_noted)
  next
    case (Some rec)
    then have r: "rec ev1 w1 = (e, w')" using assms by (simp add: record_event_def 1)
    show ?thesis
      using record_law [OF Some r] n by (auto simp: noted_def quiet_def logged_def)
  qed
qed

lemma audit_note_noted: "noted w (audit_note s c typ sev dec reason err w)"
proof -
  obtain ev w1 where 1: "auditEvent s c typ sev dec reason err w = (ev, w1)"
    by (cases "auditEvent s c typ sev dec reason err w")
  obtain e w2 where 2: "record_event s ev w1 = (e, w2)" by (cases "record_event s ev w1")
  from auditEvent_outcome [OF 1] record_event_outcome [OF 2] show ?thesis
    unfolding audit_note_def 1 by (auto simp: 2 intro: noted_trans quiet_noted)
qed

lemma auditBarrier_outcome:
  assumes "auditBarrier s ev w = (e, w')"
  shows "noted w w' \<and> (e = None \<and> must_audit s \<longrightarrow> logged ev w w')"
proof -
  obtain e1 w1 where 1: "record_event s ev w = (e1, w1)" by (cases "record_event s ev w")
  then have "w' = w1" "e = None \<and> must_audit s \<longrightarrow> e1 = None"
    using assms by (auto simp: auditBarrier_def must_audit_def split: option.splits if_splits)
  with record_event_outcome [OF 1] show ?thesis by (auto simp: must_audit_def)
qed

section \<open>The steps\<close>

text \<open>Each step leaves the backend alone, and says what it knows when it goes on.\<close>

definition step_ok :: "'w broker_state \<Rightarrow> 'w broker_state \<Rightarrow> bool" where
  "step_ok st st' \<longleftrightarrow> noted (bsWorld st) (bsWorld st') \<and> bsLimiter st' = bsLimiter st"

lemma step_ok_trans: "step_ok st st' \<Longrightarrow> step_ok st' st'' \<Longrightarrow> step_ok st st''"
  using noted_trans by (auto simp: step_ok_def)

lemma authenticate_outcome:
  assumes "authenticateIssueRequest s c st = (r, st')"
  shows "step_ok st st' \<and> (case r of
      Inl resp \<Rightarrow> respStatus resp = 401
    | Inr c' \<Rightarrow> \<exists>now identity. clock (bsWorld st) \<le> now \<and> IdentityFromRequest now (cRequest c) = Inr identity
        \<and> c' = c\<lparr>cIdentity := identity\<rparr>)"
proof -
  obtain now w1 where 1: "envNow (srvEnv s) (bsWorld st) = (now, w1)" by (cases "envNow (srvEnv s) (bsWorld st)")
  have "clock (bsWorld st) \<le> now" using now_law [OF 1] by simp
  then show ?thesis
    using assms now_quiet [OF 1] noted_trans [OF quiet_noted audit_note_noted]
    by (auto simp: authenticateIssueRequest_def on_world_def 1 Let_def step_ok_def writeError_def writeJSON_def
        split: sum.splits)
qed

lemma parse_outcome:
  assumes "parseIssueRequest s c st = (r, st')"
  shows "step_ok st st' \<and> (case r of
      Inl resp \<Rightarrow> respStatus resp = 400
    | Inr c' \<Rightarrow> \<exists>body q csr. read_body (cRequest c) = Inr body \<and> envUnmarshal (srvEnv s) body = Some q
        \<and> iqProfile q \<noteq> [] \<and> iqCSRPEM q \<noteq> [] \<and> ParseCSRPEM (envCrypto (srvEnv s)) (iqCSRPEM q) = Inr csr
        \<and> c' = c\<lparr>cProfileName := iqProfile q, cCSRPEM := iqCSRPEM q, cCSR := Some csr\<rparr>)"
  using assms audit_note_noted
  by (auto simp: parseIssueRequest_def on_world_def Let_def step_ok_def denyBadRequest_def writeError_def writeJSON_def
      split: sum.splits option.splits if_splits)

lemma authorize_outcome:
  assumes "authorizeIssueRequest s c st = (r, st')"
  shows "step_ok st st' \<and> (case r of
      Inl resp \<Rightarrow> respStatus resp = 403 \<or> respStatus resp = 503
    | Inr c' \<Rightarrow> \<exists>pol profile. Current (srvPolicy s) = Some pol
        \<and> Authorize pol (cIdentity c) (cProfileName c) (cCSR c) = (profile, None)
        \<and> c' = c\<lparr>cPolicy := Some pol, cProfile := profile\<rparr>)"
proof (cases "Current (srvPolicy s)")
  case None
  then show ?thesis
    using assms audit_note_noted
    by (auto simp: authorizeIssueRequest_def on_world_def step_ok_def writeError_def writeJSON_def)
next
  case (Some pol)
  obtain profile err where A: "Authorize pol (cIdentity c) (cProfileName c) (cCSR c) = (profile, err)"
    by (cases "Authorize pol (cIdentity c) (cProfileName c) (cCSR c)")
  show ?thesis
    using assms audit_note_noted Some A
    by (cases err) (auto simp: authorizeIssueRequest_def on_world_def Let_def step_ok_def writeError_def writeJSON_def)
qed

lemma fingerprint_outcome:
  assumes "attachPublicKeyFingerprint s c st = (r, st')"
  shows "step_ok st st' \<and> (case r of
      Inl resp \<Rightarrow> respStatus resp = 400
    | Inr c' \<Rightarrow> \<exists>fp. PublicKeyFingerprint (envCrypto (srvEnv s)) (case cCSR c of Some csr \<Rightarrow> csrPublicKey csr | None \<Rightarrow> []) = Inr fp
        \<and> c' = c\<lparr>cPublicKeyFP := fp\<rparr>)"
  using assms audit_note_noted
  by (auto simp: attachPublicKeyFingerprint_def on_world_def step_ok_def denyBadRequest_def writeError_def writeJSON_def
      split: sum.splits)

lemma authorized_outcome:
  assumes "recordAuthorizedIssue s c st = (r, st')" and id: "cRequestID c \<noteq> []"
  shows "step_ok st st' \<and> (case r of
      Inl resp \<Rightarrow> respStatus resp = 503
    | Inr c' \<Rightarrow> c' = c \<and> (must_audit s \<longrightarrow>
        (\<exists>ev. event_about c EventCertificateAuthorized ev \<and> entries (bsWorld st') = entries (bsWorld st) @ [entry ev])))"
proof -
  obtain ev w1 where 1: "auditEvent s c EventCertificateAuthorized SeverityInfo DecisionAllow ReasonOK None (bsWorld st) = (ev, w1)"
    by (cases "auditEvent s c EventCertificateAuthorized SeverityInfo DecisionAllow ReasonOK None (bsWorld st)")
  obtain e w2 where 2: "auditBarrier s ev w1 = (e, w2)" by (cases "auditBarrier s ev w1")
  have ev: "quiet (bsWorld st) w1" "event_about c EventCertificateAuthorized ev" using auditEvent_outcome [OF 1] by auto
  have b: "noted w1 w2" "e = None \<and> must_audit s \<longrightarrow> logged ev w1 w2" using auditBarrier_outcome [OF 2] by auto
  have st': "st' = st\<lparr>bsWorld := w2\<rparr>" "r = (case e of Some _ \<Rightarrow> Inl (writeError 503 ''audit unavailable'') | None \<Rightarrow> Inr c)"
    using assms(1) by (auto simp: recordAuthorizedIssue_def on_world_def 1 2 split: option.splits)
  have "step_ok st st'" using ev(1) b(1) noted_trans quiet_noted by (simp add: step_ok_def st') blast
  moreover have "\<exists>ev'. event_about c EventCertificateAuthorized ev' \<and> entries w2 = entries (bsWorld st) @ [entry ev']"
    if "e = None" "must_audit s"
  proof -
    obtain ev' where "same_event ev ev'" "entries w2 = entries w1 @ [entry ev']" using b(2) \<open>e = None\<close> \<open>must_audit s\<close> by (auto simp: logged_def)
    then show ?thesis using ev id same_event_fields [of ev ev'] by (auto simp: event_about_def quiet_def)
  qed
  ultimately show ?thesis by (cases e) (auto simp: st' writeError_def writeJSON_def)
qed

text \<open>The rate limiter is the only other state the checks change.\<close>

lemma ratelimit_outcome:
  assumes "checkIssueRateLimit s c st = (r, st')"
  shows "noted (bsWorld st) (bsWorld st') \<and> (\<exists>now e. clock (bsWorld st) \<le> now \<and> now \<le> clock (bsWorld st')
     \<and> Allow now (cIdentity c) (cProfileName c) (bsLimiter st) = (e, bsLimiter st')
     \<and> (case r of Inl resp \<Rightarrow> respStatus resp = 429 \<and> e \<noteq> None | Inr c' \<Rightarrow> c' = c \<and> e = None))"
proof -
  obtain now w1 where 1: "envNow (srvEnv s) (bsWorld st) = (now, w1)" by (cases "envNow (srvEnv s) (bsWorld st)")
  obtain e l where 2: "Allow now (cIdentity c) (cProfileName c) (bsLimiter st) = (e, l)"
    by (cases "Allow now (cIdentity c) (cProfileName c) (bsLimiter st)")
  let ?w2 = "\<lambda>err. audit_note s c EventCertificateDenied SeverityWarn DecisionDeny ReasonRateLimited (Some (RateError err)) w1"
  have st': "bsLimiter st' = l" "bsWorld st' = (case e of None \<Rightarrow> w1 | Some err \<Rightarrow> ?w2 err)"
    "r = (case e of None \<Rightarrow> Inr c | Some _ \<Rightarrow> Inl (writeError 429 ''rate limited''))"
    using assms by (auto simp: checkIssueRateLimit_def on_world_def 1 2 split: option.splits)
  have n: "noted w1 (bsWorld st')" using audit_note_noted by (simp add: st' split: option.splits)
  then have "noted (bsWorld st) (bsWorld st')" using now_quiet [OF 1] noted_trans quiet_noted by blast
  moreover have "clock (bsWorld st) \<le> now \<and> now \<le> clock (bsWorld st')"
    using now_law [OF 1] n by (auto simp: noted_def)
  ultimately show ?thesis using 2 by (cases e) (auto simp: st' writeError_def writeJSON_def)
qed

lemma and_then_cases:
  assumes "and_then m k = (r, st')"
  obtains (stop) resp where "m = (Inl resp, st')" and "r = Inl resp"
  | (go) x st1 where "m = (Inr x, st1)" and "k x st1 = (r, st')"
  using assms by (auto simp: and_then_def split: prod.splits sum.splits)

text \<open>
  What the checks establish. \<open>audit_trail\<close> says that the log has grown by some entries, the one of
  the authorisation among them when the server must audit.
\<close>

definition authorized_in_log :: "request_context \<Rightarrow> 'w \<Rightarrow> 'w \<Rightarrow> bool" where
  "authorized_in_log c w w' \<longleftrightarrow>
     (\<exists>t1 ev t2. event_about c EventCertificateAuthorized ev \<and> entries w' = entries w @ t1 @ [entry ev] @ t2)"

definition rate_checked :: "request_context \<Rightarrow> 'w broker_state \<Rightarrow> 'w broker_state \<Rightarrow> rate_error option \<Rightarrow> bool" where
  "rate_checked c st st' e \<longleftrightarrow> (\<exists>now. clock (bsWorld st) \<le> now \<and> now \<le> clock (bsWorld st')
     \<and> Allow now (cIdentity c) (cProfileName c) (bsLimiter st) = (e, bsLimiter st'))"

lemma authorized_in_log_extend:
  assumes "noted w0 w1" and "event_about c EventCertificateAuthorized ev" and "entries w2 = entries w1 @ [entry ev]" and "noted w2 w3"
  shows "authorized_in_log c w0 w3"
proof -
  obtain t1 where "entries w1 = entries w0 @ t1" using assms(1) by (auto simp: noted_def)
  moreover obtain t2 where "entries w3 = entries w2 @ t2" using assms(4) by (auto simp: noted_def)
  ultimately have "entries w3 = entries w0 @ t1 @ [entry ev] @ t2" using assms(3) by simp
  then show ?thesis using assms(2) unfolding authorized_in_log_def by blast
qed

lemma Authorize_profile:
  "Authorize pol i p (Some csr) = (profile, None) \<Longrightarrow> \<exists>pr. profile = Some pr"
  using Authorize_error_cases [of pol i p "Some csr"] by auto

text \<open>
  The four checks that do not depend on the audit log or the rate limiter, composed by a rule for
  what a sequence of them establishes.
\<close>

definition checks :: "'w broker_state \<Rightarrow> ('c \<Rightarrow> bool) \<Rightarrow> (http_response, 'c) result \<times> 'w broker_state \<Rightarrow> bool" where
  "checks st P m \<longleftrightarrow> step_ok st (snd m)
     \<and> (case fst m of Inl resp \<Rightarrow> respStatus resp \<in> {400, 401, 403, 503} | Inr x \<Rightarrow> P x)"

lemma checks_then:
  assumes "checks st P m" and "\<And>x st1. P x \<Longrightarrow> checks st1 Q (k x st1)"
  shows "checks st Q (and_then m k)"
proof (cases m)
  case (Pair r st1)
  show ?thesis
  proof (cases r)
    case (Inl resp)
    then show ?thesis using assms(1) Pair by (simp add: checks_def and_then_def)
  next
    case (Inr x)
    then show ?thesis
      using assms(1) assms(2) [of x st1] Pair step_ok_trans by (auto simp: checks_def and_then_def)
  qed
qed

definition authenticated :: "string \<Rightarrow> http_request \<Rightarrow> instant \<Rightarrow> request_context \<Rightarrow> bool" where
  "authenticated i req t c \<longleftrightarrow> cRequestID c = i \<and> cRequest c = req
     \<and> (\<exists>now. t \<le> now \<and> IdentityFromRequest now req = Inr (cIdentity c))"

definition parsed :: "http_request \<Rightarrow> request_context \<Rightarrow> bool" where
  "parsed req c \<longleftrightarrow> (\<exists>body csr. read_body req = Inr body
     \<and> envUnmarshal (srvEnv s) body = Some \<lparr>iqProfile = cProfileName c, iqCSRPEM = cCSRPEM c\<rparr>
     \<and> cProfileName c \<noteq> [] \<and> cCSRPEM c \<noteq> []
     \<and> ParseCSRPEM (envCrypto (srvEnv s)) (cCSRPEM c) = Inr csr \<and> cCSR c = Some csr)"

definition authorised :: "request_context \<Rightarrow> bool" where
  "authorised c \<longleftrightarrow> (\<exists>pol profile. Current (srvPolicy s) = Some pol \<and> cPolicy c = Some pol \<and> cProfile c = Some profile
     \<and> Authorize pol (cIdentity c) (cProfileName c) (cCSR c) = (Some profile, None))"

lemma checks_authenticate:
  "checks st (authenticated i req (clock (bsWorld st))) (authenticateIssueRequest s (new_context i req) st)"
  using authenticate_outcome [of "new_context i req" st]
  by (cases "authenticateIssueRequest s (new_context i req) st")
    (auto simp: checks_def authenticated_def new_context_def split: sum.splits)

lemma checks_parse:
  assumes "authenticated i req t c"
  shows "checks st (\<lambda>c. authenticated i req t c \<and> parsed req c) (parseIssueRequest s c st)"
proof -
  have q: "q = \<lparr>iqProfile = iqProfile q, iqCSRPEM = iqCSRPEM q\<rparr>" for q :: issue_request by simp
  show ?thesis
    using parse_outcome [of c st] assms q
    by (cases "parseIssueRequest s c st") (auto simp: checks_def authenticated_def parsed_def split: sum.splits)
qed

lemma checks_authorize:
  assumes "authenticated i req t c \<and> parsed req c"
  shows "checks st (\<lambda>c. (authenticated i req t c \<and> parsed req c) \<and> authorised c) (authorizeIssueRequest s c st)"
  using authorize_outcome [of c st] assms Authorize_profile
  by (cases "authorizeIssueRequest s c st")
    (fastforce simp: checks_def authenticated_def parsed_def authorised_def split: sum.splits)

lemma checks_fingerprint:
  assumes "(authenticated i req t c \<and> parsed req c) \<and> authorised c"
  shows "checks st (\<lambda>c. cRequestID c = i \<and> (\<exists>now profile. t \<le> now \<and> granted s req now profile c)) (attachPublicKeyFingerprint s c st)"
proof -
  obtain csr where csr: "cCSR c = Some csr" using assms by (auto simp: parsed_def)
  show ?thesis
    using fingerprint_outcome [of c st] assms csr
    by (cases "attachPublicKeyFingerprint s c st")
      (force simp: checks_def authenticated_def parsed_def authorised_def granted_def split: sum.splits)
qed

lemma checks_outcome:
  assumes "and_then (and_then (and_then (authenticateIssueRequest s (new_context i req) st) (parseIssueRequest s))
      (authorizeIssueRequest s)) (attachPublicKeyFingerprint s) = (r, st')"
  shows "step_ok st st' \<and> (case r of
      Inl resp \<Rightarrow> respStatus resp \<in> {400, 401, 403, 503}
    | Inr c' \<Rightarrow> cRequestID c' = i \<and> (\<exists>now profile. clock (bsWorld st) \<le> now \<and> granted s req now profile c'))"
proof -
  have "checks st (\<lambda>c. cRequestID c = i \<and> (\<exists>now profile. clock (bsWorld st) \<le> now \<and> granted s req now profile c))
      (and_then (and_then (and_then (authenticateIssueRequest s (new_context i req) st) (parseIssueRequest s))
        (authorizeIssueRequest s)) (attachPublicKeyFingerprint s))"
    by (intro checks_then [OF checks_then [OF checks_then [OF checks_authenticate checks_parse] checks_authorize] checks_fingerprint])
  then show ?thesis unfolding assms checks_def fst_conv snd_conv .
qed

lemma admit_outcome:
  assumes "admit s (new_context i req) st = (r, st')" and "i \<noteq> []"
  shows "noted (bsWorld st) (bsWorld st') \<and> (case r of
      Inl resp \<Rightarrow> respStatus resp \<in> {400, 401, 403, 429, 503}
        \<and> (bsLimiter st' = bsLimiter st \<or> (\<exists>c e. rate_checked c st st' (Some e)))
    | Inr c \<Rightarrow> cRequestID c = i \<and> (\<exists>now profile. clock (bsWorld st) \<le> now \<and> granted s req now profile c)
        \<and> rate_checked c st st' None \<and> (must_audit s \<longrightarrow> authorized_in_log c (bsWorld st) (bsWorld st')))"
  using assms(1) unfolding admit_def
proof (cases rule: and_then_cases)
  case (stop resp)
  from stop(1) show ?thesis
  proof (cases rule: and_then_cases)
    case (stop resp')
    then show ?thesis using checks_outcome [OF stop(1)] \<open>r = Inl _\<close> by (auto simp: step_ok_def)
  next
    case (go c1 st1)
    note ch = checks_outcome [OF go(1)]
    then have "cRequestID c1 \<noteq> []" using assms(2) by simp
    from authorized_outcome [OF go(2) this] ch show ?thesis
      using \<open>r = Inl _\<close> step_ok_trans [of st st1 st'] by (auto simp: step_ok_def)
  qed
next
  case (go c2 st2)
  from go(1) obtain c1 st1 where 1: "and_then (and_then (and_then (authenticateIssueRequest s (new_context i req) st)
      (parseIssueRequest s)) (authorizeIssueRequest s)) (attachPublicKeyFingerprint s) = (Inr c1, st1)"
    "recordAuthorizedIssue s c1 st1 = (Inr c2, st2)" by (cases rule: and_then_cases) auto
  note ch = checks_outcome [OF 1(1)]
  then have id: "cRequestID c1 \<noteq> []" using assms(2) by simp
  note au = authorized_outcome [OF 1(2) id]
  note rl = ratelimit_outcome [OF go(2)]
  have ok: "step_ok st st2" using ch au step_ok_trans by blast
  have n: "noted (bsWorld st) (bsWorld st')" using ok rl noted_trans by (auto simp: step_ok_def)
  obtain now e where now: "clock (bsWorld st2) \<le> now" "now \<le> clock (bsWorld st')"
    "Allow now (cIdentity c2) (cProfileName c2) (bsLimiter st2) = (e, bsLimiter st')"
    "case r of Inl resp \<Rightarrow> respStatus resp = 429 \<and> e \<noteq> None | Inr c' \<Rightarrow> c' = c2 \<and> e = None"
    using rl by blast
  have "clock (bsWorld st) \<le> now" using ok now(1) by (auto simp: step_ok_def noted_def)
  then have rc: "rate_checked c2 st st' e" using now ok unfolding rate_checked_def by (auto simp: step_ok_def)
  have "c2 = c1" using au by simp
  have log: "authorized_in_log c2 (bsWorld st) (bsWorld st')" if "must_audit s"
    using that au ch rl \<open>c2 = c1\<close> authorized_in_log_extend by (auto simp: step_ok_def)
  show ?thesis
    using n now(4) rc log ch \<open>c2 = c1\<close> by (cases r) auto
qed

section \<open>Issuing\<close>

text \<open>Everything but the checks: the log only grows and the clock does not go back.\<close>

definition moved :: "'w \<Rightarrow> 'w \<Rightarrow> bool" where
  "moved w w' \<longleftrightarrow> clock w \<le> clock w' \<and> entries w' = entries w"

lemma moved_trans: "moved w w' \<Longrightarrow> moved w' w'' \<Longrightarrow> moved w w''"
  by (auto simp: moved_def)

lemma issueOrLoad_moved:
  assumes "issueOrLoad s key profile csrPEM w = (r, w')"
  shows "moved w w'"
proof -
  obtain g w1 where 1: "sifGet (srvStore s) key (profRenewBefore profile) w = (g, w1)"
    by (cases "sifGet (srvStore s) key (profRenewBefore profile) w")
  have m1: "moved w w1" using get_law [OF 1] by (simp add: moved_def)
  show ?thesis
  proof (cases "g = Inl ErrCacheMiss")
    case False
    then have "w' = w1" using assms 1 by (auto simp: issueOrLoad_def split: sum.splits)
    then show ?thesis using m1 by simp
  next
    case True
    let ?req = "\<lparr>irProfileName = profName profile, irDNSNames = profDNSNames profile, irCSRPEM = csrPEM,
       irACMEChallenge = Challenge (profACME profile), irACMECredentialsName = Credentials (profACME profile)\<rparr>"
    obtain b w2 where 2: "issIssue (srvIssuer s) ?req w1 = (b, w2)" by (cases "issIssue (srvIssuer s) ?req w1")
    have m2: "moved w w2" using m1 issue_law [OF 2] by (simp add: moved_def)
    show ?thesis
    proof (cases b)
      case (Inl e)
      then have "w' = w2" using assms 1 2 True by (simp add: issueOrLoad_def)
      then show ?thesis using m2 by simp
    next
      case (Inr bdl)
      obtain p w3 where 3: "sifPut (srvStore s) key bdl w2 = (p, w3)" by (cases "sifPut (srvStore s) key bdl w2")
      then have "w' = w3" using assms 1 2 True Inr by (simp add: issueOrLoad_def split: option.splits)
      then show ?thesis using m2 put_law [OF 3] by (simp add: moved_def)
    qed
  qed
qed

definition result_in_log :: "request_context \<Rightarrow> issued_result \<Rightarrow> 'w \<Rightarrow> 'w \<Rightarrow> bool" where
  "result_in_log c issued w w' \<longleftrightarrow> (\<exists>t ev. result_event c issued ev \<and> entries w' = entries w @ t @ [entry ev])"

definition grown :: "'w broker_state \<Rightarrow> 'w broker_state \<Rightarrow> bool" where
  "grown st st' \<longleftrightarrow> bsLimiter st' = bsLimiter st \<and> clock (bsWorld st) \<le> clock (bsWorld st')
     \<and> (\<exists>t. entries (bsWorld st') = entries (bsWorld st) @ t)"

lemma recordIssued_outcome:
  assumes "recordIssuedResult s c issued st = (r, st')" and id: "cRequestID c \<noteq> []"
  shows "grown st st' \<and> (case r of Inl resp \<Rightarrow> respStatus resp = 503
      | Inr _ \<Rightarrow> must_audit s \<longrightarrow> (\<exists>ev. result_event c issued ev \<and> entries (bsWorld st') = entries (bsWorld st) @ [entry ev]))"
proof -
  obtain ev w1 where 1: "issuedEvent s c issued (bsWorld st) = (ev, w1)" by (cases "issuedEvent s c issued (bsWorld st)")
  obtain e w2 where 2: "auditBarrier s ev w1 = (e, w2)" by (cases "auditBarrier s ev w1")
  have ev: "quiet (bsWorld st) w1" "result_event c issued ev" using issuedEvent_outcome [OF 1] by auto
  have b: "noted w1 w2" "e = None \<and> must_audit s \<longrightarrow> logged ev w1 w2" using auditBarrier_outcome [OF 2] by auto
  have st': "st' = st\<lparr>bsWorld := w2\<rparr>" "r = (case e of Some _ \<Rightarrow> Inl (writeError 503 ''audit unavailable'') | None \<Rightarrow> Inr ())"
    using assms(1) by (auto simp: recordIssuedResult_def on_world_def 1 2 split: option.splits)
  have "grown st st'" using ev(1) b(1) by (auto simp: grown_def st' quiet_def noted_def)
  moreover have "\<exists>ev'. result_event c issued ev' \<and> entries w2 = entries (bsWorld st) @ [entry ev']"
    if "e = None" "must_audit s"
  proof -
    obtain ev' where "same_event ev ev'" "entries w2 = entries w1 @ [entry ev']"
      using b(2) \<open>e = None\<close> \<open>must_audit s\<close> by (auto simp: logged_def)
    then show ?thesis using ev id same_event_fields [of ev ev'] by (auto simp: result_event_def event_about_def quiet_def)
  qed
  ultimately show ?thesis by (cases e) (auto simp: st' writeError_def writeJSON_def)
qed

lemma grown_trans: "grown st st' \<Longrightarrow> grown st' st'' \<Longrightarrow> grown st st''"
  by (auto simp: grown_def)

text \<open>
  \<open>calls\<close> are the calls of the limiter that a sequence of requests made, \<open>gs\<close> the ones it granted.
\<close>

definition limiter_history :: "int \<Rightarrow> int \<Rightarrow> call list \<Rightarrow> 'w broker_state \<Rightarrow> bool" where
  "limiter_history a b gs st \<longleftrightarrow> (\<exists>calls. clock_ok calls \<and> (\<forall>c \<in> set calls. fst c \<le> clock (bsWorld st))
     \<and> run (New a b) calls = (gs, bsLimiter st))"

lemma limiter_history_mono:
  assumes "limiter_history a b gs st" and "clock (bsWorld st) \<le> clock (bsWorld st')" and "bsLimiter st' = bsLimiter st"
  shows "limiter_history a b gs st'"
  using assms unfolding limiter_history_def by (metis order_trans)

lemma limiter_history_step:
  assumes "limiter_history a b gs st" and "clock (bsWorld st) \<le> now" and "now \<le> clock (bsWorld st')"
    and "Allow now i p (bsLimiter st) = (e, bsLimiter st')"
  shows "limiter_history a b (if e = None then gs @ [(now, i, p)] else gs) st'"
proof -
  obtain calls where calls: "clock_ok calls" "\<forall>c \<in> set calls. fst c \<le> clock (bsWorld st)"
    "run (New a b) calls = (gs, bsLimiter st)" using assms(1) unfolding limiter_history_def by blast
  have "clock_ok (calls @ [(now, i, p)])" using calls(1,2) assms(2) by (force simp: clock_ok_snoc)
  moreover have "\<forall>c \<in> set (calls @ [(now, i, p)]). fst c \<le> clock (bsWorld st')"
    using calls(2) assms(2,3) by force
  moreover have "run (New a b) (calls @ [(now, i, p)]) = (if e = None then gs @ [(now, i, p)] else gs, bsLimiter st')"
    using calls(3) assms(4) by (auto simp: run_append split: option.splits)
  ultimately show ?thesis unfolding limiter_history_def by blast
qed

end

text \<open>With \<^verbatim>\<open>singleflight\<close> as a function that runs the whole call.\<close>

locale broker_world = handler_world s entries entry backend clock
  for s :: "'w server" and entries :: "'w \<Rightarrow> 'a list" and entry :: "event \<Rightarrow> 'a"
    and backend :: "'w \<Rightarrow> 'b" and clock :: "'w \<Rightarrow> instant" +
  assumes flight_law: "singleflight s"
begin

lemma flight_outcome:
  assumes "envFlight (srvEnv s) (CertificateCacheKey_String key) (flight_call s key profile csrPEM) w = (r, w')"
  shows "moved w w' \<and> (\<forall>v. r = Inr v \<longrightarrow> (\<exists>issued. v = Issued issued \<and> obtained s key issued))"
proof -
  have call: "moved w0 w1 \<and> (\<forall>v. r = Inr v \<longrightarrow> (\<exists>issued w2. v = Issued issued \<and> issueOrLoad s k p c w0 = (Inr issued, w2)))"
    if f: "flight_call s k p c w0 = (r, w1)" for k p c w0 r w1
  proof -
    obtain x w2 where x: "issueOrLoad s k p c w0 = (x, w2)" by (cases "issueOrLoad s k p c w0")
    with f have "w1 = w2" "\<forall>v. r = Inr v \<longrightarrow> (\<exists>issued. v = Issued issued \<and> x = Inr issued)"
      by (auto simp: flight_call_def split: sum.splits)
    with x issueOrLoad_moved [OF x] show ?thesis by auto
  qed
  consider (run) "flight_call s key profile csrPEM w = (r, w')"
    | (join) key' profile' csrPEM' w0 where "w' = w" "CertificateCacheKey_String key' = CertificateCacheKey_String key"
        "fst (flight_call s key' profile' csrPEM' w0) = r"
    using flight_law assms unfolding singleflight_def by blast
  then show ?thesis
  proof cases
    case run
    from call [OF run] show ?thesis unfolding obtained_def by blast
  next
    case join
    then obtain w1 where "flight_call s key' profile' csrPEM' w0 = (r, w1)" by (metis prod.collapse)
    from call [OF this] join(2) have "\<forall>v. r = Inr v \<longrightarrow> (\<exists>issued. v = Issued issued \<and> obtained s key issued)"
      unfolding obtained_def by blast
    then show ?thesis using join(1) by (simp add: moved_def)
  qed
qed

lemma singleflight_outcome:
  assumes "issueOrLoadWithSingleflight s c profile key st = (r, st')"
  shows "grown st st' \<and> (case r of Inl resp \<Rightarrow> respStatus resp = 502
      | Inr issued \<Rightarrow> obtained s key issued \<and> entries (bsWorld st') = entries (bsWorld st))"
proof -
  let ?F = "envFlight (srvEnv s) (CertificateCacheKey_String key) (flight_call s key profile (cCSRPEM c)) (bsWorld st)"
  obtain x w1 where 1: "?F = (x, w1)" by (cases ?F)
  note f = flight_outcome [OF 1]
  show ?thesis
  proof (cases x)
    case (Inl e)
    have "noted w1 (audit_note s c EventCertificateIssueFailed SeverityError DecisionError ReasonIssuerFailed (Some e) w1)"
      by (rule audit_note_noted)
    then show ?thesis
      using assms 1 Inl f
      by (auto simp: issueOrLoadWithSingleflight_def on_world_def grown_def moved_def noted_def writeError_def writeJSON_def)
  next
    case (Inr v)
    then obtain issued where "v = Issued issued" "obtained s key issued" using f by auto
    then show ?thesis
      using assms 1 Inr f by (auto simp: issueOrLoadWithSingleflight_def on_world_def grown_def moved_def)
  qed
qed

lemma fulfil_outcome:
  assumes "fulfil s c st = (r, st')" and "cProfile c = Some profile" and "cRequestID c \<noteq> []"
  shows "grown st st' \<and> (case r of Inl resp \<Rightarrow> respStatus resp \<in> {502, 503}
      | Inr issued \<Rightarrow> obtained s (request_key s c profile) issued
          \<and> (must_audit s \<longrightarrow> result_in_log c issued (bsWorld st) (bsWorld st')))"
proof -
  let ?key = "request_key s c profile"
  have "and_then (issueOrLoadWithSingleflight s c profile ?key st)
      (\<lambda>issued st. and_then (recordIssuedResult s c issued st) (\<lambda>_ st. (Inr issued, st))) = (r, st')"
    using assms(1,2) by (simp add: fulfil_def Let_def)
  then show ?thesis
  proof (cases rule: and_then_cases)
    case (stop resp)
    then show ?thesis using singleflight_outcome [OF stop(1)] by auto
  next
    case (go issued st1)
    note f = singleflight_outcome [OF go(1)]
    from go(2) show ?thesis
    proof (cases rule: and_then_cases)
      case (stop resp)
      then show ?thesis using recordIssued_outcome [OF stop(1) assms(3)] f grown_trans by auto
    next
      case (go u st2)
      then have "st2 = st'" "r = Inr issued" by auto
      with recordIssued_outcome [OF go(1) assms(3)] f grown_trans [of st st1 st'] show ?thesis
        by (force simp: result_in_log_def)
    qed
  qed
qed

section \<open>The handler\<close>

lemma authorized_then_grown:
  "authorized_in_log c w w' \<Longrightarrow> entries w'' = entries w' @ t \<Longrightarrow> authorized_in_log c w w''"
  unfolding authorized_in_log_def by fastforce

lemma rate_checked_grown:
  "rate_checked c st st' e \<Longrightarrow> grown st' st'' \<Longrightarrow> rate_checked c st st'' e"
  by (force simp: rate_checked_def grown_def)

lemma quiet_start:
  assumes "quiet (bsWorld st) (bsWorld st0)" and "bsLimiter st0 = bsLimiter st"
  shows "rate_checked c st0 st' e \<Longrightarrow> rate_checked c st st' e"
    and "authorized_in_log c (bsWorld st0) w \<Longrightarrow> authorized_in_log c (bsWorld st) w"
    and "noted (bsWorld st0) w \<Longrightarrow> noted (bsWorld st) w"
  using assms by (auto simp: rate_checked_def authorized_in_log_def quiet_def noted_def intro: order_trans)

text \<open>
  Every request is refused, with the backend untouched and the limiter asked at most once, or it is
  granted, within the rate limits and, when the server must audit, with its authorisation in the
  log.
\<close>

definition refused :: "http_response \<Rightarrow> 'w broker_state \<Rightarrow> 'w broker_state \<Rightarrow> bool" where
  "refused resp st st' \<longleftrightarrow> respStatus resp \<in> {400, 401, 403, 429, 500, 503} \<and> noted (bsWorld st) (bsWorld st')
     \<and> (bsLimiter st' = bsLimiter st \<or> (\<exists>c e. rate_checked c st st' (Some e)))"

definition served :: "http_request \<Rightarrow> http_response \<Rightarrow> request_context \<Rightarrow> compiled_profile \<Rightarrow> 'w broker_state \<Rightarrow> 'w broker_state \<Rightarrow> bool" where
  "served req resp c profile st st' \<longleftrightarrow>
     (\<exists>now. clock (bsWorld st) \<le> now \<and> granted s req now profile c)
     \<and> rate_checked c st st' None \<and> (must_audit s \<longrightarrow> authorized_in_log c (bsWorld st) (bsWorld st'))
     \<and> (respStatus resp \<in> {502, 503} \<or> (\<exists>issued. resp = writeJSON 200 (issue_response_json (newIssueResponse issued))
          \<and> obtained s (request_key s c profile) issued
          \<and> (must_audit s \<longrightarrow> (\<exists>t1 ev1 t2 ev2. event_about c EventCertificateAuthorized ev1 \<and> result_event c issued ev2
               \<and> entries (bsWorld st') = entries (bsWorld st) @ t1 @ [entry ev1] @ t2 @ [entry ev2]))))"

lemma issueCertificate_outcome:
  assumes "issueCertificate s req st = (resp, st')"
  shows "refused resp st st' \<or> (\<exists>c profile. served req resp c profile st st')"
proof -
  obtain i w0 where 0: "NewID (srvEnv s) ''req_'' (bsWorld st) = (i, w0)" by (cases "NewID (srvEnv s) ''req_'' (bsWorld st)")
  let ?st = "st\<lparr>bsWorld := w0\<rparr>"
  have q: "quiet (bsWorld st) (bsWorld ?st)" using NewID_quiet [OF 0] by simp
  note start = quiet_start [OF q, simplified]
  show ?thesis
  proof (cases i)
    case None
    then have "refused resp st st'"
      using assms q by (auto simp: issueCertificate_def on_world_def 0 refused_def quiet_noted writeError_def writeJSON_def)
    then show ?thesis by blast
  next
    case (Some rid)
    then have rid: "rid \<noteq> []" using 0 by (auto simp: NewID_def split: prod.splits option.splits)
    obtain a st1 where a: "admit s (new_context rid req) ?st = (a, st1)" by (cases "admit s (new_context rid req) ?st")
    note ad = admit_outcome [OF a rid]
    show ?thesis
    proof (cases a)
      case (Inl r)
      then have "resp = r" "st' = st1" using assms Some a by (auto simp: issueCertificate_def on_world_def 0 and_then_def)
      moreover have "bsLimiter st1 = bsLimiter st \<or> (\<exists>c e. rate_checked c ?st st1 (Some e))" "noted w0 (bsWorld st1)"
        "respStatus r \<in> {400, 401, 403, 429, 500, 503}" using ad Inl by auto
      ultimately have "refused resp st st'" using start(1,3) unfolding refused_def by blast
      then show ?thesis by blast
    next
      case (Inr c)
      obtain f st2 where f: "fulfil s c st1 = (f, st2)" by (cases "fulfil s c st1")
      have c: "cRequestID c = rid" "rate_checked c ?st st1 None" "must_audit s \<longrightarrow> authorized_in_log c w0 (bsWorld st1)"
        "\<exists>now profile. clock w0 \<le> now \<and> granted s req now profile c"
        using ad Inr by auto
      then obtain now profile where g: "clock w0 \<le> now" "granted s req now profile c" by blast
      have p: "cProfile c = Some profile" using g(2) by (simp add: granted_def)
      note fu = fulfil_outcome [OF f p, unfolded c(1), OF rid]
      have st': "st' = st2" "resp = (case f of Inl r \<Rightarrow> r | Inr issued \<Rightarrow> writeJSON 200 (issue_response_json (newIssueResponse issued)))"
        using assms Some a Inr f by (auto simp: issueCertificate_def on_world_def 0 and_then_def split: sum.splits)
      have "clock (bsWorld st) \<le> now" using q g(1) by (auto simp: quiet_def)
      moreover have "rate_checked c st st' None" using start(1) c(2) rate_checked_grown fu st' by blast
      moreover have log: "authorized_in_log c (bsWorld st) (bsWorld st')" if "must_audit s"
        using start(2) c(3) that fu st'(1) authorized_then_grown unfolding grown_def by blast
      moreover have "\<exists>t1 ev1 t2 ev2. event_about c EventCertificateAuthorized ev1 \<and> result_event c issued ev2
          \<and> entries (bsWorld st') = entries (bsWorld st) @ t1 @ [entry ev1] @ t2 @ [entry ev2]"
        if m: "must_audit s" and r: "f = Inr issued" for issued
      proof -
        obtain t1 ev1 t2 where "event_about c EventCertificateAuthorized ev1" "entries (bsWorld st1) = entries (bsWorld st) @ t1 @ [entry ev1] @ t2"
          using start(2) c(3) m unfolding authorized_in_log_def by blast
        moreover obtain t ev2 where "result_event c issued ev2" "entries (bsWorld st') = entries (bsWorld st1) @ t @ [entry ev2]"
          using fu m r st'(1) unfolding result_in_log_def by auto
        ultimately have "event_about c EventCertificateAuthorized ev1 \<and> result_event c issued ev2
            \<and> entries (bsWorld st') = entries (bsWorld st) @ t1 @ [entry ev1] @ (t2 @ t) @ [entry ev2]" by simp
        then show ?thesis by blast
      qed
      ultimately have "served req resp c profile st st'"
        using g(2) fu st'(2) unfolding served_def by (cases f) auto
      then show ?thesis by blast
    qed
  qed
qed

section \<open>Sequences of requests\<close>

lemma history_request:
  assumes "issueCertificate s req st = (resp, st')" and "limiter_history a b gs st"
  shows "\<exists>g. limiter_history a b (gs @ g) st'
     \<and> (g = [] \<and> respStatus resp \<noteq> 200
        \<or> (\<exists>t now i p. g = [(t, i, p)] \<and> IdentityFromRequest now req = Inr i
             \<and> clock (bsWorld st) \<le> t \<and> t \<le> clock (bsWorld st')))"
proof -
  consider (refused) "refused resp st st'" | (served) c profile where "served req resp c profile st st'"
    using issueCertificate_outcome [OF assms(1)] by blast
  then show ?thesis
  proof cases
    case refused
    then have cl: "clock (bsWorld st) \<le> clock (bsWorld st')" by (simp add: refused_def noted_def)
    consider "bsLimiter st' = bsLimiter st" | c e where "rate_checked c st st' (Some e)"
      using refused unfolding refused_def by blast
    then have "limiter_history a b gs st'"
    proof cases
      case 1
      then show ?thesis using limiter_history_mono [OF assms(2) cl] by simp
    next
      case 2
      then obtain t where "clock (bsWorld st) \<le> t" "t \<le> clock (bsWorld st')"
        "Allow t (cIdentity c) (cProfileName c) (bsLimiter st) = (Some e, bsLimiter st')"
        by (auto simp: rate_checked_def)
      from limiter_history_step [OF assms(2) this] show ?thesis by simp
    qed
    moreover have "respStatus resp \<noteq> 200" using refused by (auto simp: refused_def)
    ultimately show ?thesis by (metis append_Nil2)
  next
    case served
    then obtain t where t: "clock (bsWorld st) \<le> t" "t \<le> clock (bsWorld st')"
      "Allow t (cIdentity c) (cProfileName c) (bsLimiter st) = (None, bsLimiter st')"
      by (auto simp: served_def rate_checked_def)
    moreover obtain now where "IdentityFromRequest now req = Inr (cIdentity c)"
      using served by (auto simp: served_def granted_def)
    ultimately show ?thesis using limiter_history_step [OF assms(2) t] by auto
  qed
qed

lemma history_requests:
  assumes "handle_all s reqs st = (resps, st')" and "limiter_history a b gs st"
  shows "\<exists>calls. limiter_history a b (gs @ concat calls) st' \<and> length calls = length reqs \<and> length resps = length reqs
     \<and> (\<forall>k < length reqs. calls ! k = [] \<and> respStatus (resps ! k) \<noteq> 200
          \<or> (\<exists>t now i p. calls ! k = [(t, i, p)] \<and> IdentityFromRequest now (reqs ! k) = Inr i))"
  using assms
proof (induction reqs arbitrary: st resps gs)
  case Nil
  then show ?case by (intro exI [of _ "[]"]) simp
next
  case (Cons req reqs)
  obtain resp st1 where 1: "issueCertificate s req st = (resp, st1)" by (cases "issueCertificate s req st")
  obtain rs where 2: "handle_all s reqs st1 = (rs, st')" "resps = resp # rs"
    using Cons.prems(1) 1 by (auto split: prod.splits)
  obtain g where g: "limiter_history a b (gs @ g) st1"
    "g = [] \<and> respStatus resp \<noteq> 200 \<or> (\<exists>t now i p. g = [(t, i, p)] \<and> IdentityFromRequest now req = Inr i)"
    using history_request [OF 1 Cons.prems(2)] by blast
  obtain calls where c: "limiter_history a b ((gs @ g) @ concat calls) st'" "length calls = length reqs" "length rs = length reqs"
    "\<forall>k < length reqs. calls ! k = [] \<and> respStatus (rs ! k) \<noteq> 200
       \<or> (\<exists>t now i p. calls ! k = [(t, i, p)] \<and> IdentityFromRequest now (reqs ! k) = Inr i)"
    using Cons.IH [OF 2(1) g(1)] by blast
  have "(g # calls) ! k = [] \<and> respStatus (resps ! k) \<noteq> 200
      \<or> (\<exists>t now i p. (g # calls) ! k = [(t, i, p)] \<and> IdentityFromRequest now ((req # reqs) ! k) = Inr i)"
    if "k < length (req # reqs)" for k
    using that g(2) c(4) 2(2) by (cases k) simp_all
  then show ?case using c(1,2,3) 2(2) by (intro exI [of _ "g # calls"]) simp
qed

end

end
