(* ===== verification/Sqlite_Schema.thy ===== *)
theory Sqlite_Schema
  imports Prelude
begin

text \<open>
  The schema of the SQLite database as \<^verbatim>\<open>sqlite_migrations.go\<close> declares it, and the lists of columns in
  \<^verbatim>\<open>sqlite_columns.go\<close> that its statements are built from.
\<close>

datatype column_type = INTEGER | TEXT | BLOB

record column =
  colName :: string
  colType :: column_type
  colNotNull :: bool
  colPrimaryKey :: bool
  colUnique :: bool

record table_schema =
  tabName :: string
  tabColumns :: "column list"
  tabUnique :: "string list list"

record index_schema =
  idxName :: string
  idxTable :: string
  idxColumns :: "string list"

text \<open>The statements of a migration; both have \<^verbatim>\<open>IF NOT EXISTS\<close>.\<close>

datatype ddl = CreateTable table_schema | CreateIndex index_schema

definition nullable :: "string \<Rightarrow> column" where
  "nullable name = \<lparr>colName = name, colType = TEXT, colNotNull = False, colPrimaryKey = False, colUnique = False\<rparr>"

definition required :: "column_type \<Rightarrow> string \<Rightarrow> column" where
  "required ty name = \<lparr>colName = name, colType = ty, colNotNull = True, colPrimaryKey = False, colUnique = False\<rparr>"

definition primary_key :: "string \<Rightarrow> column" where
  "primary_key name = \<lparr>colName = name, colType = INTEGER, colNotNull = False, colPrimaryKey = True, colUnique = False\<rparr>"

definition schema_migrations_table :: table_schema where
  "schema_migrations_table = \<lparr>tabName = ''schema_migrations'',
     tabColumns = [primary_key ''version'', required TEXT ''name'', required TEXT ''applied_at''], tabUnique = []\<rparr>"

definition cache_key_columns :: "string list" where
  "cache_key_columns = [''identity'', ''profile_name'', ''profile_hash'', ''public_key_sha256'',
     ''issuer_name'', ''issuer_directory'', ''issuer_account_key_id'']"

definition certificate_cache_table :: table_schema where
  "certificate_cache_table = \<lparr>tabName = ''certificate_cache'',
     tabColumns = primary_key ''id'' # map (required TEXT) cache_key_columns
       @ map (required BLOB) [''cert_pem'', ''chain_pem'', ''fullchain_pem'']
       @ map (required TEXT) [''serial_number'', ''not_before'', ''not_after'', ''created_at'', ''updated_at''],
     tabUnique = [cache_key_columns]\<rparr>"

definition audit_events_table :: table_schema where
  "audit_events_table = \<lparr>tabName = ''audit_events'',
     tabColumns = [primary_key ''id'', (required TEXT ''event_id'')\<lparr>colUnique := True\<rparr>]
       @ map (required TEXT) [''request_id'', ''timestamp'', ''event_type'', ''severity'', ''decision'']
       @ map nullable [''identity'', ''profile_name'', ''profile_hash'', ''policy_hash'', ''reason_code'', ''reason'', ''error'',
           ''source_ip'', ''user_agent'', ''csr_sha256'', ''csr_public_key_sha256'', ''csr_dns_names_json'',
           ''expected_dns_names_json'', ''issuer_name'', ''issuer_directory'', ''acme_order_url'', ''cert_serial_number'',
           ''cert_not_before'', ''cert_not_after'', ''cache_result'', ''metadata_json'']
       @ [required TEXT ''created_at''],
     tabUnique = []\<rparr>"

definition schema_indexes :: "index_schema list" where
  "schema_indexes =
     [\<lparr>idxName = ''idx_certificate_cache_lookup'', idxTable = ''certificate_cache'', idxColumns = cache_key_columns\<rparr>,
      \<lparr>idxName = ''idx_audit_events_timestamp'', idxTable = ''audit_events'', idxColumns = [''timestamp'']\<rparr>,
      \<lparr>idxName = ''idx_audit_events_identity'', idxTable = ''audit_events'', idxColumns = [''identity'']\<rparr>,
      \<lparr>idxName = ''idx_audit_events_profile'', idxTable = ''audit_events'', idxColumns = [''profile_name'']\<rparr>,
      \<lparr>idxName = ''idx_audit_events_decision'', idxTable = ''audit_events'', idxColumns = [''decision'']\<rparr>]"

record migration =
  migVersion :: nat
  migName :: string
  migSQL :: "ddl list"

definition sqliteMigrations :: "migration list" where
  "sqliteMigrations = [\<lparr>migVersion = 1, migName = ''initial_schema'',
     migSQL = map CreateTable [schema_migrations_table, certificate_cache_table, audit_events_table]
       @ map CreateIndex schema_indexes\<rparr>]"

section \<open>Columns\<close>

definition certificateCacheColumns :: "string list" where
  "certificateCacheColumns = [''identity'', ''profile_name'', ''profile_hash'', ''public_key_sha256'', ''issuer_name'',
     ''issuer_directory'', ''issuer_account_key_id'', ''cert_pem'', ''chain_pem'', ''fullchain_pem'', ''serial_number'',
     ''not_before'', ''not_after'', ''created_at'', ''updated_at'']"

definition auditEventColumns :: "string list" where
  "auditEventColumns = [''event_id'', ''request_id'', ''timestamp'', ''event_type'', ''severity'', ''decision'', ''identity'',
     ''profile_name'', ''profile_hash'', ''policy_hash'', ''reason_code'', ''reason'', ''error'', ''source_ip'', ''user_agent'',
     ''csr_sha256'', ''csr_public_key_sha256'', ''csr_dns_names_json'', ''expected_dns_names_json'', ''issuer_name'',
     ''issuer_directory'', ''acme_order_url'', ''cert_serial_number'', ''cert_not_before'', ''cert_not_after'', ''cache_result'',
     ''metadata_json'']"

definition columnList :: "string list \<Rightarrow> string" where
  "columnList columns = Join columns '', ''"

section \<open>What a table supports\<close>

abbreviation column_names :: "table_schema \<Rightarrow> string list" where
  "column_names t \<equiv> map colName (tabColumns t)"

text \<open>A query may read columns of the table only.\<close>

definition can_select :: "string list \<Rightarrow> table_schema \<Rightarrow> bool" where
  "can_select cols t \<longleftrightarrow> set cols \<subseteq> set (column_names t)"

text \<open>An insertion gives a value to existing columns, each once, and to every column that must not be null.\<close>

definition can_insert :: "string list \<Rightarrow> table_schema \<Rightarrow> bool" where
  "can_insert cols t \<longleftrightarrow> can_select cols t \<and> distinct cols
     \<and> list_all (\<lambda>c. colNotNull c \<longrightarrow> colName c \<in> set cols) (tabColumns t)"

text \<open>The target of \<^verbatim>\<open>ON CONFLICT\<close> has to be a uniqueness constraint of the table.\<close>

definition can_upsert :: "string list \<Rightarrow> table_schema \<Rightarrow> bool" where
  "can_upsert target t \<longleftrightarrow> target \<in> set (tabUnique t)"

lemma schema_supports_statements:
  "can_select certificateCacheColumns certificate_cache_table" "can_insert certificateCacheColumns certificate_cache_table"
  "can_upsert cache_key_columns certificate_cache_table"
  "can_select auditEventColumns audit_events_table" "can_insert (auditEventColumns @ [''created_at'']) audit_events_table"
  "can_insert [''version'', ''name'', ''applied_at''] schema_migrations_table"
  by code_simp+

end
