(* ===== verification/Sqlite.thy ===== *)
theory Sqlite
  imports Sqlite_Schema Store
begin

text \<open>
  The SQLite store of \<^verbatim>\<open>internal/broker/store\<close>. The database is the state of its tables; each SQL
  statement the source contains is one operation on them, which succeeds as a whole or fails
  and changes nothing. \<open>db_fault\<close> says which statements fail, counted by \<open>db_calls\<close>. Rows stand in
  the order of their row ids.
\<close>

section \<open>Column values\<close>

definition nullableString :: "string \<Rightarrow> string option" where
  "nullableString v = (if v = [] then None else Some v)"

definition stringFromNull :: "string option \<Rightarrow> string" where
  "stringFromNull v = (case v of None \<Rightarrow> [] | Some s \<Rightarrow> s)"

definition nullableTime :: "instant option \<Rightarrow> string option" where
  "nullableTime v =
     (case v of None \<Rightarrow> None
      | Some t \<Rightarrow> if t = zero_time then None else Some (format_rfc3339 t))"

definition parseRequiredTime :: "string \<Rightarrow> instant option" where
  "parseRequiredTime v = (if v = [] then None else parse_rfc3339 v)"

definition parseOptionalTime :: "string option \<Rightarrow> (unit, instant option) result" where
  "parseOptionalTime v =
     (case v of
        None \<Rightarrow> Inr None
      | Some s \<Rightarrow>
          if s = [] then Inr None
          else case parse_rfc3339 s of None \<Rightarrow> Inl () | Some t \<Rightarrow> Inr (Some t))"

text \<open>
  \<^verbatim>\<open>encodeJSON\<close> at the two types it is used at: slices and maps of strings, where only nil is
  written as \<^verbatim>\<open>null\<close>, and neither can fail to be marshalled.
\<close>

definition encode_names :: "string list option \<Rightarrow> string option" where
  "encode_names v = map_option (json_array json_string) v"

definition encode_metadata :: "string strmap \<Rightarrow> string option" where
  "encode_metadata m = (if m = [] then None else Some (json_string_map m))"

definition decode_names :: "string option \<Rightarrow> (unit, string list option) result" where
  "decode_names v =
     (case v of
        None \<Rightarrow> Inr None
      | Some s \<Rightarrow>
          if s = [] then Inr None
          else case unmarshal_strings s of None \<Rightarrow> Inl () | Some l \<Rightarrow> Inr (Some l))"

definition decode_metadata :: "string option \<Rightarrow> (unit, string strmap) result" where
  "decode_metadata v =
     (case v of
        None \<Rightarrow> Inr []
      | Some s \<Rightarrow>
          if s = [] then Inr []
          else case unmarshal_string_map s of None \<Rightarrow> Inl () | Some m \<Rightarrow> Inr m)"

section \<open>The database\<close>

record cache_row =
  rowKey :: cache_key
  rowCertPEM :: string
  rowChainPEM :: string
  rowFullChainPEM :: string
  rowSerialNumber :: string
  rowNotBefore :: string
  rowNotAfter :: string
  rowCreatedAt :: string
  rowUpdatedAt :: string

record audit_row =
  arEventID :: string
  arRequestID :: string
  arTimestamp :: string
  arType :: string
  arSeverity :: string
  arDecision :: string
  arIdentity :: "string option"
  arProfileName :: "string option"
  arProfileHash :: "string option"
  arPolicyHash :: "string option"
  arReasonCode :: "string option"
  arReason :: "string option"
  arError :: "string option"
  arSourceIP :: "string option"
  arUserAgent :: "string option"
  arCSRSHA256 :: "string option"
  arCSRPublicKeySHA256 :: "string option"
  arCSRDNSNamesJSON :: "string option"
  arExpectedNamesJSON :: "string option"
  arIssuerName :: "string option"
  arIssuerDirectory :: "string option"
  arACMEOrderURL :: "string option"
  arLeafSerialNumber :: "string option"
  arCertNotBefore :: "string option"
  arCertNotAfter :: "string option"
  arCacheResult :: "string option"
  arMetadataJSON :: "string option"

record db =
  db_schema :: "table_schema list"
  db_indexes :: "index_schema list"
  db_migrations :: "(nat \<times> string) list"
  db_cache :: "cache_row list"
  db_audit :: "audit_row list"
  db_calls :: nat
  db_fault :: "nat \<Rightarrow> bool"

abbreviation db_tables :: "db \<Rightarrow> string list" where
  "db_tables s \<equiv> map tabName (db_schema s)"

definition db_tick :: "db \<Rightarrow> db" where
  "db_tick s = s\<lparr>db_calls := Suc (db_calls s)\<rparr>"

text \<open>A statement fails on a fault or when its table does not exist.\<close>

definition db_failing :: "string \<Rightarrow> db \<Rightarrow> bool" where
  "db_failing table s \<longleftrightarrow> db_fault s (db_calls s) \<or> table \<notin> set (db_tables s)"

section \<open>The certificate cache\<close>

definition cacheEntry :: "cache_row \<Rightarrow> cache_entry option" where
  "cacheEntry r =
     (case parseRequiredTime (rowNotBefore r) of None \<Rightarrow> None
      | Some notBefore \<Rightarrow>
     (case parseRequiredTime (rowNotAfter r) of None \<Rightarrow> None
      | Some notAfter \<Rightarrow>
     (case parseRequiredTime (rowCreatedAt r) of None \<Rightarrow> None
      | Some createdAt \<Rightarrow>
     (case parseRequiredTime (rowUpdatedAt r) of None \<Rightarrow> None
      | Some updatedAt \<Rightarrow>
          Some \<lparr>entryKey = rowKey r,
            entryBundle = \<lparr>CertPEM = rowCertPEM r, ChainPEM = rowChainPEM r, FullChainPEM = rowFullChainPEM r,
              LeafSerialNumber = rowSerialNumber r, bundleNotBefore = notBefore, bundleNotAfter = notAfter\<rparr>,
            entryCreatedAt = createdAt, entryUpdatedAt = updatedAt\<rparr>))))"

text \<open>The statements \<^verbatim>\<open>getCertificateCacheSQL\<close>, \<^verbatim>\<open>insertCertificateCacheSQL\<close> and \<^verbatim>\<open>listCertificateCacheSQL\<close>.\<close>

definition getCertificateCacheSQL :: "cache_key \<Rightarrow> cache_row list \<Rightarrow> cache_row option" where
  "getCertificateCacheSQL key rows = find (\<lambda>r. rowKey r = key) rows"

definition insertCertificateCacheSQL :: "cache_row \<Rightarrow> cache_row list \<Rightarrow> cache_row list" where
  "insertCertificateCacheSQL row rows =
     (if list_ex (\<lambda>r. rowKey r = rowKey row) rows
      then map (\<lambda>r. if rowKey r = rowKey row then row\<lparr>rowCreatedAt := rowCreatedAt r\<rparr> else r) rows
      else rows @ [row])"

definition listCertificateCacheSQL :: "cache_row list \<Rightarrow> cache_row list" where
  "listCertificateCacheSQL rows = rev (sort_key rowUpdatedAt rows)"

definition readCertificateCacheRow :: "cache_key \<Rightarrow> db \<Rightarrow> (store_error, cache_row) result \<times> db" where
  "readCertificateCacheRow key s =
     ((if db_failing ''certificate_cache'' s then Inl CacheQueryFailed
       else case getCertificateCacheSQL key (db_cache s) of
         None \<Rightarrow> Inl ErrCacheMiss
       | Some row \<Rightarrow> Inr row), db_tick s)"

definition GetValidCertificate ::
  "instant \<Rightarrow> cache_key \<Rightarrow> duration \<Rightarrow> db \<Rightarrow> (store_error, cert_bundle) result \<times> db" where
  "GetValidCertificate now key renewBefore s =
     (case readCertificateCacheRow key s of
        (Inl e, s) \<Rightarrow> (Inl e, s)
      | (Inr row, s) \<Rightarrow>
          (case cacheEntry row of
             None \<Rightarrow> (Inl CacheDecodeFailed, s)
           | Some entry \<Rightarrow>
               if time_until now (bundleNotAfter (entryBundle entry)) \<le> renewBefore then (Inl ErrCacheMiss, s)
               else (Inr (entryBundle entry), s)))"

definition PutCertificate ::
  "instant \<Rightarrow> cache_key \<Rightarrow> cert_bundle option \<Rightarrow> db \<Rightarrow> store_error option \<times> db" where
  "PutCertificate now key bundle' s =
     (case bundle' of
        None \<Rightarrow> (Some NilBundle, s)
      | Some b \<Rightarrow>
          let now' = format_rfc3339 now;
              row = \<lparr>rowKey = key, rowCertPEM = CertPEM b, rowChainPEM = ChainPEM b,
                rowFullChainPEM = FullChainPEM b, rowSerialNumber = LeafSerialNumber b,
                rowNotBefore = format_rfc3339 (bundleNotBefore b), rowNotAfter = format_rfc3339 (bundleNotAfter b),
                rowCreatedAt = now', rowUpdatedAt = now'\<rparr> in
          if db_failing ''certificate_cache'' s then (Some CacheQueryFailed, db_tick s)
          else (None, db_tick s\<lparr>db_cache := insertCertificateCacheSQL row (db_cache s)\<rparr>))"

fun cache_entries_loop :: "cache_entry list \<Rightarrow> cache_row list \<Rightarrow> (store_error, cache_entry list) result" where
  "cache_entries_loop entries [] = Inr entries"
| "cache_entries_loop entries (row # rows) =
     (case cacheEntry row of
        None \<Rightarrow> Inl CacheDecodeFailed
      | Some entry \<Rightarrow> cache_entries_loop (entries @ [entry]) rows)"

definition SQLiteStore_List :: "db \<Rightarrow> (store_error, cache_entry list) result \<times> db" where
  "SQLiteStore_List s =
     ((if db_failing ''certificate_cache'' s then Inl CacheQueryFailed
       else cache_entries_loop [] (listCertificateCacheSQL (db_cache s))), db_tick s)"

section \<open>Audit events\<close>

definition auditEvent_of_row :: "audit_row \<Rightarrow> event option" where
  "auditEvent_of_row r =
     (case parseRequiredTime (arTimestamp r) of None \<Rightarrow> None
      | Some timestamp \<Rightarrow>
     (case parseOptionalTime (arCertNotBefore r) of Inl _ \<Rightarrow> None
      | Inr nb \<Rightarrow>
     (case parseOptionalTime (arCertNotAfter r) of Inl _ \<Rightarrow> None
      | Inr na \<Rightarrow>
     (case decode_names (arCSRDNSNamesJSON r) of Inl _ \<Rightarrow> None
      | Inr csrNames \<Rightarrow>
     (case decode_names (arExpectedNamesJSON r) of Inl _ \<Rightarrow> None
      | Inr expected \<Rightarrow>
     (case decode_metadata (arMetadataJSON r) of Inl _ \<Rightarrow> None
      | Inr metadata \<Rightarrow>
          Some \<lparr>EventID = arEventID r, RequestID = arRequestID r, Timestamp = timestamp,
            evType = arType r, evSeverity = arSeverity r, evDecision = arDecision r,
            evIdentity = stringFromNull (arIdentity r), evProfileName = stringFromNull (arProfileName r),
            evProfileHash = stringFromNull (arProfileHash r), evPolicyHash = stringFromNull (arPolicyHash r),
            ReasonCode = stringFromNull (arReasonCode r), evReason = stringFromNull (arReason r),
            evError = stringFromNull (arError r), SourceIP = stringFromNull (arSourceIP r),
            UserAgent = stringFromNull (arUserAgent r), CSRSHA256 = stringFromNull (arCSRSHA256 r),
            CSRPublicKeySHA256 = stringFromNull (arCSRPublicKeySHA256 r), evCSRDNSNames = csrNames,
            ExpectedDNSNames = expected, evIssuerName = stringFromNull (arIssuerName r),
            evIssuerDirectory = stringFromNull (arIssuerDirectory r),
            ACMEOrderURL = stringFromNull (arACMEOrderURL r),
            CertSerialNumber = stringFromNull (arLeafSerialNumber r), evCertNotBefore = nb,
            evCertNotAfter = na, CacheResult = stringFromNull (arCacheResult r),
            Metadata = metadata\<rparr>))))))"

definition insertAuditEventSQL :: "event \<Rightarrow> audit_row" where
  "insertAuditEventSQL e =
     \<lparr>arEventID = EventID e, arRequestID = RequestID e, arTimestamp = format_rfc3339 (Timestamp e),
      arType = evType e, arSeverity = evSeverity e, arDecision = evDecision e,
      arIdentity = nullableString (evIdentity e), arProfileName = nullableString (evProfileName e),
      arProfileHash = nullableString (evProfileHash e), arPolicyHash = nullableString (evPolicyHash e),
      arReasonCode = nullableString (ReasonCode e), arReason = nullableString (evReason e),
      arError = nullableString (evError e), arSourceIP = nullableString (SourceIP e),
      arUserAgent = nullableString (UserAgent e), arCSRSHA256 = nullableString (CSRSHA256 e),
      arCSRPublicKeySHA256 = nullableString (CSRPublicKeySHA256 e),
      arCSRDNSNamesJSON = encode_names (evCSRDNSNames e), arExpectedNamesJSON = encode_names (ExpectedDNSNames e),
      arIssuerName = nullableString (evIssuerName e), arIssuerDirectory = nullableString (evIssuerDirectory e),
      arACMEOrderURL = nullableString (ACMEOrderURL e), arLeafSerialNumber = nullableString (CertSerialNumber e),
      arCertNotBefore = nullableTime (evCertNotBefore e), arCertNotAfter = nullableTime (evCertNotAfter e),
      arCacheResult = nullableString (CacheResult e), arMetadataJSON = encode_metadata (Metadata e)\<rparr>"

text \<open>The event id is unique in its table.\<close>

definition Record :: "db recorder" where
  "Record e s =
     (if db_failing ''audit_events'' s \<or> list_ex (\<lambda>r. arEventID r = EventID e) (db_audit s)
      then (Some AuditInsertFailed, db_tick s)
      else (None, db_tick s\<lparr>db_audit := db_audit s @ [insertAuditEventSQL e]\<rparr>))"

text \<open>
  \<^verbatim>\<open>ORDER BY timestamp DESC LIMIT ?\<close>: SQLite walks the index on the timestamp backwards, so that
  rows with equal timestamps come newest first.
\<close>

definition listAuditEventsSQL :: "int \<Rightarrow> audit_row list \<Rightarrow> audit_row list" where
  "listAuditEventsSQL limit rows = take (nat limit) (rev (sort_key arTimestamp rows))"

fun audit_events_loop :: "event list \<Rightarrow> audit_row list \<Rightarrow> (listing_error, event list) result" where
  "audit_events_loop events [] = Inr events"
| "audit_events_loop events (row # rows) =
     (case auditEvent_of_row row of
        None \<Rightarrow> Inl ListDecodeFailed
      | Some e \<Rightarrow> audit_events_loop (events @ [e]) rows)"

definition listAuditEvents :: "int \<Rightarrow> db \<Rightarrow> (listing_error, event list) result \<times> db" where
  "listAuditEvents limit s =
     (let limit = (if limit \<le> 0 then 100 else limit) in
      ((if db_failing ''audit_events'' s then Inl ListReadFailed
        else audit_events_loop [] (listAuditEventsSQL limit (db_audit s))), db_tick s))"

fun encode_events :: "(string \<Rightarrow> 'o \<Rightarrow> bool \<times> 'o) \<Rightarrow> event list \<Rightarrow> 'o \<Rightarrow> listing_error option \<times> 'o" where
  "encode_events write [] out = (None, out)"
| "encode_events write (e # es) out =
     (case JSONLRecorder_Record write e out of
        (Some _, out) \<Rightarrow> (Some ListWriteFailed, out)
      | (None, out) \<Rightarrow> encode_events write es out)"

definition WriteAuditEvents ::
  "(string \<Rightarrow> 'o \<Rightarrow> bool \<times> 'o) \<Rightarrow> int \<Rightarrow> db \<Rightarrow> 'o \<Rightarrow> listing_error option \<times> db \<times> 'o" where
  "WriteAuditEvents write limit s out =
     (case listAuditEvents limit s of
        (Inl e, s) \<Rightarrow> (Some e, s, out)
      | (Inr events, s) \<Rightarrow> (case encode_events write events out of (e, out) \<Rightarrow> (e, s, out)))"

section \<open>Migrations\<close>

text \<open>
  The statements of a migration. All run in one transaction, so that a failure leaves the database as
  it was. An index on a table or a column that does not exist is an error.
\<close>

fun exec_ddl :: "ddl \<Rightarrow> db \<Rightarrow> db option" where
  "exec_ddl (CreateTable t) s =
     Some (if tabName t \<in> set (db_tables s) then s else s\<lparr>db_schema := db_schema s @ [t]\<rparr>)"
| "exec_ddl (CreateIndex ix) s =
     (if idxName ix \<in> set (map idxName (db_indexes s)) then Some s
      else case find (\<lambda>t. tabName t = idxTable ix) (db_schema s) of
        None \<Rightarrow> None
      | Some t \<Rightarrow> if can_select (idxColumns ix) t then Some (s\<lparr>db_indexes := db_indexes s @ [ix]\<rparr>) else None)"

fun exec_script :: "ddl list \<Rightarrow> db \<Rightarrow> db option" where
  "exec_script [] s = Some s"
| "exec_script (c # cs) s = (case exec_ddl c s of None \<Rightarrow> None | Some s \<Rightarrow> exec_script cs s)"

definition db_script :: "ddl list \<Rightarrow> db \<Rightarrow> bool \<times> db" where
  "db_script cs s =
     (if db_fault s (db_calls s) then (False, db_tick s)
      else case exec_script cs (db_tick s) of None \<Rightarrow> (False, db_tick s) | Some s \<Rightarrow> (True, s))"

definition ensureMigrationTable :: "db \<Rightarrow> bool \<times> db" where
  "ensureMigrationTable = db_script [CreateTable schema_migrations_table]"

definition db_exec :: "(db \<Rightarrow> db) \<Rightarrow> db \<Rightarrow> bool \<times> db" where
  "db_exec act s = (if db_fault s (db_calls s) then (False, db_tick s) else (True, act (db_tick s)))"

datatype migrate_error =
    BeginFailed | EnsureTableFailed | CheckFailed nat | ApplyFailed nat | RecordFailed nat | CommitFailed

definition migrationAlreadyApplied :: "nat \<Rightarrow> db \<Rightarrow> bool option \<times> db" where
  "migrationAlreadyApplied version s =
     (if db_failing ''schema_migrations'' s then (None, db_tick s)
      else (Some (list_ex (\<lambda>(v, n). v = version) (db_migrations s)), db_tick s))"

fun migrations_loop :: "migration list \<Rightarrow> db \<Rightarrow> migrate_error option \<times> db" where
  "migrations_loop [] s = (None, s)"
| "migrations_loop (m # ms) s =
     (case migrationAlreadyApplied (migVersion m) s of
        (None, s) \<Rightarrow> (Some (CheckFailed (migVersion m)), s)
      | (Some True, s) \<Rightarrow> migrations_loop ms s
      | (Some False, s) \<Rightarrow>
          (case db_script (migSQL m) s of
             (False, s) \<Rightarrow> (Some (ApplyFailed (migVersion m)), s)
           | (True, s) \<Rightarrow>
               (case db_exec (\<lambda>s. s\<lparr>db_migrations := db_migrations s @ [(migVersion m, migName m)]\<rparr>) s of
                  (False, s) \<Rightarrow> (Some (RecordFailed (migVersion m)), s)
                | (True, s) \<Rightarrow> migrations_loop ms s)))"

text \<open>Rolling back restores everything but the count of calls.\<close>

definition rollback :: "db \<Rightarrow> db \<Rightarrow> db" where
  "rollback s0 s = s0\<lparr>db_calls := db_calls s\<rparr>"

definition migrate :: "db \<Rightarrow> migrate_error option \<times> db" where
  "migrate s0 =
     (case db_exec (\<lambda>s. s) s0 of
        (False, s) \<Rightarrow> (Some BeginFailed, s)
      | (True, s) \<Rightarrow>
     (case ensureMigrationTable s of
        (False, s) \<Rightarrow> (Some EnsureTableFailed, rollback s0 s)
      | (True, s) \<Rightarrow>
     (case migrations_loop sqliteMigrations s of
        (Some e, s) \<Rightarrow> (Some e, rollback s0 s)
      | (None, s) \<Rightarrow>
     (case db_exec (\<lambda>s. s) s of
        (False, s) \<Rightarrow> (Some CommitFailed, rollback s0 s)
      | (True, s) \<Rightarrow> (None, s)))))"

section \<open>The cache as a certificate store\<close>

text \<open>Times are kept in whole seconds, and only years that RFC 3339 can write are read back.\<close>

definition norm_bundle :: "cert_bundle \<Rightarrow> cert_bundle" where
  "norm_bundle b = b\<lparr>bundleNotBefore := truncate_seconds (bundleNotBefore b),
     bundleNotAfter := truncate_seconds (bundleNotAfter b)\<rparr>"

definition storable_bundle :: "instant \<Rightarrow> cert_bundle \<Rightarrow> bool" where
  "storable_bundle now b \<longleftrightarrow> rfc3339_range now \<and> rfc3339_range (bundleNotBefore b) \<and> rfc3339_range (bundleNotAfter b)"

definition cache_inv :: "db \<Rightarrow> bool" where
  "cache_inv s \<longleftrightarrow> distinct (map rowKey (db_cache s))
     \<and> list_all (\<lambda>r. parseRequiredTime (rowCreatedAt r) \<noteq> None) (db_cache s)"

definition cache_view :: "db \<Rightarrow> cache_key \<Rightarrow> cert_bundle option" where
  "cache_view s k =
     (case getCertificateCacheSQL k (db_cache s) of
        None \<Rightarrow> None
      | Some row \<Rightarrow> map_option entryBundle (cacheEntry row))"

lemma format_nonempty: "format_rfc3339 t \<noteq> []"
  by (auto simp: format_rfc3339_def Let_def split: prod.splits)

lemma parseRequired_format:
  "rfc3339_range t \<Longrightarrow> parseRequiredTime (format_rfc3339 t) = Some (truncate_seconds t)"
  by (simp add: parseRequiredTime_def format_nonempty parse_format_rfc3339)

lemma db_tick_simps [simp]:
  "db_cache (db_tick s) = db_cache s" "db_audit (db_tick s) = db_audit s"
  "db_schema (db_tick s) = db_schema s" "db_indexes (db_tick s) = db_indexes s"
  "db_migrations (db_tick s) = db_migrations s" "db_fault (db_tick s) = db_fault s"
  "db_calls (db_tick s) = Suc (db_calls s)"
  by (simp_all add: db_tick_def)

lemma rowKey_upd_created [simp]: "rowKey (row\<lparr>rowCreatedAt := x\<rparr>) = rowKey row"
  by simp

lemma upsert_keys:
  assumes "distinct (map rowKey rows)"
  shows "distinct (map rowKey (insertCertificateCacheSQL row rows))"
proof (cases "list_ex (\<lambda>r. rowKey r = rowKey row) rows")
  case True
  have "map rowKey (map (\<lambda>r. if rowKey r = rowKey row then row\<lparr>rowCreatedAt := rowCreatedAt r\<rparr> else r) rows) = map rowKey rows"
    by simp
  with True assms show ?thesis by (simp only: insertCertificateCacheSQL_def if_True)
next
  case False
  then show ?thesis using assms by (auto simp: insertCertificateCacheSQL_def list_ex_iff)
qed

lemma get_upsert:
  "getCertificateCacheSQL k (insertCertificateCacheSQL row rows) =
     (if k = rowKey row
      then Some (row\<lparr>rowCreatedAt := (case getCertificateCacheSQL k rows of None \<Rightarrow> rowCreatedAt row
                                       | Some r \<Rightarrow> rowCreatedAt r)\<rparr>)
      else getCertificateCacheSQL k rows)"
proof (cases "list_ex (\<lambda>r. rowKey r = rowKey row) rows")
  case True
  have fm: "find (\<lambda>r. rowKey r = k) (map (\<lambda>r. if rowKey r = rowKey row then row\<lparr>rowCreatedAt := rowCreatedAt r\<rparr> else r) rs)
      = map_option (\<lambda>r. if rowKey r = rowKey row then row\<lparr>rowCreatedAt := rowCreatedAt r\<rparr> else r)
          (find (\<lambda>r. rowKey r = k) rs)" for rs k
    by (induction rs) auto
  show ?thesis
  proof (cases "find (\<lambda>r. rowKey r = k) rows")
    case None
    then have "k \<noteq> rowKey row" using True by (auto simp: find_None_iff list_ex_iff)
    with True None show ?thesis by (simp add: insertCertificateCacheSQL_def getCertificateCacheSQL_def fm)
  next
    case (Some r')
    then have "rowKey r' = k" by (auto dest: find_SomeD)
    with True Some show ?thesis
      by (cases "k = rowKey row") (simp_all add: insertCertificateCacheSQL_def getCertificateCacheSQL_def fm)
  qed
next
  case False
  then have "find (\<lambda>r. rowKey r = rowKey row) rows = None" by (auto simp: find_None_iff list_ex_iff)
  moreover have "find P (rs @ [row]) = (case find P rs of None \<Rightarrow> if P row then Some row else None | Some r \<Rightarrow> Some r)" for P rs
    by (induction rs) auto
  ultimately show ?thesis
    using False by (auto simp: insertCertificateCacheSQL_def getCertificateCacheSQL_def split: option.splits)
qed

lemma upsert_created:
  assumes "list_all (\<lambda>r. parseRequiredTime (rowCreatedAt r) \<noteq> None) rows" and "parseRequiredTime (rowCreatedAt row) \<noteq> None"
  shows "list_all (\<lambda>r. parseRequiredTime (rowCreatedAt r) \<noteq> None) (insertCertificateCacheSQL row rows)"
  using assms by (auto simp: insertCertificateCacheSQL_def list_all_iff)

lemma PutCertificate_view:
  assumes put: "PutCertificate now k (Some b) s = (e, s')" and st: "storable_bundle now b" and inv: "cache_inv s"
  shows "cache_inv s' \<and> (cache_view s' = (cache_view s)(k \<mapsto> norm_bundle b) \<or> e \<noteq> None \<and> cache_view s' = cache_view s)"
proof (cases "db_failing ''certificate_cache'' s")
  case True
  then show ?thesis using put inv by (auto simp: PutCertificate_def cache_inv_def cache_view_def)
next
  case False
  define row where "row = \<lparr>rowKey = k, rowCertPEM = CertPEM b, rowChainPEM = ChainPEM b,
      rowFullChainPEM = FullChainPEM b, rowSerialNumber = LeafSerialNumber b,
      rowNotBefore = format_rfc3339 (bundleNotBefore b), rowNotAfter = format_rfc3339 (bundleNotAfter b),
      rowCreatedAt = format_rfc3339 now, rowUpdatedAt = format_rfc3339 now\<rparr>"
  have s': "db_cache s' = insertCertificateCacheSQL row (db_cache s)"
    using put False by (auto simp: PutCertificate_def Let_def row_def)
  have now: "parseRequiredTime (rowCreatedAt row) \<noteq> None"
    using st by (simp add: row_def storable_bundle_def parseRequired_format)
  have created: "parseRequiredTime (rowCreatedAt r) \<noteq> None" if "getCertificateCacheSQL k (db_cache s) = Some r" for r
    using that inv by (auto simp: getCertificateCacheSQL_def cache_inv_def list_all_iff dest!: find_SomeD)
  have entry: "map_option entryBundle (cacheEntry (row\<lparr>rowCreatedAt := c\<rparr>)) = Some (norm_bundle b)"
    if "parseRequiredTime c \<noteq> None" for c
    using that st by (auto simp: cacheEntry_def row_def storable_bundle_def parseRequired_format norm_bundle_def)
  have "cache_view s' k' = ((cache_view s)(k \<mapsto> norm_bundle b)) k'" for k'
    using created now entry
    by (cases "getCertificateCacheSQL k (db_cache s)")
      (simp_all add: cache_view_def s' get_upsert row_def split: option.splits)
  moreover have "cache_inv s'"
    using inv now upsert_keys upsert_created unfolding cache_inv_def s' by blast
  ultimately show ?thesis by blast
qed

interpretation sq: certificate_store GetValidCertificate "\<lambda>now k b. PutCertificate now k (Some b)"
  cache_view norm_bundle storable_bundle cache_inv
proof
  show "cache_view w' = cache_view w \<and> (cache_inv w \<longrightarrow> cache_inv w')"
    if "GetValidCertificate now k d w = (r, w')" for now k d w r w'
    using that
    by (auto simp: GetValidCertificate_def readCertificateCacheRow_def cache_view_def cache_inv_def
        split: if_splits option.splits)
  show "cache_view w k = Some b \<and> d < time_until now (bundleNotAfter b)"
    if "GetValidCertificate now k d w = (Inr b, w')" for now k d w b w'
    using that
    by (auto simp: GetValidCertificate_def readCertificateCacheRow_def cache_view_def
        split: if_splits option.splits)
  show "cache_view w k = None \<or> (\<exists>b. cache_view w k = Some b \<and> time_until now (bundleNotAfter b) \<le> d)"
    if "GetValidCertificate now k d w = (Inl ErrCacheMiss, w')" for now k d w w'
    using that
    by (auto simp: GetValidCertificate_def readCertificateCacheRow_def cache_view_def
        split: if_splits option.splits)
qed (rule PutCertificate_view)

section \<open>Audit rows\<close>

text \<open>What the database keeps of an event: whole seconds, and no zero time.\<close>

definition norm_time :: "instant option \<Rightarrow> instant option" where
  "norm_time v = (case v of None \<Rightarrow> None | Some t \<Rightarrow> if t = zero_time then None else Some (truncate_seconds t))"

definition sorted_metadata :: "string strmap \<Rightarrow> string strmap" where
  "sorted_metadata m = map (\<lambda>k. (k, map_at [] m k)) (sort (map_keys m))"

definition norm_event :: "event \<Rightarrow> event" where
  "norm_event e = e\<lparr>Timestamp := truncate_seconds (Timestamp e), evCertNotBefore := norm_time (evCertNotBefore e),
     evCertNotAfter := norm_time (evCertNotAfter e), Metadata := sorted_metadata (Metadata e)\<rparr>"

definition time_ok :: "instant option \<Rightarrow> bool" where
  "time_ok v \<longleftrightarrow> (case v of None \<Rightarrow> True | Some t \<Rightarrow> rfc3339_range t)"

definition names_ok :: "string list option \<Rightarrow> bool" where
  "names_ok v \<longleftrightarrow> (case v of None \<Rightarrow> True | Some l \<Rightarrow> list_all valid_utf8 l)"

definition storable_event :: "event \<Rightarrow> bool" where
  "storable_event e \<longleftrightarrow> rfc3339_range (Timestamp e) \<and> time_ok (evCertNotBefore e) \<and> time_ok (evCertNotAfter e)
     \<and> names_ok (evCSRDNSNames e) \<and> names_ok (ExpectedDNSNames e)
     \<and> list_all (\<lambda>(k, v). valid_utf8 k \<and> valid_utf8 v) (Metadata e)"

lemma nullable_roundtrip [simp]: "stringFromNull (nullableString v) = v"
  by (simp add: nullableString_def stringFromNull_def)

lemma time_roundtrip: "time_ok v \<Longrightarrow> parseOptionalTime (nullableTime v) = Inr (norm_time v)"
  by (auto simp: time_ok_def nullableTime_def parseOptionalTime_def norm_time_def format_nonempty
      parse_format_rfc3339 split: option.splits)

lemma json_nonempty: "json_string_map m \<noteq> []" "json_array json_string l \<noteq> []"
  by (simp_all add: json_string_map_def json_array_def)

lemma names_roundtrip: "names_ok v \<Longrightarrow> decode_names (encode_names v) = Inr v"
  by (cases v) (simp_all add: names_ok_def encode_names_def decode_names_def unmarshal_strings_json json_nonempty)

lemma metadata_roundtrip:
  "list_all (\<lambda>(k, v). valid_utf8 k \<and> valid_utf8 v) m \<Longrightarrow> decode_metadata (encode_metadata m) = Inr (sorted_metadata m)"
  by (auto simp: encode_metadata_def decode_metadata_def unmarshal_string_map_json json_nonempty
      sorted_metadata_def list_all_iff)

lemma row_roundtrip: "storable_event e \<Longrightarrow> auditEvent_of_row (insertAuditEventSQL e) = Some (norm_event e)"
  by (simp add: auditEvent_of_row_def insertAuditEventSQL_def storable_event_def parseRequired_format
      time_roundtrip names_roundtrip metadata_roundtrip norm_event_def)

lemma audit_events_loop_ok:
  "list_all storable_event es \<Longrightarrow>
     audit_events_loop acc (map insertAuditEventSQL es) = Inr (acc @ map norm_event es)"
  by (induction es arbitrary: acc) (simp_all add: row_roundtrip)

lemma record_events_rows:
  assumes "record_events Record es s = (rs, s')" and "list_all (\<lambda>r. r = None) rs"
  shows "db_audit s' = db_audit s @ map insertAuditEventSQL es \<and> db_tables s' = db_tables s \<and> db_fault s' = db_fault s"
  using assms
  by (induction es arbitrary: s rs) (auto simp: Record_def split: prod.splits if_splits)

section \<open>Properties\<close>

text \<open>
  C29: every certificate the SQLite cache returns was put there under the same key, up to the
  fraction of a second of its dates, and is not yet to be renewed, whatever was done to the
  cache before and whichever statements failed.
\<close>

theorem sqlite_hit_was_put:
  assumes "puts_storable storable_bundle ops" and "cache_inv s" and "cache_view s = Map.empty"
    and "GetValidCertificate now k d
      (fold (perform GetValidCertificate (\<lambda>now k b. PutCertificate now k (Some b))) ops s) = (Inr b, s')"
  shows "d < time_until now (bundleNotAfter b) \<and> (\<exists>b' t. PutOp k b' t \<in> set ops \<and> b = norm_bundle b')"
  by (rule sq.hit_was_put [OF assms])

definition example_db :: db where
  "example_db = \<lparr>db_schema = [schema_migrations_table, certificate_cache_table, audit_events_table], db_indexes = schema_indexes,
     db_migrations = [(1, ''initial_schema'')], db_cache = [], db_audit = [], db_calls = 0, db_fault = (\<lambda>_. False)\<rparr>"

abbreviation sqlite_ops :: "store_op list \<Rightarrow> db \<Rightarrow> db" where
  "sqlite_ops ops s \<equiv> fold (perform GetValidCertificate (\<lambda>now k b. PutCertificate now k (Some b))) ops s"

lemma example_db_empty: "cache_inv example_db" "cache_view example_db = Map.empty"
  by (auto simp: cache_inv_def cache_view_def example_db_def getCertificateCacheSQL_def)

theorem sqlite_hit_was_put_witness:
  "fst (GetValidCertificate 9 example_key Hour (sqlite_ops [PutOp example_key example_bundle 5] example_db))
     = Inr example_bundle
   \<and> Hour < time_until 9 (bundleNotAfter example_bundle)"
proof -
  let ?ops = "[PutOp example_key example_bundle 5]"
  obtain r s' where G: "GetValidCertificate 9 example_key Hour (sqlite_ops ?ops example_db) = (r, s')"
    by (cases "GetValidCertificate 9 example_key Hour (sqlite_ops ?ops example_db)")
  have "fst (GetValidCertificate 9 example_key Hour (sqlite_ops ?ops example_db)) = Inr example_bundle"
    "puts_storable storable_bundle ?ops" by code_simp+
  with G sqlite_hit_was_put [OF _ example_db_empty, of ?ops 9 example_key Hour example_bundle s'] show ?thesis by auto
qed

text \<open>
  C30: after a successful \<^verbatim>\<open>PutCertificate\<close>, looking the key up finds the certificate, its dates cut
  to whole seconds, unless it is to be renewed or the query fails.
\<close>

theorem sqlite_get_after_put:
  assumes "PutCertificate t k (Some b) s = (None, s')" and "storable_bundle t b" and "cache_inv s"
    and "d < time_until now (bundleNotAfter (norm_bundle b))" and "\<not> db_failing ''certificate_cache'' s'"
  shows "fst (GetValidCertificate now k d s') = Inr (norm_bundle b)"
proof -
  obtain r s'' where G: "GetValidCertificate now k d s' = (r, s'')" by (cases "GetValidCertificate now k d s'")
  have "cache_view s' k = Some (norm_bundle b)" using PutCertificate_view [OF assms(1-3)] by auto
  then have "r = Inl ErrCacheMiss \<or> (\<exists>c. r = Inr c)"
    using G assms(5)
    by (auto simp: GetValidCertificate_def readCertificateCacheRow_def cache_view_def split: option.splits if_splits)
  with sq.get_after_put [OF assms(1-3) G assms(4)] G show ?thesis by simp
qed

theorem sqlite_get_after_put_witness:
  "fst (GetValidCertificate 9 example_key Hour (snd (PutCertificate 5 example_key (Some example_bundle) example_db)))
     = Inr (norm_bundle example_bundle)"
proof -
  let ?P = "PutCertificate 5 example_key (Some example_bundle) example_db"
  have ok: "fst ?P = None" "storable_bundle 5 example_bundle"
    "Hour < time_until 9 (bundleNotAfter (norm_bundle example_bundle))"
    "\<not> db_failing ''certificate_cache'' (snd ?P)" by code_simp+
  have "?P = (None, snd ?P)" using ok(1) by (metis prod.collapse)
  from sqlite_get_after_put [OF this ok(2) example_db_empty(1) ok(3,4)] show ?thesis .
qed

text \<open>
  C31: round trip of the audit table. Events recorded without an error on an empty table are
  listed, newest first by their stored time, up to the limit, and equal to what was recorded but
  for fractions of seconds, zero dates and the order of the metadata.
\<close>

theorem sqlite_audit_roundtrip:
  assumes "record_events Record es s = (rs, s')" and "list_all (\<lambda>r. r = None) rs" and "db_audit s = []"
    and "list_all storable_event es" and "0 < limit" and "\<not> db_failing ''audit_events'' s'"
  shows "fst (listAuditEvents limit s') =
    Inr (take (nat limit) (rev (map norm_event (sort_key (\<lambda>e. format_rfc3339 (Timestamp e)) es))))"
proof -
  let ?k = "\<lambda>e. format_rfc3339 (Timestamp e)"
  have rows: "db_audit s' = map insertAuditEventSQL es" using record_events_rows [OF assms(1,2)] assms(3) by simp
  have insort: "insort_key arTimestamp (insertAuditEventSQL e) (map insertAuditEventSQL xs)
      = map insertAuditEventSQL (insort_key ?k e xs)" for e xs
    by (induction xs) (simp_all add: insertAuditEventSQL_def)
  have "sort_key arTimestamp (map insertAuditEventSQL es) = map insertAuditEventSQL (sort_key ?k es)"
    by (induction es) (simp_all add: insort)
  then have "listAuditEventsSQL limit (db_audit s') = map insertAuditEventSQL (take (nat limit) (rev (sort_key ?k es)))"
    by (simp add: listAuditEventsSQL_def rows rev_map take_map)
  moreover have "list_all storable_event (take (nat limit) (rev (sort_key ?k es)))"
    using assms(4) by (auto simp: list_all_iff dest: in_set_takeD)
  ultimately show ?thesis
    using assms(5,6) by (simp add: listAuditEvents_def audit_events_loop_ok take_map rev_map)
qed

theorem sqlite_audit_roundtrip_witness:
  "let es = [example_event, example_event\<lparr>EventID := ''f'', Timestamp := 5000000001\<rparr>]
   in fst (listAuditEvents 1 (snd (record_events Record es example_db)))
     = Inr (take (nat 1) (rev (map norm_event (sort_key (\<lambda>e. format_rfc3339 (Timestamp e)) es))))"
proof -
  let ?es = "[example_event, example_event\<lparr>EventID := ''f'', Timestamp := 5000000001\<rparr>]"
  obtain rs s' where R: "record_events Record ?es example_db = (rs, s')" by (cases "record_events Record ?es example_db")
  have "list_all Option.is_none (fst (record_events Record ?es example_db))" "db_audit example_db = []"
    "list_all storable_event ?es" "\<not> db_failing ''audit_events'' (snd (record_events Record ?es example_db))"
    by code_simp+
  then have "list_all (\<lambda>r. r = None) rs" "db_audit example_db = []" "list_all storable_event ?es" "(0 :: int) < 1"
    "\<not> db_failing ''audit_events'' s'"
    unfolding R by (auto simp: list_all_iff Option.is_none_def)
  from sqlite_audit_roundtrip [OF R this] show ?thesis unfolding R Let_def snd_conv .
qed

section \<open>Migrations\<close>

definition applied :: "db \<Rightarrow> bool" where
  "applied s \<longleftrightarrow> list_ex (\<lambda>(v, n). v = 1) (db_migrations s)"

definition schema_tables :: "string set" where
  "schema_tables = {''schema_migrations'', ''certificate_cache'', ''audit_events''}"

definition schema_ok :: "db \<Rightarrow> bool" where
  "schema_ok s \<longleftrightarrow> (applied s \<longrightarrow> schema_tables \<subseteq> set (db_tables s))"

abbreviation same_rows :: "db \<Rightarrow> db \<Rightarrow> bool" where
  "same_rows s s' \<equiv> db_cache s' = db_cache s \<and> db_audit s' = db_audit s \<and> db_fault s' = db_fault s"

lemma exec_ddl_keeps:
  assumes "exec_ddl c s = Some s'"
  shows "db_migrations s' = db_migrations s \<and> same_rows s s' \<and> db_calls s' = db_calls s
     \<and> set (db_tables s) \<subseteq> set (db_tables s') \<and> (\<forall>t. c = CreateTable t \<longrightarrow> tabName t \<in> set (db_tables s'))"
  using assms by (cases c) (auto split: if_splits option.splits)

lemma exec_script_keeps:
  assumes "exec_script cs s = Some s'"
  shows "db_migrations s' = db_migrations s \<and> same_rows s s' \<and> db_calls s' = db_calls s
     \<and> set (db_tables s) \<subseteq> set (db_tables s') \<and> (\<forall>t. CreateTable t \<in> set cs \<longrightarrow> tabName t \<in> set (db_tables s'))"
  using assms
proof (induction cs arbitrary: s)
  case (Cons c cs)
  then obtain s1 where 1: "exec_ddl c s = Some s1" "exec_script cs s1 = Some s'" by (auto split: option.splits)
  have ddl: "set (db_tables s) \<subseteq> set (db_tables s1)" "\<forall>t. c = CreateTable t \<longrightarrow> tabName t \<in> set (db_tables s1)"
    and rest: "set (db_tables s1) \<subseteq> set (db_tables s')" "\<forall>t. CreateTable t \<in> set cs \<longrightarrow> tabName t \<in> set (db_tables s')"
    using exec_ddl_keeps [OF 1(1)] Cons.IH [OF 1(2)] by blast+
  have "tabName t \<in> set (db_tables s')" if "CreateTable t \<in> set (c # cs)" for t
    using that ddl(2) rest by (metis set_ConsD subsetD)
  then show ?case using exec_ddl_keeps [OF 1(1)] Cons.IH [OF 1(2)] subset_trans [OF ddl(1) rest(1)] by simp
qed simp

lemma db_script_keeps:
  assumes "db_script cs s = (ok, s')"
  shows "db_migrations s' = db_migrations s \<and> same_rows s s' \<and> db_calls s' = Suc (db_calls s) \<and> set (db_tables s) \<subseteq> set (db_tables s')
     \<and> (ok \<longrightarrow> (\<forall>t. CreateTable t \<in> set cs \<longrightarrow> tabName t \<in> set (db_tables s')))"
  using assms exec_script_keeps [of cs "db_tick s"] by (auto simp: db_script_def db_tick_def split: if_splits option.splits)

lemma migrations_loop_ok:
  assumes "migrations_loop sqliteMigrations s = (None, s')" and "schema_ok s"
  shows "applied s' \<and> schema_tables \<subseteq> set (db_tables s') \<and> same_rows s s'
     \<and> (applied s \<longrightarrow> db_schema s' = db_schema s \<and> db_indexes s' = db_indexes s \<and> db_migrations s' = db_migrations s)"
proof (cases "applied s")
  case True
  then show ?thesis
    using assms by (auto simp: sqliteMigrations_def migrationAlreadyApplied_def applied_def schema_ok_def split: if_splits)
next
  case False
  let ?sql = "migSQL (hd sqliteMigrations)"
  obtain ok s1 where 1: "db_script ?sql (db_tick s) = (ok, s1)" by (cases "db_script ?sql (db_tick s)")
  then have "ok" "s' = db_tick s1\<lparr>db_migrations := db_migrations s1 @ [(1, ''initial_schema'')]\<rparr>"
    using assms(1) False by (auto simp: sqliteMigrations_def migrationAlreadyApplied_def applied_def db_exec_def split: if_splits bool.splits)
  moreover have "schema_tables \<subseteq> set (db_tables s1)"
    using db_script_keeps [OF 1] \<open>ok\<close>
    by (auto simp: schema_tables_def sqliteMigrations_def schema_migrations_table_def certificate_cache_table_def audit_events_table_def)
  ultimately show ?thesis using db_script_keeps [OF 1] False by (auto simp: applied_def)
qed

lemma ensure_existing:
  assumes "''schema_migrations'' \<in> set (db_tables s)"
  shows "ensureMigrationTable s = (if db_fault s (db_calls s) then (False, db_tick s) else (True, db_tick s))"
  using assms by (simp add: ensureMigrationTable_def db_script_def schema_migrations_table_def)

text \<open>
  C32: opening the database either fails and leaves it exactly as it was, or leaves it with every
  table and the migration recorded, all existing rows kept; and doing it again changes nothing.
\<close>

theorem migrate_atomic_and_idempotent:
  assumes "schema_ok s"
  shows "case migrate s of
      (Some e, s') \<Rightarrow> s' = s\<lparr>db_calls := db_calls s'\<rparr>
    | (None, s') \<Rightarrow> applied s' \<and> schema_ok s' \<and> schema_tables \<subseteq> set (db_tables s') \<and> same_rows s s'
        \<and> (applied s \<longrightarrow> s' = s\<lparr>db_calls := db_calls s'\<rparr>)"
proof (cases "db_fault s (db_calls s)")
  case True
  then show ?thesis by (simp add: migrate_def db_exec_def db_tick_def)
next
  case False
  obtain ok s1 where E: "ensureMigrationTable (db_tick s) = (ok, s1)" by (cases "ensureMigrationTable (db_tick s)")
  note keep = db_script_keeps [OF E [unfolded ensureMigrationTable_def]]
  obtain e s2 where loop: "migrations_loop sqliteMigrations s1 = (e, s2)" by (cases "migrations_loop sqliteMigrations s1")
  have M: "migrate s = (if \<not> ok then (Some EnsureTableFailed, rollback s s1) else case e of
      Some e \<Rightarrow> (Some e, rollback s s2)
    | None \<Rightarrow> if db_fault s2 (db_calls s2) then (Some CommitFailed, rollback s (db_tick s2)) else (None, db_tick s2))"
    using False E loop by (simp add: migrate_def db_exec_def split: option.splits bool.splits)
  show ?thesis
  proof (cases "ok \<and> e = None")
    case True
    have "schema_ok s1" using assms keep by (auto simp: schema_ok_def applied_def)
    then have loop_ok: "applied s2 \<and> schema_tables \<subseteq> set (db_tables s2) \<and> same_rows s1 s2
        \<and> (applied s1 \<longrightarrow> db_schema s2 = db_schema s1 \<and> db_indexes s2 = db_indexes s1 \<and> db_migrations s2 = db_migrations s1)"
      using migrations_loop_ok loop True by blast
    have "db_tick s2 = s\<lparr>db_calls := db_calls (db_tick s2)\<rparr>" if "applied s"
    proof -
      have "s1 = db_tick (db_tick s)"
        using E True ensure_existing [of "db_tick s"] assms that by (auto simp: schema_ok_def schema_tables_def split: if_splits)
      then show ?thesis using loop_ok that by (intro db.equality) (simp_all add: applied_def db_tick_def)
    qed
    then show ?thesis using loop_ok keep M True by (auto simp: rollback_def schema_ok_def applied_def)
  qed (auto simp: M rollback_def split: option.splits)
qed

theorem migrate_atomic_and_idempotent_witness:
  "fst (migrate (example_db\<lparr>db_schema := [], db_indexes := [], db_migrations := []\<rparr>)) = None
   \<and> schema_tables \<subseteq> set (db_tables (snd (migrate (example_db\<lparr>db_schema := [], db_indexes := [], db_migrations := []\<rparr>))))"
proof -
  let ?d = "example_db\<lparr>db_schema := [], db_indexes := [], db_migrations := []\<rparr>"
  have "schema_ok ?d" "fst (migrate ?d) = None" by code_simp+
  with migrate_atomic_and_idempotent [of ?d] show ?thesis by (auto split: prod.splits option.splits)
qed



end
