(* ===== verification/Serve.thy ===== *)
theory Serve
  imports Broker_Safety Sqlite
begin

text \<open>
  The command \<^verbatim>\<open>certplane-broker\<close>: how \<^verbatim>\<open>cmd/broker\<close> puts the server together from its configuration,
  and the HTTP server around it. The world of the process is the record \<open>world\<close>: what the issuer
  and the configuration reach (\<open>wSys\<close>: disk, environment and, in its extension, the network),
  the database, the clock, the source of identifiers and standard output.
\<close>

section \<open>The world of the broker\<close>

text \<open>
  Two readings of the clock differ by \<open>wSteps\<close>, counted by \<open>wReads\<close>; the clock does not go back.
  \<open>wUlids\<close> are the identifiers drawn, \<open>None\<close> when the random source fails.
\<close>

record 'z world =
  wSys :: "'z sys_scheme"
  wDb :: db
  wClock :: instant
  wSteps :: "nat \<Rightarrow> nat"
  wReads :: nat
  wUlids :: "nat \<Rightarrow> string option"
  wDraws :: nat
  wOut :: string
  wOutFault :: "nat \<Rightarrow> bool"
  wOutCalls :: nat

definition world_now :: "'z world \<Rightarrow> instant \<times> 'z world" where
  "world_now w =
     (let t = wClock w + int (wSteps w (wReads w)) in (t, w\<lparr>wClock := t, wReads := Suc (wReads w)\<rparr>))"

definition world_ulid :: "instant \<Rightarrow> 'z world \<Rightarrow> string option \<times> 'z world" where
  "world_ulid t w = (wUlids w (wDraws w), w\<lparr>wDraws := Suc (wDraws w)\<rparr>)"

definition stdout_write :: "string \<Rightarrow> 'z world \<Rightarrow> bool \<times> 'z world" where
  "stdout_write data w =
     (if wOutFault w (wOutCalls w) then (False, w\<lparr>wOutCalls := Suc (wOutCalls w)\<rparr>)
      else (True, w\<lparr>wOut := wOut w @ data, wOutCalls := Suc (wOutCalls w)\<rparr>))"

definition on_sys :: "('z sys_scheme \<Rightarrow> 'r \<times> 'z sys_scheme) \<Rightarrow> 'z world \<Rightarrow> 'r \<times> 'z world" where
  "on_sys f w = (case f (wSys w) of (r, x) \<Rightarrow> (r, w\<lparr>wSys := x\<rparr>))"

definition on_db :: "(db \<Rightarrow> 'r \<times> db) \<Rightarrow> 'z world \<Rightarrow> 'r \<times> 'z world" where
  "on_db f w = (case f (wDb w) of (r, d) \<Rightarrow> (r, w\<lparr>wDb := d\<rparr>))"

definition timed :: "(instant \<Rightarrow> 'z world \<Rightarrow> 'r \<times> 'z world) \<Rightarrow> 'z world \<Rightarrow> 'r \<times> 'z world" where
  "timed f w = (case world_now w of (now, w) \<Rightarrow> f now w)"

section \<open>The store\<close>

text \<open>\<^verbatim>\<open>WriteAuditEvents\<close> writes to standard output, which is part of the world.\<close>

record 'w broker_store =
  bstStore :: "'w store_iface"
  bstRecord :: "'w recorder"
  bstList :: "'w \<Rightarrow> (store_error, cache_entry list) result \<times> 'w"
  bstWriteAudit :: "int \<Rightarrow> 'w \<Rightarrow> listing_error option \<times> 'w"

definition sqlite_store :: "'z world broker_store" where
  "sqlite_store =
     \<lparr>bstStore = \<lparr>sifGet = (\<lambda>k d. timed (\<lambda>now. on_db (GetValidCertificate now k d))),
                  sifPut = (\<lambda>k b. timed (\<lambda>now. on_db (PutCertificate now k (Some b))))\<rparr>,
      bstRecord = (\<lambda>e. on_db (Record e)),
      bstList = on_db SQLiteStore_List,
      bstWriteAudit = (\<lambda>limit w. case WriteAuditEvents stdout_write limit (wDb w) w of (e, d, w) \<Rightarrow> (e, w\<lparr>wDb := d\<rparr>))\<rparr>"

definition file_store :: "cache_codec \<Rightarrow> string \<Rightarrow> 'z world broker_store" where
  "file_store c path =
     \<lparr>bstStore = \<lparr>sifGet = (\<lambda>k d. timed (\<lambda>now. on_sys (on_os (FileStore_GetValidCertificate c path now k d)))),
                  sifPut = (\<lambda>k b. timed (\<lambda>now. on_sys (on_os (FileStore_PutCertificate c path now k b))))\<rparr>,
      bstRecord = (\<lambda>e. on_sys (on_os (FileStore_Record path e))),
      bstList = on_sys (on_os (FileStore_List c path)),
      bstWriteAudit = (\<lambda>limit w. case FileStore_WriteAuditEvents stdout_write path limit (sysOs (wSys w)) w of
        (e, s, w) \<Rightarrow> (e, w\<lparr>wSys := (wSys w)\<lparr>sysOs := s\<rparr>\<rparr>))\<rparr>"

datatype serve_error =
    ConfigRequired
  | ConfigError config_load_error
  | PolicyLoadError load_error
  | SecretsError provider_error
  | StorePathRequired
  | StoreDirFailed string
  | StoreOpenFailed string
  | MigrateError migrate_error
  | UnknownStoreDriver string
  | AcmeError acme_new_error
  | UnknownIssuer string
  | CABundleUnreadable string
  | CABundleEmpty string
  | ListenFailed

definition NewSQLiteStore :: "string \<Rightarrow> 'z world \<Rightarrow> (serve_error, 'z world broker_store) result \<times> 'z world" where
  "NewSQLiteStore path w =
     (if path = [] then (Inl StorePathRequired, w)
      else let path = Clean path in
        case on_sys (on_os os_call) w of
          (False, w) \<Rightarrow> (Inl (StoreDirFailed path), w)
        | (True, w) \<Rightarrow>
            (case on_db (db_exec (\<lambda>s. s)) w of
               (False, w) \<Rightarrow> (Inl (StoreOpenFailed path), w)
             | (True, w) \<Rightarrow>
                 (case on_db migrate w of
                    (Some e, w) \<Rightarrow> (Inl (MigrateError e), w)
                  | (None, w) \<Rightarrow> (Inr sqlite_store, w))))"

definition openBrokerStore ::
  "cache_codec \<Rightarrow> broker_config \<Rightarrow> 'z world \<Rightarrow> (serve_error, 'z world broker_store) result \<times> 'z world" where
  "openBrokerStore c cfg w =
     (if bcStoreDriver cfg = ''sqlite'' then NewSQLiteStore (bcStorePath cfg) w
      else if bcStoreDriver cfg = ''file'' then (Inr (file_store c (bcStorePath cfg)), w)
      else (Inl (UnknownStoreDriver (bcStoreDriver cfg)), w))"

section \<open>The recorder and the issuer\<close>

definition buildAuditRecorder :: "broker_config \<Rightarrow> 'z world recorder \<Rightarrow> 'z world recorder" where
  "buildAuditRecorder cfg storeRecorder =
     (if \<not> AuditEnabled cfg then DiscardRecorder_Record
      else if auMirrorToLog (bcAudit cfg) then
        MultiRecorder_Record (NewMultiRecorder [Some storeRecorder, Some (JSONLRecorder_Record stdout_write)])
      else storeRecorder)"

definition buildIssuer ::
  "crypto \<Rightarrow> ('c, 'z sys_scheme) lego \<Rightarrow> private_key option \<Rightarrow> broker_config \<Rightarrow> 'z sys_scheme secret_provider
   \<Rightarrow> 'z sys_scheme \<Rightarrow> (serve_error, 'z sys_scheme issuer_iface) result \<times> 'z sys_scheme" where
  "buildIssuer cr lg drawn cfg sec w =
     (if bcIssuerProvider cfg = ''acme'' then
        (case acme_New cr lg drawn (bcACME cfg) (Some sec) w of
           (Inl e, w) \<Rightarrow> (Inl (AcmeError e), w)
         | (Inr i, w) \<Rightarrow> (Inr (acme_iface cr lg i), w))
      else (Inl (UnknownIssuer (bcIssuerProvider cfg)), w))"

text \<open>An issuer that only reaches \<open>wSys\<close>, in the world of the broker.\<close>

definition world_issuer :: "'z sys_scheme issuer_iface \<Rightarrow> 'z world issuer_iface" where
  "world_issuer i = \<lparr>issName = issName i, issDirectory = issDirectory i, issAccountKeyID = issAccountKeyID i,
     issIssue = (\<lambda>req. on_sys (issIssue i req))\<rparr>"

section \<open>The HTTP server\<close>

record http_server =
  hsAddr :: string
  hsMinVersion :: nat
  hsReadHeaderTimeout :: duration
  hsReadTimeout :: duration
  hsWriteTimeout :: duration
  hsIdleTimeout :: duration
  hsVerifyClients :: bool
  hsClientCAs :: string

definition tlsMinVersion :: "string \<Rightarrow> nat" where
  "tlsMinVersion version = (if version = ''1.3'' then 0x0304 else 0x0303)"

text \<open>
  \<open>append_certs\<close> tells whether \<^verbatim>\<open>AppendCertsFromPEM\<close> finds a certificate; the pool is the text it was
  filled from.
\<close>

definition loadCertPool :: "(string \<Rightarrow> bool) \<Rightarrow> string \<Rightarrow> os \<Rightarrow> (serve_error, string) result \<times> os" where
  "loadCertPool append_certs path s =
     (case os_ReadFile path s of
        (Inl _, s) \<Rightarrow> (Inl (CABundleUnreadable path), s)
      | (Inr data, s) \<Rightarrow> (if append_certs data then Inr data else Inl (CABundleEmpty path), s))"

definition HTTPServer :: "(string \<Rightarrow> bool) \<Rightarrow> broker_config \<Rightarrow> os \<Rightarrow> (serve_error, http_server) result \<times> os" where
  "HTTPServer append_certs cfg s =
     (case loadCertPool append_certs (srvAgentCABundle (bcServer cfg)) s of
        (Inl e, s) \<Rightarrow> (Inl e, s)
      | (Inr pool, s) \<Rightarrow>
          (let c = bcServer cfg in
           (Inr \<lparr>hsAddr = srvAddress c, hsMinVersion = tlsMinVersion (tlsMinVersion_cfg (srvTLS c)),
              hsReadHeaderTimeout = srvReadHeaderTimeout c, hsReadTimeout = srvReadTimeout c,
              hsWriteTimeout = srvWriteTimeout c, hsIdleTimeout = srvIdleTimeout c,
              hsVerifyClients = True, hsClientCAs = pool\<rparr>, s)))"

text \<open>
  The routes. \<^verbatim>\<open>ServeMux\<close> answers a known path with another method by 405 and any other path by
  404; a pattern for \<^verbatim>\<open>GET\<close> also matches \<^verbatim>\<open>HEAD\<close>.
\<close>

definition route ::
  "'z world server \<Rightarrow> string \<Rightarrow> string \<Rightarrow> http_request \<Rightarrow> 'z world broker_state \<Rightarrow> http_response \<times> 'z world broker_state" where
  "route s verb path r st =
     (if path = ''/healthz'' \<and> verb \<in> {''GET'', ''HEAD''} then (healthz, st)
      else if path = ''/readyz'' \<and> verb \<in> {''GET'', ''HEAD''} then (readyz s, st)
      else if path = ''/v1/certificates'' \<and> verb = ''POST'' then issueCertificate s r st
      else if path \<in> {''/healthz'', ''/readyz'', ''/v1/certificates''}
      then (\<lparr>respStatus = 405, respBody = ''Method Not Allowed'' @ [CHR 0x0A]\<rparr>, st)
      else (\<lparr>respStatus = 404, respBody = ''404 page not found'' @ [CHR 0x0A]\<rparr>, st))"

text \<open>Up to the point where the server listens.\<close>

definition started_event :: event where
  "started_event = zero_event\<lparr>evType := EventBrokerStarted, evSeverity := SeverityInfo, evDecision := DecisionAllow,
     ReasonCode := ReasonOK\<rparr>"

definition ListenAndServe ::
  "(string \<Rightarrow> bool) \<Rightarrow> 'z world server \<Rightarrow> 'z world broker_state \<Rightarrow> (serve_error, http_server) result \<times> 'z world broker_state" where
  "ListenAndServe append_certs s st =
     (case on_world (on_sys (on_os (HTTPServer append_certs (srvConfig s)))) st of
        (Inl e, st) \<Rightarrow> (Inl e, st)
      | (Inr h, st) \<Rightarrow> (Inr h, snd (on_world (record_event s started_event) st)))"

section \<open>Serving\<close>

text \<open>
  What is third-party or the library's: the decoders, the cryptography, the clients, \<^verbatim>\<open>singleflight\<close>,
  the texts of errors, and the account key that is drawn if there is none.
\<close>

record ('c, 'z) serve_env =
  seCrypto :: crypto
  seURI :: "string \<Rightarrow> bool"
  seConfig :: "string \<Rightarrow> broker_config option"
  sePolicy :: yaml_decoder
  seVault :: "'z sys_scheme vault_api"
  seLego :: "('c, 'z sys_scheme) lego"
  seDrawn :: "private_key option"
  seCodec :: cache_codec
  seAppendCerts :: "string \<Rightarrow> bool"
  seUnmarshal :: "string \<Rightarrow> issue_request option"
  seErrText :: "broker_error \<Rightarrow> string"
  seFlight :: "string \<Rightarrow> ('z world \<Rightarrow> (broker_error, flight_value) result \<times> 'z world) \<Rightarrow> 'z world
    \<Rightarrow> (broker_error, flight_value) result \<times> 'z world"

definition world_env :: "('c, 'z) serve_env \<Rightarrow> 'z world broker_env" where
  "world_env e = \<lparr>envCrypto = seCrypto e, envNow = world_now, envUlid = world_ulid, envUnmarshal = seUnmarshal e,
     envErrText = seErrText e, envFlight = seFlight e\<rparr>"

definition loadBrokerConfig ::
  "('c, 'z) serve_env \<Rightarrow> string \<Rightarrow> 'z world \<Rightarrow> (serve_error, broker_config) result \<times> 'z world" where
  "loadBrokerConfig e path w =
     (if path = [] then (Inl ConfigRequired, w)
      else case on_sys (on_os (LoadBroker (seURI e) (seConfig e) path)) w of
        (Inl err, w) \<Rightarrow> (Inl (ConfigError err), w)
      | (Inr cfg, w) \<Rightarrow> (Inr cfg, w))"

definition build_server ::
  "('c, 'z) serve_env \<Rightarrow> broker_config \<Rightarrow> manager \<Rightarrow> 'z world broker_store \<Rightarrow> 'z sys_scheme issuer_iface
   \<Rightarrow> 'z world server \<times> limiter" where
  "build_server e cfg pm st iss =
     NewServer (world_env e) cfg pm (bstStore st) (world_issuer iss) (Some (buildAuditRecorder cfg (bstRecord st)))"

definition runServe ::
  "('c, 'z) serve_env \<Rightarrow> string \<Rightarrow> 'z world
   \<Rightarrow> (serve_error, 'z world server \<times> http_server \<times> 'z world broker_state) result \<times> 'z world" where
  "runServe e configPath w =
     (case loadBrokerConfig e configPath w of
        (Inl err, w) \<Rightarrow> (Inl err, w)
      | (Inr cfg, w) \<Rightarrow>
     (case timed (\<lambda>now. on_sys (on_os (NewManager (seCrypto e) (sePolicy e) now (bcPolicyPath cfg)))) w of
        (Inl err, w) \<Rightarrow> (Inl (PolicyLoadError err), w)
      | (Inr pm, w) \<Rightarrow>
     (case on_sys (buildSecretsProvider (seVault e) cfg) w of
        (Inl err, w) \<Rightarrow> (Inl (SecretsError err), w)
      | (Inr sec, w) \<Rightarrow>
     (case openBrokerStore (seCodec e) cfg w of
        (Inl err, w) \<Rightarrow> (Inl err, w)
      | (Inr st, w) \<Rightarrow>
     (case on_sys (buildIssuer (seCrypto e) (seLego e) (seDrawn e) cfg sec) w of
        (Inl err, w) \<Rightarrow> (Inl err, w)
      | (Inr iss, w) \<Rightarrow>
     (case build_server e cfg pm st iss of (server, l) \<Rightarrow>
     (case ListenAndServe (seAppendCerts e) server \<lparr>bsLimiter = l, bsWorld = w\<rparr> of
        (Inl err, st) \<Rightarrow> (Inl err, bsWorld st)
      | (Inr h, st) \<Rightarrow> (Inr (server, h, st), bsWorld st))))))))"

end
