(* ===== verification/Serve_Safety.thy ===== *)
theory Serve_Safety
  imports Serve
begin

text \<open>
  The broker as \<^verbatim>\<open>runServe\<close> builds it on the SQLite store and the ACME issuer: it keeps the laws of
  \<open>broker_world\<close>, with the rows of the audit table as the log and the cached certificates together
  with everything the issuer reaches as the backend. The properties of the handler hold for it,
  for every configuration, policy, client library and fault of the database.
\<close>

section \<open>The server in production\<close>

definition production ::
  "('c, 'z) serve_env \<Rightarrow> broker_config \<Rightarrow> manager \<Rightarrow> 'z sys_scheme acme_issuer \<Rightarrow> 'z world server" where
  "production e cfg pm i = fst (build_server e cfg pm sqlite_store (acme_iface (seCrypto e) (seLego e) i))"

abbreviation audit_rows :: "'z world \<Rightarrow> audit_row list" where
  "audit_rows w \<equiv> db_audit (wDb w)"

definition backend_of :: "'z world \<Rightarrow> cache_row list \<times> 'z sys_scheme" where
  "backend_of w = (db_cache (wDb w), wSys w)"

lemma production_simps [simp]:
  "srvEnv (production e cfg pm i) = world_env e" "srvPolicy (production e cfg pm i) = pm"
  "srvConfig (production e cfg pm i) = cfg" "srvStore (production e cfg pm i) = bstStore sqlite_store"
  "srvFailureMode (production e cfg pm i) = auFailureMode (bcAudit cfg)"
  "srvIssuer (production e cfg pm i) = world_issuer (acme_iface (seCrypto e) (seLego e) i)"
  "srvAudit (production e cfg pm i) = Some (buildAuditRecorder cfg (bstRecord sqlite_store))"
  by (simp_all add: production_def build_server_def NewServer_def)

lemma world_env_simps [simp]:
  "envCrypto (world_env e) = seCrypto e" "envNow (world_env e) = world_now" "envUlid (world_env e) = world_ulid"
  "envUnmarshal (world_env e) = seUnmarshal e" "envErrText (world_env e) = seErrText e" "envFlight (world_env e) = seFlight e"
  by (simp_all add: world_env_def)

section \<open>The laws\<close>

lemma world_now_law:
  "world_now w = (t, w') \<Longrightarrow>
     audit_rows w' = audit_rows w \<and> backend_of w' = backend_of w \<and> wClock w \<le> t \<and> t \<le> wClock w'"
  by (auto simp: world_now_def Let_def backend_of_def)

lemma world_now_db: "world_now w = (t, w') \<Longrightarrow> wDb w' = wDb w \<and> wSys w' = wSys w \<and> wClock w \<le> wClock w'"
  by (auto simp: world_now_def Let_def)

lemma Record_outcome:
  assumes "Record ev d = (e, d')"
  shows "db_cache d' = db_cache d \<and> (\<exists>t. db_audit d' = db_audit d @ t)
     \<and> (e = None \<longrightarrow> db_audit d' = db_audit d @ [insertAuditEventSQL ev])"
  using assms by (auto simp: Record_def split: if_splits)

lemma store_record_outcome:
  assumes "bstRecord sqlite_store ev w = (e, w')"
  shows "backend_of w' = backend_of w \<and> wClock w' = wClock w \<and> (\<exists>t. audit_rows w' = audit_rows w @ t)
     \<and> (e = None \<longrightarrow> audit_rows w' = audit_rows w @ [insertAuditEventSQL ev])"
proof -
  obtain r d where d: "Record ev (wDb w) = (r, d)" by (cases "Record ev (wDb w)")
  then have "w' = w\<lparr>wDb := d\<rparr>" "e = r" using assms by (simp_all add: sqlite_store_def on_db_def)
  then show ?thesis using Record_outcome [OF d] by (simp add: backend_of_def)
qed

lemma mirror_outcome:
  assumes "JSONLRecorder_Record stdout_write ev w = (e, w')"
  shows "wDb w' = wDb w \<and> wSys w' = wSys w \<and> wClock w' = wClock w"
  using assms by (auto simp: JSONLRecorder_Record_def stdout_write_def split: option.splits prod.splits if_splits)

lemma recorder_outcome:
  assumes "AuditEnabled cfg" and "buildAuditRecorder cfg (bstRecord sqlite_store) ev w = (e, w')"
  shows "backend_of w' = backend_of w \<and> wClock w \<le> wClock w' \<and> (\<exists>t. audit_rows w' = audit_rows w @ t)
     \<and> (e = None \<longrightarrow> audit_rows w' = audit_rows w @ [insertAuditEventSQL ev])"
proof -
  obtain a w1 where a: "bstRecord sqlite_store ev w = (a, w1)" by (cases "bstRecord sqlite_store ev w")
  obtain b w2 where b: "JSONLRecorder_Record stdout_write ev w1 = (b, w2)" by (cases "JSONLRecorder_Record stdout_write ev w1")
  have m: "MultiRecorder_Record (NewMultiRecorder [Some (bstRecord sqlite_store), Some (JSONLRecorder_Record stdout_write)]) ev w
      = (if a = None \<and> b = None then None else Some (AuditJoined (case a of None \<Rightarrow> (case b of None \<Rightarrow> [] | Some y \<Rightarrow> [y]) | Some x \<Rightarrow> x # (case b of None \<Rightarrow> [] | Some y \<Rightarrow> [y]))), w2)"
    by (cases a; cases b) (simp_all add: MultiRecorder_Record_def NewMultiRecorder_def a b)
  show ?thesis
  proof (cases "auMirrorToLog (bcAudit cfg)")
    case True
    then have "w' = w2" "e = None \<longrightarrow> a = None" using assms m by (auto simp: buildAuditRecorder_def split: if_splits)
    then show ?thesis using store_record_outcome [OF a] mirror_outcome [OF b] by (auto simp: backend_of_def)
  next
    case False
    then have "w' = w1" "e = a" using assms a by (auto simp: buildAuditRecorder_def)
    then show ?thesis using store_record_outcome [OF a] by auto
  qed
qed

lemma store_get_outcome:
  assumes "sifGet (bstStore sqlite_store) k d w = (r, w')"
  obtains now where "GetValidCertificate now k d (wDb w) = (r, wDb w')" and "wSys w' = wSys w"
    and "wClock w \<le> wClock w'" and "audit_rows w' = audit_rows w" and "db_cache (wDb w') = db_cache (wDb w)"
proof -
  obtain now w1 where 1: "world_now w = (now, w1)" by (cases "world_now w")
  obtain x d1 where 2: "GetValidCertificate now k d (wDb w1) = (x, d1)" by (cases "GetValidCertificate now k d (wDb w1)")
  have "w' = w1\<lparr>wDb := d1\<rparr>" "r = x" using assms 1 2 by (simp_all add: sqlite_store_def timed_def on_db_def)
  moreover have "db_cache d1 = db_cache (wDb w1) \<and> db_audit d1 = db_audit (wDb w1)"
    using 2 by (auto simp: GetValidCertificate_def readCertificateCacheRow_def split: if_splits option.splits)
  ultimately show ?thesis using that [of now] world_now_db [OF 1] 2 by simp
qed

lemma store_put_outcome:
  assumes "sifPut (bstStore sqlite_store) k b w = (r, w')"
  obtains now where "PutCertificate now k (Some b) (wDb w) = (r, wDb w')" and "wSys w' = wSys w"
    and "wClock w \<le> wClock w'" and "audit_rows w' = audit_rows w"
proof -
  obtain now w1 where 1: "world_now w = (now, w1)" by (cases "world_now w")
  obtain x d1 where 2: "PutCertificate now k (Some b) (wDb w1) = (x, d1)" by (cases "PutCertificate now k (Some b) (wDb w1)")
  have "w' = w1\<lparr>wDb := d1\<rparr>" "r = x" using assms 1 2 by (simp_all add: sqlite_store_def timed_def on_db_def)
  moreover have "db_audit d1 = db_audit (wDb w1)" using 2 by (auto simp: PutCertificate_def Let_def split: if_splits)
  ultimately show ?thesis using that [of now] world_now_db [OF 1] 2 by simp
qed

lemma world_issue_outcome:
  assumes "issIssue (world_issuer i) req w = (r, w')"
  shows "issIssue i req (wSys w) = (r, wSys w') \<and> wDb w' = wDb w \<and> wClock w' = wClock w"
  using assms by (auto simp: world_issuer_def on_sys_def split: prod.splits)

locale recording =
  fixes e :: "('c, 'z) serve_env" and cfg :: broker_config and pm :: manager and i :: "'z sys_scheme acme_issuer"
  assumes enabled: "AuditEnabled cfg"

sublocale recording \<subseteq> handler_world "production e cfg pm i" audit_rows insertAuditEventSQL backend_of wClock
proof
  show "audit_rows w' = audit_rows w \<and> backend_of w' = backend_of w \<and> wClock w \<le> t \<and> t \<le> wClock w'"
    if "envNow (srvEnv (production e cfg pm i)) w = (t, w')" for w t w'
    using that world_now_law by simp
  show "audit_rows w' = audit_rows w \<and> backend_of w' = backend_of w \<and> wClock w \<le> wClock w'"
    if "envUlid (srvEnv (production e cfg pm i)) t w = (u, w')" for t w u w'
    using that by (auto simp: world_ulid_def backend_of_def)
  show "backend_of w' = backend_of w \<and> wClock w \<le> wClock w' \<and> (\<exists>t. audit_rows w' = audit_rows w @ t)
      \<and> (er = None \<longrightarrow> audit_rows w' = audit_rows w @ [insertAuditEventSQL ev])"
    if "srvAudit (production e cfg pm i) = Some rec" "rec ev w = (er, w')" for rec ev w er w'
    using that recorder_outcome [OF enabled, of ev w er w'] by auto
  show "audit_rows w' = audit_rows w \<and> backend_of w' = backend_of w \<and> wClock w \<le> wClock w'"
    if "sifGet (srvStore (production e cfg pm i)) k d w = (g, w')" for k d w g w'
    using that by (auto simp: backend_of_def elim: store_get_outcome)
  show "audit_rows w' = audit_rows w \<and> wClock w \<le> wClock w'"
    if "sifPut (srvStore (production e cfg pm i)) k b w = (p, w')" for k b w p w'
    using that by (auto elim: store_put_outcome)
  show "audit_rows w' = audit_rows w \<and> wClock w \<le> wClock w'"
    if "issIssue (srvIssuer (production e cfg pm i)) req w = (b, w')" for req w b w'
    using that world_issue_outcome by fastforce
qed

locale serving = recording e cfg pm i
  for e :: "('c, 'z) serve_env" and cfg :: broker_config and pm :: manager and i :: "'z sys_scheme acme_issuer" +
  assumes flights: "singleflight (production e cfg pm i)"

sublocale serving \<subseteq> broker_world "production e cfg pm i" audit_rows insertAuditEventSQL backend_of wClock
  by unfold_locales (rule flights)

text \<open>
  Requests served one at a time, with the audit log on by default: \<^verbatim>\<open>singleflight\<close> then runs every
  function it is given.
\<close>

definition one_at_a_time :: "('c, 'z) serve_env \<Rightarrow> ('c, 'z) serve_env" where
  "one_at_a_time e = e\<lparr>seFlight := (\<lambda>key f w. f w)\<rparr>"

definition audit_default :: "broker_config \<Rightarrow> broker_config" where
  "audit_default cfg = cfg\<lparr>bcAudit := (bcAudit cfg)\<lparr>auEnabled := None\<rparr>\<rparr>"

interpretation alone: serving "one_at_a_time e" "audit_default cfg" pm i for e cfg pm i
  by unfold_locales (simp_all add: AuditEnabled_def audit_default_def singleflight_def one_at_a_time_def)

section \<open>A healthy broker\<close>

text \<open>
  Nothing fails: the statements of the database succeed, cached rows can be read, identifiers are
  drawn and none repeats. \<open>new_id\<close> is the event identifier that a draw leads to.
\<close>

definition new_id :: "'z world \<Rightarrow> nat \<Rightarrow> string" where
  "new_id w n = ''evt_'' @ ToLower (case wUlids w n of Some u \<Rightarrow> u | None \<Rightarrow> [])"

definition recordable :: "'z world \<Rightarrow> bool" where
  "recordable w \<longleftrightarrow>
     (\<forall>n. \<not> db_fault (wDb w) n) \<and> {''certificate_cache'', ''audit_events''} \<subseteq> set (db_tables (wDb w))
     \<and> (\<forall>n. wUlids w n \<noteq> None) \<and> inj (new_id w)
     \<and> (\<forall>r \<in> set (audit_rows w). \<exists>n < wDraws w. arEventID r = new_id w n)"

definition readable :: "'z world \<Rightarrow> bool" where
  "readable w \<longleftrightarrow> (\<forall>k row. getCertificateCacheSQL k (db_cache (wDb w)) = Some row \<longrightarrow> cacheEntry row \<noteq> None)"

text \<open>What recording an event leaves as it was.\<close>

definition same_backend :: "'z world \<Rightarrow> 'z world \<Rightarrow> bool" where
  "same_backend w w' \<longleftrightarrow> recordable w' \<and> wSys w' = wSys w \<and> wClock w \<le> wClock w'
     \<and> db_cache (wDb w') = db_cache (wDb w)"

lemma recordable_same:
  assumes "recordable w" and "db_fault (wDb w') = db_fault (wDb w)" and "db_tables (wDb w') = db_tables (wDb w)"
    and "audit_rows w' = audit_rows w" and "wUlids w' = wUlids w" and "wDraws w' = wDraws w"
  shows "recordable w'"
proof -
  have "new_id w' = new_id w" using assms(5) by (auto simp: new_id_def)
  then show ?thesis using assms by (simp add: recordable_def)
qed

lemma same_backend_trans: "same_backend w w' \<Longrightarrow> same_backend w' w'' \<Longrightarrow> same_backend w w''"
  by (auto simp: same_backend_def)

lemma healthy_now:
  assumes "recordable w" and "world_now w = (t, w')"
  shows "same_backend w w' \<and> wClock w \<le> t \<and> wDb w' = wDb w \<and> wUlids w' = wUlids w \<and> wDraws w' = wDraws w"
proof -
  have "new_id w' = new_id w" using assms(2) by (auto simp: world_now_def Let_def new_id_def)
  then show ?thesis using assms by (auto simp: world_now_def Let_def same_backend_def recordable_def)
qed

lemma healthy_NewID:
  assumes "recordable w" and "NewID (world_env e) p w = (j, w')"
  shows "same_backend w w' \<and> wDb w' = wDb w \<and> wUlids w' = wUlids w \<and> wDraws w' = Suc (wDraws w)
     \<and> (\<exists>u. wUlids w (wDraws w) = Some u \<and> j = Some (p @ ToLower u))"
proof -
  obtain t w1 where 1: "world_now w = (t, w1)" by (cases "world_now w")
  note n = healthy_now [OF assms(1) 1]
  obtain u where u: "wUlids w (wDraws w) = Some u" using assms(1) unfolding recordable_def by (metis not_None_eq)
  then have w': "w' = w1\<lparr>wDraws := Suc (wDraws w)\<rparr>" "j = Some (p @ ToLower u)"
    using assms(2) 1 n by (auto simp: NewID_def world_ulid_def)
  have "new_id w' = new_id w1" using w'(1) by (auto simp: new_id_def)
  moreover have "recordable w1" using n by (simp add: same_backend_def)
  ultimately have "recordable w'" using w'(1) n unfolding recordable_def by (force simp: less_Suc_eq)
  then show ?thesis using n u w' by (auto simp: same_backend_def)
qed

lemma healthy_record:
  assumes "recordable w" and "EventID ev = new_id w n" and "n < wDraws w" and "\<forall>r \<in> set (audit_rows w). arEventID r \<noteq> EventID ev"
    and "RequestID ev \<noteq> []" and cfg: "AuditEnabled cfg" "\<not> auMirrorToLog (bcAudit cfg)"
    and "record_event (production e cfg pm i) ev w = (r, w')"
  shows "r = None \<and> same_backend w w'"
proof -
  obtain ev1 w1 where 1: "normalizeAuditEvent (world_env e) ev w = (ev1, w1)" by (cases "normalizeAuditEvent (world_env e) ev w")
  have id: "EventID ev \<noteq> []" using assms(2) by (simp add: new_id_def)
  have n1: "same_backend w w1 \<and> wDb w1 = wDb w \<and> new_id w1 = new_id w \<and> wDraws w1 = wDraws w \<and> EventID ev1 = EventID ev"
  proof (cases "Timestamp ev = zero_time")
    case True
    obtain t w2 where 2: "world_now w = (t, w2)" by (cases "world_now w")
    then have "w1 = w2" "ev1 = ev\<lparr>Timestamp := t\<rparr>"
      using 1 True id assms(5) by (simp_all add: normalizeAuditEvent_def)
    then show ?thesis using healthy_now [OF assms(1) 2] by (auto simp: new_id_def)
  next
    case False
    then have "w1 = w" "ev1 = ev" using 1 id assms(5) by (simp_all add: normalizeAuditEvent_def)
    then show ?thesis using assms(1) by (simp add: same_backend_def)
  qed
  obtain x d where d: "Record ev1 (wDb w1) = (x, d)" by (cases "Record ev1 (wDb w1)")
  have w': "w' = w1\<lparr>wDb := d\<rparr>" "r = x"
    using assms(8) cfg 1 d by (simp_all add: record_event_def buildAuditRecorder_def sqlite_store_def on_db_def)
  have h1: "recordable w1" using n1 by (simp add: same_backend_def)
  have "\<not> db_failing ''audit_events'' (wDb w1)" using h1 by (simp add: recordable_def db_failing_def)
  moreover have "\<not> list_ex (\<lambda>r. arEventID r = EventID ev1) (db_audit (wDb w1))" using assms(4) n1 by (auto simp: list_ex_iff)
  ultimately have x: "x = None" "d = db_tick (wDb w1)\<lparr>db_audit := db_audit (wDb w1) @ [insertAuditEventSQL ev1]\<rparr>"
    using d by (simp_all add: Record_def)
  have "arEventID (insertAuditEventSQL ev1) = new_id w1 n" using n1 assms(2) by (simp add: insertAuditEventSQL_def)
  moreover have "new_id w' = new_id w1" using w'(1) by (auto simp: new_id_def)
  ultimately have "recordable w'" using h1 n1 assms(3) w'(1) x(2) unfolding recordable_def by auto
  then show ?thesis using n1 w' x by (simp add: same_backend_def)
qed

text \<open>An event that is made and recorded in a healthy world is accepted.\<close>

definition fresh_event :: "'z world \<Rightarrow> event \<Rightarrow> bool" where
  "fresh_event w ev \<longleftrightarrow> (\<exists>n < wDraws w. EventID ev = new_id w n) \<and> (\<forall>r \<in> set (audit_rows w). arEventID r \<noteq> EventID ev)"

lemma healthy_auditEvent:
  assumes "recordable w" and "auditEvent (production e cfg pm i) c typ sev dec reason err w = (ev, w')"
  shows "same_backend w w' \<and> fresh_event w' ev \<and> RequestID ev = cRequestID c"
proof -
  obtain j w1 where 1: "NewID (world_env e) ''evt_'' w = (j, w1)" by (cases "NewID (world_env e) ''evt_'' w")
  note n1 = healthy_NewID [OF assms(1) 1]
  then obtain u where u: "wUlids w (wDraws w) = Some u" "j = Some (''evt_'' @ ToLower u)" by blast
  obtain t w2 where 2: "world_now w1 = (t, w2)" by (cases "world_now w1")
  have "recordable w1" using n1 by (simp add: same_backend_def)
  note n2 = healthy_now [OF this 2]
  have ev: "w' = w2" "EventID ev = new_id w (wDraws w)" "RequestID ev = cRequestID c"
    using assms(2) u
    by (auto simp: auditEvent_def newAuditEvent_def 1 2 Let_def zero_event_def id_or_empty_def new_id_def split: option.splits)
  have ids: "new_id w2 = new_id w" using n1 n2 by (auto simp: new_id_def)
  have "arEventID r \<noteq> new_id w (wDraws w)" if "r \<in> set (audit_rows w)" for r
    using that assms(1) unfolding recordable_def by (metis injD less_irrefl)
  then have "fresh_event w2 ev" using n1 n2 ev ids by (auto simp: fresh_event_def)
  then show ?thesis using n1 n2 ev same_backend_trans by auto
qed

lemma healthy_auditBarrier:
  assumes "recordable w" and "fresh_event w ev" and "RequestID ev \<noteq> []"
    and cfg: "AuditEnabled cfg" "\<not> auMirrorToLog (bcAudit cfg)"
  shows "\<exists>w'. record_event (production e cfg pm i) ev w = (None, w') \<and> auditBarrier (production e cfg pm i) ev w = (None, w')
     \<and> same_backend w w'"
proof -
  obtain r w' where r: "record_event (production e cfg pm i) ev w = (r, w')" by (cases "record_event (production e cfg pm i) ev w")
  obtain n where "n < wDraws w" "EventID ev = new_id w n" using assms(2) by (auto simp: fresh_event_def)
  with assms r have "r = None \<and> same_backend w w'" by (intro healthy_record) (auto simp: fresh_event_def)
  then show ?thesis using r by (simp add: auditBarrier_def)
qed

lemma healthy_note:
  assumes "recordable w" and "cRequestID c \<noteq> []" and cfg: "AuditEnabled cfg" "\<not> auMirrorToLog (bcAudit cfg)"
  shows "same_backend w (audit_note (production e cfg pm i) c typ sev dec reason err w)"
proof -
  obtain ev w1 where 1: "auditEvent (production e cfg pm i) c typ sev dec reason err w = (ev, w1)"
    by (cases "auditEvent (production e cfg pm i) c typ sev dec reason err w")
  note a = healthy_auditEvent [OF assms(1) 1]
  then obtain w2 where "record_event (production e cfg pm i) ev w1 = (None, w2)" "same_backend w1 w2"
    using healthy_auditBarrier [OF _ _ _ cfg, of w1 ev] assms(2) by (metis same_backend_def)
  then show ?thesis using a same_backend_trans by (auto simp: audit_note_def 1)
qed

lemma healthy_get:
  assumes "recordable w" and "readable w"
  shows "(\<exists>b. GetValidCertificate t key d (wDb w) = (Inr b, db_tick (wDb w)))
     \<or> GetValidCertificate t key d (wDb w) = (Inl ErrCacheMiss, db_tick (wDb w))"
proof (cases "getCertificateCacheSQL key (db_cache (wDb w))")
  case None
  then show ?thesis using assms
    by (simp add: GetValidCertificate_def readCertificateCacheRow_def recordable_def db_failing_def)
next
  case (Some row)
  then have "cacheEntry row \<noteq> None" using assms unfolding readable_def by blast
  then obtain entry where "cacheEntry row = Some entry" by blast
  with Some assms show ?thesis
    by (simp add: GetValidCertificate_def readCertificateCacheRow_def recordable_def db_failing_def)
qed

lemma healthy_issueOrLoad:
  assumes "recordable w"
    and "\<exists>b x. acme_Issue (seCrypto e) (seLego e) i
        \<lparr>irProfileName = profName profile, irDNSNames = profDNSNames profile, irCSRPEM = csrPEM,
         irACMEChallenge = Challenge (profACME profile), irACMECredentialsName = Credentials (profACME profile)\<rparr> (wSys w) = (Inr b, x)"
    and "readable w"
  shows "\<exists>issued w'. issueOrLoad (production e cfg pm i) key profile csrPEM w = (Inr issued, w') \<and> recordable w'"
proof -
  let ?req = "\<lparr>irProfileName = profName profile, irDNSNames = profDNSNames profile, irCSRPEM = csrPEM,
         irACMEChallenge = Challenge (profACME profile), irACMECredentialsName = Credentials (profACME profile)\<rparr>"
  let ?s = "production e cfg pm i"
  obtain t w1 where 1: "world_now w = (t, w1)" by (cases "world_now w")
  note n1 = healthy_now [OF assms(1) 1]
  then have h1: "\<not> db_failing ''certificate_cache'' (wDb w1)" "\<forall>n. \<not> db_fault (wDb w) n" using assms(1)
    by (auto simp: recordable_def db_failing_def)
  let ?w1 = "w1\<lparr>wDb := db_tick (wDb w1)\<rparr>"
  consider (hit) b where "GetValidCertificate t key (profRenewBefore profile) (wDb w1) = (Inr b, db_tick (wDb w1))"
    | (miss) "GetValidCertificate t key (profRenewBefore profile) (wDb w1) = (Inl ErrCacheMiss, db_tick (wDb w1))"
    using healthy_get [of w1 t key "profRenewBefore profile"] n1 assms(3) by (auto simp: same_backend_def readable_def)
  then show ?thesis
  proof cases
    case hit
    then have "issueOrLoad ?s key profile csrPEM w = (Inr \<lparr>irBundle = b, irCache = ''hit''\<rparr>, ?w1)"
      by (simp add: issueOrLoad_def sqlite_store_def timed_def on_db_def 1)
    then show ?thesis using recordable_same [of w1 ?w1] n1 by (auto simp: same_backend_def)
  next
    case miss
    obtain b x where b: "acme_Issue (seCrypto e) (seLego e) i ?req (wSys w) = (Inr b, x)" using assms(2) by blast
    let ?w2 = "?w1\<lparr>wSys := x\<rparr>"
    obtain t2 w3 where 3: "world_now ?w2 = (t2, w3)" by (cases "world_now ?w2")
    have w3: "wDb w3 = db_tick (wDb w1)" "wUlids w3 = wUlids w1" "wDraws w3 = wDraws w1"
      using 3 by (auto simp: world_now_def Let_def)
    have "wSys ?w1 = wSys w" using n1 by (simp add: same_backend_def)
    then have iss: "issIssue (srvIssuer ?s) ?req ?w1 = (Inr b, ?w2)"
      using b by (simp add: world_issuer_def acme_iface_def on_sys_def)
    obtain d where d: "PutCertificate t2 key (Some b) (wDb w3) = (None, d)"
      "db_fault d = db_fault (wDb w3)" "db_tables d = db_tables (wDb w3)" "db_audit d = db_audit (wDb w3)"
      using h1 n1 w3(1) by (auto simp: PutCertificate_def Let_def db_failing_def)
    have "issueOrLoad ?s key profile csrPEM w = (Inr \<lparr>irBundle = b, irCache = ''miss''\<rparr>, w3\<lparr>wDb := d\<rparr>)"
      using miss iss d(1)
      by (simp add: issueOrLoad_def sqlite_store_def timed_def on_db_def 1 3)
    moreover have "recordable (w3\<lparr>wDb := d\<rparr>)"
      using recordable_same [of w1 "w3\<lparr>wDb := d\<rparr>"] n1 w3 d by (auto simp: same_backend_def)
    ultimately show ?thesis by blast
  qed
qed

text \<open>The steps of a request that is granted.\<close>

definition auth_time :: "'z world \<Rightarrow> instant" where
  "auth_time w = wClock w + int (wSteps w (wReads w)) + int (wSteps w (Suc (wReads w)))"

lemma healthy_authenticate:
  assumes "recordable (bsWorld st)" and "IdentityFromRequest (fst (world_now (bsWorld st))) (cRequest c) = Inr identity"
    and "cRequestID c \<noteq> []" and cfg: "AuditEnabled cfg" "\<not> auMirrorToLog (bcAudit cfg)"
  shows "\<exists>w'. authenticateIssueRequest (production e cfg pm i) c st = (Inr (c\<lparr>cIdentity := identity\<rparr>), st\<lparr>bsWorld := w'\<rparr>)
     \<and> same_backend (bsWorld st) w'"
proof -
  obtain t w1 where 1: "world_now (bsWorld st) = (t, w1)" by (cases "world_now (bsWorld st)")
  note n = healthy_now [OF assms(1) 1]
  have "same_backend w1 (audit_note (production e cfg pm i) (c\<lparr>cIdentity := identity\<rparr>)
      EventCertificateRequestReceived SeverityInfo DecisionAllow ReasonOK None w1)"
    using n assms(3) cfg by (intro healthy_note) (auto simp: same_backend_def)
  then show ?thesis
    using n assms(2) same_backend_trans by (auto simp: authenticateIssueRequest_def on_world_def 1 Let_def)
qed

lemma granted_checks:
  assumes "granted s r now profile c" and "c0 = (new_context rid r)\<lparr>cIdentity := cIdentity c\<rparr>"
  shows "\<exists>c'. and_then (and_then (parseIssueRequest s c0 st) (authorizeIssueRequest s)) (attachPublicKeyFingerprint s) = (Inr c', st)
     \<and> cRequestID c' = rid \<and> cIdentity c' = cIdentity c \<and> cProfileName c' = cProfileName c
     \<and> cCSRPEM c' = cCSRPEM c \<and> cProfile c' = Some profile"
proof -
  obtain body csr pol where g: "read_body r = Inr body"
    "envUnmarshal (srvEnv s) body = Some \<lparr>iqProfile = cProfileName c, iqCSRPEM = cCSRPEM c\<rparr>"
    "cProfileName c \<noteq> []" "cCSRPEM c \<noteq> []" "ParseCSRPEM (envCrypto (srvEnv s)) (cCSRPEM c) = Inr csr"
    "Current (srvPolicy s) = Some pol" "Authorize pol (cIdentity c) (cProfileName c) (Some csr) = (Some profile, None)"
    "PublicKeyFingerprint (envCrypto (srvEnv s)) (csrPublicKey csr) = Inr (cPublicKeyFP c)"
    using assms(1) by (auto simp: granted_def)
  then show ?thesis
    by (simp add: assms(2) new_context_def and_then_def parseIssueRequest_def authorizeIssueRequest_def
        attachPublicKeyFingerprint_def on_world_def Let_def)
qed

lemma healthy_authorized:
  assumes "recordable (bsWorld st)" and "cRequestID c \<noteq> []" and cfg: "AuditEnabled cfg" "\<not> auMirrorToLog (bcAudit cfg)"
  shows "\<exists>w'. recordAuthorizedIssue (production e cfg pm i) c st = (Inr c, st\<lparr>bsWorld := w'\<rparr>) \<and> same_backend (bsWorld st) w'"
proof -
  let ?s = "production e cfg pm i"
  let ?A = "auditEvent ?s c EventCertificateAuthorized SeverityInfo DecisionAllow ReasonOK None (bsWorld st)"
  obtain ev w1 where 1: "?A = (ev, w1)" by (cases ?A)
  note a = healthy_auditEvent [OF assms(1) 1]
  then obtain w2 where "auditBarrier ?s ev w1 = (None, w2)" "same_backend w1 w2"
    using healthy_auditBarrier [OF _ _ _ cfg, of w1 ev] assms(2) by (metis same_backend_def)
  then show ?thesis using a same_backend_trans by (auto simp: recordAuthorizedIssue_def on_world_def 1)
qed

lemma healthy_rate:
  assumes "recordable (bsWorld st)" and "\<forall>t \<ge> wClock (bsWorld st). fst (Allow t (cIdentity c) (cProfileName c) (bsLimiter st)) = None"
  shows "\<exists>st'. checkIssueRateLimit (production e cfg pm i) c st = (Inr c, st') \<and> same_backend (bsWorld st) (bsWorld st')"
proof -
  obtain t w1 where 1: "world_now (bsWorld st) = (t, w1)" by (cases "world_now (bsWorld st)")
  note n = healthy_now [OF assms(1) 1]
  then have "fst (Allow t (cIdentity c) (cProfileName c) (bsLimiter st)) = None" using assms(2) by blast
  then obtain l where "Allow t (cIdentity c) (cProfileName c) (bsLimiter st) = (None, l)" by (metis prod.collapse)
  then show ?thesis using n by (simp add: checkIssueRateLimit_def on_world_def 1)
qed

lemma healthy_issued:
  assumes "recordable (bsWorld st)" and "cRequestID c \<noteq> []" and cfg: "AuditEnabled cfg" "\<not> auMirrorToLog (bcAudit cfg)"
  shows "\<exists>st'. recordIssuedResult (production e cfg pm i) c issued st = (Inr (), st')"
proof -
  let ?s = "production e cfg pm i"
  let ?kind = "if irCache issued = ''hit'' then EventCertificateCacheHit else EventCertificateIssued"
  let ?dec = "if irCache issued = ''hit'' then DecisionCacheHit else DecisionIssue"
  let ?rea = "if irCache issued = ''hit'' then ReasonCacheHit else ReasonCacheMiss"
  let ?A = "auditEvent ?s c ?kind SeverityInfo ?dec ?rea None (bsWorld st)"
  obtain ev1 w1 where 1: "?A = (ev1, w1)" by (cases ?A)
  note a = healthy_auditEvent [OF assms(1) 1]
  obtain ev where ev: "issuedEvent ?s c issued (bsWorld st) = (ev, w1)" "EventID ev = EventID ev1" "RequestID ev = RequestID ev1"
    by (simp add: issuedEvent_def Let_def 1)
  then have "fresh_event w1 ev" using a by (simp add: fresh_event_def)
  then obtain w2 where "auditBarrier ?s ev w1 = (None, w2)"
    using healthy_auditBarrier [OF _ _ _ cfg, of w1 ev] a assms(2) ev(3) by (metis same_backend_def)
  then show ?thesis using ev by (simp add: recordIssuedResult_def on_world_def)
qed

lemma healthy_admit:
  assumes "recordable (bsWorld st)" and "IdentityFromRequest (fst (world_now (bsWorld st))) r = Inr (cIdentity c)"
    and "granted (production e cfg pm i) r now profile c" and "rid \<noteq> []"
    and "\<forall>t \<ge> wClock (bsWorld st). fst (Allow t (cIdentity c) (cProfileName c) (bsLimiter st)) = None"
    and cfg: "AuditEnabled cfg" "\<not> auMirrorToLog (bcAudit cfg)"
  shows "\<exists>c' st'. admit (production e cfg pm i) (new_context rid r) st = (Inr c', st')
     \<and> same_backend (bsWorld st) (bsWorld st') \<and> cRequestID c' = rid \<and> cCSRPEM c' = cCSRPEM c \<and> cProfile c' = Some profile"
proof -
  let ?s = "production e cfg pm i" and ?c0 = "(new_context rid r)\<lparr>cIdentity := cIdentity c\<rparr>"
  obtain w1 where 1: "authenticateIssueRequest ?s (new_context rid r) st = (Inr ?c0, st\<lparr>bsWorld := w1\<rparr>)" "same_backend (bsWorld st) w1"
    using healthy_authenticate [OF assms(1) _ _ cfg, of "new_context rid r" "cIdentity c" e pm i] assms(2,4)
    by (auto simp: new_context_def)
  obtain c' where 2: "and_then (and_then (parseIssueRequest ?s ?c0 (st\<lparr>bsWorld := w1\<rparr>)) (authorizeIssueRequest ?s))
      (attachPublicKeyFingerprint ?s) = (Inr c', st\<lparr>bsWorld := w1\<rparr>)"
    "cRequestID c' = rid" "cIdentity c' = cIdentity c" "cProfileName c' = cProfileName c" "cCSRPEM c' = cCSRPEM c" "cProfile c' = Some profile"
    using granted_checks [OF assms(3) refl] by blast
  have "recordable w1" "wClock (bsWorld st) \<le> wClock w1" using 1(2) by (auto simp: same_backend_def)
  then obtain w2 where 3: "recordAuthorizedIssue ?s c' (st\<lparr>bsWorld := w1\<rparr>) = (Inr c', st\<lparr>bsWorld := w2\<rparr>)" "same_backend w1 w2"
    using healthy_authorized [of "st\<lparr>bsWorld := w1\<rparr>" c' cfg e pm i, OF _ _ cfg] assms(4) 2(2) by auto
  have "recordable w2" "wClock (bsWorld st) \<le> wClock w2" using 1(2) 3(2) by (auto simp: same_backend_def)
  then obtain st' where 4: "checkIssueRateLimit ?s c' (st\<lparr>bsWorld := w2\<rparr>) = (Inr c', st')" "same_backend w2 (bsWorld st')"
    using healthy_rate [of "st\<lparr>bsWorld := w2\<rparr>" c' e cfg pm i] assms(5) 2(3,4) by auto
  have "admit ?s (new_context rid r) st = (Inr c', st')"
    using 1(1) 2(1) 3(1) 4(1) by (simp add: admit_def and_then_def)
  then show ?thesis using 1(2) 2 3(2) 4(2) same_backend_trans by blast
qed

abbreviation order_for :: "compiled_profile \<Rightarrow> string \<Rightarrow> issuer_request" where
  "order_for profile csrPEM \<equiv>
     \<lparr>irProfileName = profName profile, irDNSNames = profDNSNames profile, irCSRPEM = csrPEM,
      irACMEChallenge = Challenge (profACME profile), irACMECredentialsName = Credentials (profACME profile)\<rparr>"

lemma healthy_fulfil:
  assumes "recordable (bsWorld st)" and "readable (bsWorld st)" and "cRequestID c \<noteq> []" and "cProfile c = Some profile"
    and "\<exists>b x. acme_Issue (seCrypto e) (seLego e) i (order_for profile (cCSRPEM c)) (wSys (bsWorld st)) = (Inr b, x)"
    and "seFlight e = (\<lambda>key f w. f w)" and cfg: "AuditEnabled cfg" "\<not> auMirrorToLog (bcAudit cfg)"
  shows "is_ok (fst (fulfil (production e cfg pm i) c st))"
proof -
  let ?s = "production e cfg pm i" and ?key = "request_key (production e cfg pm i) c profile"
  obtain issued w1 where 1: "issueOrLoad ?s ?key profile (cCSRPEM c) (bsWorld st) = (Inr issued, w1)" "recordable w1"
    using healthy_issueOrLoad [OF assms(1,5,2)] by blast
  then have "issueOrLoadWithSingleflight ?s c profile ?key st = (Inr issued, st\<lparr>bsWorld := w1\<rparr>)"
    using assms(6) by (simp add: issueOrLoadWithSingleflight_def on_world_def flight_call_def)
  moreover obtain st' where "recordIssuedResult ?s c issued (st\<lparr>bsWorld := w1\<rparr>) = (Inr (), st')"
    using healthy_issued [of "st\<lparr>bsWorld := w1\<rparr>" c cfg e pm i issued, OF _ _ cfg] 1(2) assms(3) by auto
  ultimately show ?thesis by (simp add: fulfil_def Let_def assms(4) and_then_def is_ok_def)
qed

lemma healthy_served:
  assumes "recordable (bsWorld st)" and "readable (bsWorld st)"
    and "granted (production e cfg pm i) r (auth_time (bsWorld st)) profile c"
    and "\<forall>t \<ge> wClock (bsWorld st). fst (Allow t (cIdentity c) (cProfileName c) (bsLimiter st)) = None"
    and "\<exists>b x. acme_Issue (seCrypto e) (seLego e) i (order_for profile (cCSRPEM c)) (wSys (bsWorld st)) = (Inr b, x)"
    and "seFlight e = (\<lambda>key f w. f w)" and cfg: "AuditEnabled cfg" "\<not> auMirrorToLog (bcAudit cfg)"
  shows "respStatus (fst (issueCertificate (production e cfg pm i) r st)) = 200"
proof -
  let ?s = "production e cfg pm i"
  obtain j w1 where 1: "NewID (world_env e) ''req_'' (bsWorld st) = (j, w1)" by (cases "NewID (world_env e) ''req_'' (bsWorld st)")
  note n = healthy_NewID [OF assms(1) 1]
  then obtain rid where rid: "j = Some rid" "rid \<noteq> []" by auto
  have w1: "wClock w1 = wClock (bsWorld st) + int (wSteps (bsWorld st) (wReads (bsWorld st)))"
    "wSteps w1 = wSteps (bsWorld st)" "wReads w1 = Suc (wReads (bsWorld st))"
    using 1 by (auto simp: NewID_def world_now_def world_ulid_def Let_def split: option.splits)
  have "fst (world_now w1) = auth_time (bsWorld st)" by (simp add: world_now_def Let_def auth_time_def w1)
  then have auth: "IdentityFromRequest (fst (world_now w1)) r = Inr (cIdentity c)" using assms(3) by (simp add: granted_def)
  let ?st = "st\<lparr>bsWorld := w1\<rparr>"
  obtain c' st' where a: "admit ?s (new_context rid r) ?st = (Inr c', st')" "same_backend w1 (bsWorld st')"
    "cRequestID c' = rid" "cCSRPEM c' = cCSRPEM c" "cProfile c' = Some profile"
    using healthy_admit [OF _ _ assms(3) rid(2) _ cfg, of ?st] n auth assms(4) by (auto simp: same_backend_def)
  have b: "recordable (bsWorld st')" "readable (bsWorld st')" "wSys (bsWorld st') = wSys (bsWorld st)"
    using n a(2) assms(2) by (auto simp: same_backend_def readable_def)
  have "is_ok (fst (fulfil ?s c' st'))"
    using healthy_fulfil [OF b(1,2) _ a(5) _ assms(6) cfg] rid(2) a(3,4) b(3) assms(5) by auto
  then show ?thesis
    using 1 rid(1) a(1)
    by (auto simp: issueCertificate_def on_world_def and_then_def is_ok_def writeJSON_def split: prod.splits sum.splits)
qed

section \<open>An example\<close>

text \<open>A broker with one host and one profile, and a request that it grants.\<close>

definition example_profile :: compiled_profile where
  "example_profile = \<lparr>profName = ''web'', profType = ''acme'', profDNSNames = [''a.example.com''],
     profACME = \<lparr>Challenge = ''dns-01'', Credentials = ''CF_TOKEN''\<rparr>, profRenewBefore = 30 * 24 * Hour, profHash = ''p1''\<rparr>"

definition example_host :: compiled_host where
  "example_host = \<lparr>hostName = ''h'', hostIdentity = ''host-1'', hostProfiles = NewProfileSet [''web'']\<rparr>"

definition example_manager :: manager where
  "example_manager = \<lparr>mgrPath = ''policy.yaml'', mgrCurrent = Some \<lparr>polVersion = 1, polProfiles = [(''web'', example_profile)],
     HostsByName = [(''h'', example_host)], HostsByIdentity = [(''host-1'', example_host)], polHash = ''p'', LoadedAt = 0\<rparr>\<rparr>"

definition example_env :: "(nat, unit) serve_env" where
  "example_env = \<lparr>seCrypto = example_crypto, seURI = (\<lambda>u. u \<noteq> []), seConfig = (\<lambda>_. Some example_broker_config),
     sePolicy = (\<lambda>_. None), seVault = example_vault_api, seLego = example_lego, seDrawn = Some ''key'',
     seCodec = example_codec, seAppendCerts = (\<lambda>_. True),
     seUnmarshal = (\<lambda>_. Some \<lparr>iqProfile = ''web'', iqCSRPEM = ''CERTIFICATE REQUEST:req''\<rparr>),
     seErrText = (\<lambda>_. ''error''), seFlight = (\<lambda>key f w. f w)\<rparr>"

definition example_http_request :: http_request where
  "example_http_request = \<lparr>reqTLS = Some [Some example_certificate], reqBody = ''body'', reqBodyError = False,
     reqRemoteAddr = ''10.0.0.1:4242'', reqUserAgent = ''agent''\<rparr>"

definition example_world :: "unit world" where
  "example_world = \<lparr>wSys = secret_sys, wDb = example_db, wClock = 24 * Hour, wSteps = (\<lambda>_. 0), wReads = 0,
     wUlids = (\<lambda>n. Some (replicate n (CHR ''a''))), wDraws = 0, wOut = [], wOutFault = (\<lambda>_. False), wOutCalls = 0\<rparr>"

definition example_state :: "unit world broker_state" where
  "example_state = \<lparr>bsLimiter = New 50 3, bsWorld = example_world\<rparr>"

text \<open>Of the configuration, the server reads the failure mode and the issuer the DNS provider.\<close>

definition small_config :: broker_config where
  "small_config =
     \<lparr>bcServer = \<lparr>srvAddress = [], srvTLS = \<lparr>tlsCert = [], tlsKey = [], tlsMinVersion_cfg = []\<rparr>,
        srvAgentCABundle = [], srvReadHeaderTimeout = 0, srvReadTimeout = 0, srvWriteTimeout = 0, srvIdleTimeout = 0\<rparr>,
      bcPolicyPath = [], bcPolicyWatch = True, bcIssuerProvider = [],
      bcACME = \<lparr>acDirectoryURL = ''d'', acAccountEmail = ''e'', acAccountKey = [], acDNSProvider = ''cloudflare'', acPreferredChain = [],
        acHTTPReq = \<lparr>hrEndpoint = [], hrMode = [], hrUsernameSecret = [], hrPasswordSecret = [], hrPropagationTimeout = 0,
          hrPollingInterval = 0, hrHTTPTimeout = 0, hrRecursiveNameservers = []\<rparr>\<rparr>,
      bcSecretsProvider = [], bcVault = \<lparr>vaAddress = [], vaToken = [], vaTokenFile = [], vaMountPath = [],
        vaKVVersion = 0, vaKey = [], vaTimeout = 0, vaNamespace = []\<rparr>,
      bcStoreDriver = [], bcStorePath = [], bcAudit = \<lparr>auEnabled = None, auFailureMode = ''fail_closed'', auMirrorToLog = False\<rparr>,
      bcPerIdentityPerHour = 50, bcPerIdentityProfilePerHour = 3, bcLogging = \<lparr>logLevel = [], logFormat = [], logDestination = []\<rparr>\<rparr>"

definition small_acme :: "sys acme_issuer" where
  "small_acme = \<lparr>aiCfg = bcACME small_config, aiSecrets = Some env_Get,
     aiUser = \<lparr>userEmail = ''e'', userRegistration = None, userKey = ''key''\<rparr>\<rparr>"

definition example_server :: "unit world server" where
  "example_server = production example_env small_config example_manager small_acme"

text \<open>The context of the request once it is granted.\<close>

definition example_context :: request_context where
  "example_context = \<lparr>cRequestID = ''req_0'', cRequest = example_http_request, cIdentity = ''host-1'', cProfileName = ''web'',
     cPolicy = mgrCurrent example_manager, cProfile = Some example_profile, cCSR = Some example_request,
     cCSRPEM = ''CERTIFICATE REQUEST:req'', cPublicKeyFP = hex_encode ''pub''\<rparr>"

lemma example_Authorize:
  "Authorize (the (mgrCurrent example_manager)) ''host-1'' ''web'' (Some example_request) = (Some example_profile, None)"
  by code_simp

lemma example_ParseCSR: "ParseCSRPEM example_crypto ''CERTIFICATE REQUEST:req'' = Inr example_request"
  by code_simp

lemma example_granted: "granted example_server example_http_request (auth_time example_world) example_profile example_context"
proof -
  have "IdentityFromRequest (auth_time example_world) example_http_request = Inr ''host-1''"
    by code_simp
  moreover have "read_body example_http_request = Inr ''body''" by code_simp
  moreover have "PublicKeyFingerprint example_crypto (csrPublicKey example_request) = Inr (hex_encode ''pub'')"
    by (simp add: PublicKeyFingerprint_def example_crypto_def example_request_def)
  ultimately show ?thesis
    using example_Authorize example_ParseCSR
    by (simp add: granted_def example_context_def example_server_def example_env_def Current_def example_manager_def)
qed

lemma example_recordable: "recordable example_world" "readable example_world"
proof -
  have "ToLower (replicate n (CHR ''a'')) = replicate n (CHR ''a'')" for n
    by (simp add: ToLower_ascii is_ascii_def lower_byte_def list_all_iff)
  then have "new_id example_world = (\<lambda>n. ''evt_'' @ replicate n (CHR ''a''))"
    by (auto simp: new_id_def example_world_def)
  moreover have "inj (\<lambda>n. ''evt_'' @ replicate n (CHR ''a''))" by (rule injI) (simp add: replicate_eq_replicate)
  ultimately show "recordable example_world"
    by (simp add: recordable_def example_world_def example_db_def certificate_cache_table_def audit_events_table_def)
  show "readable example_world" by (simp add: readable_def example_world_def example_db_def getCertificateCacheSQL_def)
qed

lemma New_allows:
  assumes "0 \<noteq> a" "0 \<noteq> b"
  shows "fst (Allow t identity profile (New a b)) = None"
  using assms by (auto simp: Allow_def New_def Let_def prune_filter sd.get_put)

lemma example_issues:
  "\<exists>b x. acme_Issue example_crypto example_lego small_acme (order_for example_profile ''CERTIFICATE REQUEST:req'') secret_sys = (Inr b, x)"
proof -
  have "is_ok (fst (acme_Issue example_crypto example_lego small_acme (order_for example_profile ''CERTIFICATE REQUEST:req'') secret_sys))"
    by code_simp
  then show ?thesis by (auto simp: is_ok_def split: sum.splits) (metis prod.collapse)
qed

lemma example_audits: "AuditEnabled small_config" "\<not> auMirrorToLog (bcAudit small_config)"
  by (simp_all add: AuditEnabled_def small_config_def)

lemma example_singleflight: "singleflight example_server"
  by (simp add: singleflight_def example_server_def example_env_def)

lemma example_healthy:
  "recordable (bsWorld example_state)" "readable (bsWorld example_state)"
  "granted (production example_env small_config example_manager small_acme) example_http_request
      (auth_time (bsWorld example_state)) example_profile example_context"
  "\<forall>t \<ge> wClock (bsWorld example_state).
      fst (Allow t (cIdentity example_context) (cProfileName example_context) (bsLimiter example_state)) = None"
  "\<exists>b x. acme_Issue (seCrypto example_env) (seLego example_env) small_acme
      (order_for example_profile (cCSRPEM example_context)) (wSys (bsWorld example_state)) = (Inr b, x)"
  "seFlight example_env = (\<lambda>key f w. f w)"
proof -
  show "recordable (bsWorld example_state)" "readable (bsWorld example_state)"
    using example_recordable by (simp_all add: example_state_def)
  show "granted (production example_env small_config example_manager small_acme) example_http_request
      (auth_time (bsWorld example_state)) example_profile example_context"
    using example_granted by (simp add: example_state_def example_server_def)
  show "\<forall>t \<ge> wClock (bsWorld example_state).
      fst (Allow t (cIdentity example_context) (cProfileName example_context) (bsLimiter example_state)) = None"
    by (simp add: New_allows example_state_def)
  show "\<exists>b x. acme_Issue (seCrypto example_env) (seLego example_env) small_acme
      (order_for example_profile (cCSRPEM example_context)) (wSys (bsWorld example_state)) = (Inr b, x)"
    using example_issues by (simp add: example_env_def example_context_def example_state_def example_world_def)
  show "seFlight example_env = (\<lambda>key f w. f w)" by (simp add: example_env_def)
qed

lemma example_closed: "auFailureMode (bcAudit small_config) = ''fail_closed''"
  by (simp add: small_config_def)

lemma example_served: "respStatus (fst (issueCertificate example_server example_http_request example_state)) = 200"
  unfolding example_server_def by (rule healthy_served [OF example_healthy example_audits])

section \<open>What the handler guarantees in production\<close>

text \<open>The result that a response carries: from the cache, or from the issuer and then put in the cache.\<close>

definition from_cache :: "cache_key \<Rightarrow> compiled_profile \<Rightarrow> cert_bundle \<Rightarrow> bool" where
  "from_cache key profile b \<longleftrightarrow>
     (\<exists>d now. cache_view d key = Some b \<and> profRenewBefore profile < time_until now (bundleNotAfter b))"

definition from_issuer ::
  "('c, 'z) serve_env \<Rightarrow> 'z sys_scheme acme_issuer \<Rightarrow> compiled_profile \<Rightarrow> string \<Rightarrow> cert_bundle \<Rightarrow> bool" where
  "from_issuer e i profile csrPEM b \<longleftrightarrow>
     (\<exists>x x'. acme_Issue (seCrypto e) (seLego e) i (order_for profile csrPEM) x = (Inr b, x'))"

lemma from_issuer_consistent: "from_issuer e i profile csrPEM b \<Longrightarrow> consistent_bundle (seCrypto e) b"
  unfolding from_issuer_def by (elim exE) (rule acme.issued_consistent)

lemma issueOrLoad_source:
  assumes "issueOrLoad (production e cfg pm i) key profile csrPEM w = (Inr issued, w')"
  shows "irCache issued = ''hit'' \<and> from_cache key profile (irBundle issued)
     \<or> irCache issued = ''miss'' \<and> from_issuer e i profile csrPEM (irBundle issued)"
proof -
  let ?s = "production e cfg pm i"
  obtain g w1 where 1: "sifGet (srvStore ?s) key (profRenewBefore profile) w = (g, w1)"
    by (cases "sifGet (srvStore ?s) key (profRenewBefore profile) w")
  show ?thesis
  proof (cases g)
    case (Inr b)
    then have "issued = \<lparr>irBundle = b, irCache = ''hit''\<rparr>" using assms 1 by (simp add: issueOrLoad_def)
    moreover obtain now where "GetValidCertificate now key (profRenewBefore profile) (wDb w) = (Inr b, wDb w1)"
      using 1 Inr by (auto elim: store_get_outcome)
    ultimately show ?thesis using sq.get_hit unfolding from_cache_def by fastforce
  next
    case (Inl err)
    then have "err = ErrCacheMiss" using assms 1 by (auto simp: issueOrLoad_def split: if_splits)
    let ?I = "issIssue (srvIssuer ?s) (order_for profile csrPEM) w1"
    obtain b w2 where 2: "?I = (b, w2)" by (cases ?I)
    have "\<exists>bdl. b = Inr bdl \<and> issued = \<lparr>irBundle = bdl, irCache = ''miss''\<rparr>"
      using assms 1 2 Inl \<open>err = ErrCacheMiss\<close> by (auto simp: issueOrLoad_def split: sum.splits prod.splits option.splits)
    then obtain bdl where b: "b = Inr bdl" "issued = \<lparr>irBundle = bdl, irCache = ''miss''\<rparr>" by blast
    have "acme_Issue (seCrypto e) (seLego e) i (order_for profile csrPEM) (wSys w1) = (Inr bdl, wSys w2)"
      using world_issue_outcome [of "acme_iface (seCrypto e) (seLego e) i"] 2 b(1) by (simp add: acme_iface_def)
    then show ?thesis using b(2) unfolding from_issuer_def by auto
  qed
qed

context serving
begin

lemma served_cases:
  assumes "issueCertificate (production e cfg pm i) r st = (resp, st')"
    and "respStatus resp = 200 \<or> backend_of (bsWorld st') \<noteq> backend_of (bsWorld st)"
  obtains c profile where "served r resp c profile st st'"
  using issueCertificate_outcome [OF assms(1)] assms(2) by (auto simp: refused_def noted_def)

lemma must_audit_production [simp]:
  "must_audit (production e cfg pm i) \<longleftrightarrow> auFailureMode (bcAudit cfg) = ''fail_closed''"
  by (simp add: must_audit_def)

lemma grant:
  assumes "issueCertificate (production e cfg pm i) r st = (resp, st')"
    and "respStatus resp = 200 \<or> backend_of (bsWorld st') \<noteq> backend_of (bsWorld st)"
  shows "\<exists>now t profile c. granted (production e cfg pm i) r now profile c
     \<and> Allow t (cIdentity c) (cProfileName c) (bsLimiter st) = (None, bsLimiter st')
     \<and> (auFailureMode (bcAudit cfg) = ''fail_closed'' \<longrightarrow>
          (\<exists>t1 ev t2. event_about c EventCertificateAuthorized ev
             \<and> audit_rows (bsWorld st') = audit_rows (bsWorld st) @ t1 @ [insertAuditEventSQL ev] @ t2))"
  using assms by (rule served_cases) (simp add: served_def rate_checked_def authorized_in_log_def, blast)

lemma served_200:
  assumes "issueCertificate (production e cfg pm i) r st = (resp, st')" and "respStatus resp = 200"
  obtains c profile issued where "served r resp c profile st st'"
    and "resp = writeJSON 200 (issue_response_json (newIssueResponse issued))"
    and "obtained (production e cfg pm i) (request_key (production e cfg pm i) c profile) issued"
    and "auFailureMode (bcAudit cfg) = ''fail_closed'' \<longrightarrow>
      (\<exists>t1 ev1 t2 ev2. event_about c EventCertificateAuthorized ev1 \<and> result_event c issued ev2
         \<and> audit_rows (bsWorld st') = audit_rows (bsWorld st) @ t1 @ [insertAuditEventSQL ev1] @ t2 @ [insertAuditEventSQL ev2])"
proof -
  obtain c profile where sv: "served r resp c profile st st'" using served_cases [OF assms(1)] assms(2) by blast
  then have "\<not> respStatus resp \<in> {502, 503}" using assms(2) by simp
  with sv show ?thesis using that unfolding served_def must_audit_production by blast
qed

lemma audited:
  assumes "issueCertificate (production e cfg pm i) r st = (resp, st')" and "respStatus resp = 200"
    and "auFailureMode (bcAudit cfg) = ''fail_closed''"
  shows "\<exists>now profile c issued t1 ev1 t2 ev2. granted (production e cfg pm i) r now profile c
     \<and> resp = writeJSON 200 (issue_response_json (newIssueResponse issued))
     \<and> event_about c EventCertificateAuthorized ev1 \<and> result_event c issued ev2
     \<and> audit_rows (bsWorld st') = audit_rows (bsWorld st) @ t1 @ [insertAuditEventSQL ev1] @ t2 @ [insertAuditEventSQL ev2]"
  using assms(1,2)
proof (rule served_200)
  fix c profile issued
  assume sv: "served r resp c profile st st'" and resp: "resp = writeJSON 200 (issue_response_json (newIssueResponse issued))"
    and log: "auFailureMode (bcAudit cfg) = ''fail_closed'' \<longrightarrow>
      (\<exists>t1 ev1 t2 ev2. event_about c EventCertificateAuthorized ev1 \<and> result_event c issued ev2
         \<and> audit_rows (bsWorld st') = audit_rows (bsWorld st) @ t1 @ [insertAuditEventSQL ev1] @ t2 @ [insertAuditEventSQL ev2])"
  obtain now where "granted (production e cfg pm i) r now profile c" using sv unfolding served_def by blast
  with resp log assms(3) show ?thesis by blast
qed

lemma source:
  assumes "issueCertificate (production e cfg pm i) r st = (resp, st')" and "respStatus resp = 200"
  shows "\<exists>now profile c issued key profile' csrPEM. granted (production e cfg pm i) r now profile c
     \<and> resp = writeJSON 200 (issue_response_json (newIssueResponse issued))
     \<and> CertificateCacheKey_String key = CertificateCacheKey_String (request_key (production e cfg pm i) c profile)
     \<and> (nul_free key \<and> nul_free (request_key (production e cfg pm i) c profile)
          \<longrightarrow> key = request_key (production e cfg pm i) c profile)
     \<and> (irCache issued = ''hit'' \<and> from_cache key profile' (irBundle issued)
        \<or> irCache issued = ''miss'' \<and> from_issuer e i profile' csrPEM (irBundle issued)
            \<and> consistent_bundle (seCrypto e) (irBundle issued))"
  using assms
proof (rule served_200)
  fix c profile issued
  let ?k = "request_key (production e cfg pm i) c profile"
  assume sv: "served r resp c profile st st'" and resp: "resp = writeJSON 200 (issue_response_json (newIssueResponse issued))"
    and ob: "obtained (production e cfg pm i) ?k issued"
  obtain now where g: "granted (production e cfg pm i) r now profile c" using sv unfolding served_def by blast
  obtain key profile' csrPEM w w' where k: "CertificateCacheKey_String key = CertificateCacheKey_String ?k"
    and I: "issueOrLoad (production e cfg pm i) key profile' csrPEM w = (Inr issued, w')"
    using ob unfolding obtained_def by blast
  have "consistent_bundle (seCrypto e) b" if "from_issuer e i profile' csrPEM b" for b
    using that from_issuer_consistent by blast
  then have "irCache issued = ''hit'' \<and> from_cache key profile' (irBundle issued)
      \<or> irCache issued = ''miss'' \<and> from_issuer e i profile' csrPEM (irBundle issued)
          \<and> consistent_bundle (seCrypto e) (irBundle issued)"
    using issueOrLoad_source [OF I] by blast
  moreover have "nul_free key \<and> nul_free ?k \<longrightarrow> key = ?k" using key_String_inject k by blast
  ultimately show ?thesis using g resp k by blast
qed

lemma windows:
  assumes "handle_all (production e cfg pm i) reqs \<lparr>bsLimiter = New a b, bsWorld = w\<rparr> = (resps, st')"
  shows "\<exists>calls. in_windows a b (concat calls) \<and> length calls = length reqs \<and> length resps = length reqs
     \<and> (\<forall>k < length reqs. calls ! k = [] \<and> respStatus (resps ! k) \<noteq> 200
          \<or> (\<exists>t now i p. calls ! k = [(t, i, p)] \<and> IdentityFromRequest now (reqs ! k) = Inr i))"
proof -
  have "limiter_history a b [] \<lparr>bsLimiter = New a b, bsWorld = w\<rparr>"
    unfolding limiter_history_def by (intro exI [of _ "[]"]) (simp add: clock_ok_def)
  from history_requests [OF assms this] obtain calls where c: "limiter_history a b (concat calls) st'"
    "length calls = length reqs \<and> length resps = length reqs
     \<and> (\<forall>k < length reqs. calls ! k = [] \<and> respStatus (resps ! k) \<noteq> 200
          \<or> (\<exists>t now i p. calls ! k = [(t, i, p)] \<and> IdentityFromRequest now (reqs ! k) = Inr i))" by auto
  obtain cs where "clock_ok cs" "run (New a b) cs = (concat calls, bsLimiter st')"
    using c(1) unfolding limiter_history_def by blast
  then have "in_windows a b (concat calls)" using run_inv by blast
  with c(2) show ?thesis by blast
qed

end

end
