(* ===== verification/Serve_Start.thy ===== *)
theory Serve_Start
  imports Serve_Safety
begin

text \<open>
  What holds of a broker that \<^verbatim>\<open>runServe\<close> has started, one lemma for each of its parts, and an
  example that starts.
\<close>

section \<open>Starting the broker\<close>

lemma NewManager_Inr:
  assumes "NewManager cr dec now path s = (Inr m, s')"
  shows "mgrPath m = path \<and> (\<exists>p. Current m = Some p \<and> loaded_from cr dec p)"
proof -
  obtain er m1 s1 where R: "Reload cr dec now \<lparr>mgrPath = path, mgrCurrent = None\<rparr> s = (er, m1, s1)"
    by (cases "Reload cr dec now \<lparr>mgrPath = path, mgrCurrent = None\<rparr> s")
  with assms have "er = None" "m1 = m" by (auto simp: NewManager_def split: option.splits)
  then show ?thesis using Reload_current [OF R] by (simp add: Current_def)
qed

lemma on_os_Inr: "on_sys (on_os f) w = (r, w') \<Longrightarrow> \<exists>s s'. f s = (r, s')"
  by (auto simp: on_sys_def on_os_def split: prod.splits)

lemma HTTPServer_Inr:
  assumes "HTTPServer append_certs cfg s = (Inr h, s')"
  shows "hsVerifyClients h \<and> append_certs (hsClientCAs h) \<and> hsAddr h = srvAddress (bcServer cfg)
     \<and> hsMinVersion h = (if tlsMinVersion_cfg (srvTLS (bcServer cfg)) = ''1.3'' then 0x0304 else 0x0303)"
  using assms by (auto simp: HTTPServer_def loadCertPool_def tlsMinVersion_def Let_def split: prod.splits sum.splits if_splits)

lemma runServe_Inr:
  assumes "runServe e path w = (Inr (server, h, st), w')"
  obtains cfg pm sec bst iss w1 w2 w3 w4 w5 where "loadBrokerConfig e path w = (Inr cfg, w1)"
    and "timed (\<lambda>now. on_sys (on_os (NewManager (seCrypto e) (sePolicy e) now (bcPolicyPath cfg)))) w1 = (Inr pm, w2)"
    and "on_sys (buildSecretsProvider (seVault e) cfg) w2 = (Inr sec, w3)"
    and "openBrokerStore (seCodec e) cfg w3 = (Inr bst, w4)"
    and "on_sys (buildIssuer (seCrypto e) (seLego e) (seDrawn e) cfg sec) w4 = (Inr iss, w5)"
    and "server = fst (build_server e cfg pm bst iss)"
    and "ListenAndServe (seAppendCerts e) server \<lparr>bsLimiter = snd (build_server e cfg pm bst iss), bsWorld = w5\<rparr> = (Inr h, st)"
  using assms unfolding runServe_def
  by (auto split: prod.splits sum.splits)

lemma started_manager:
  assumes "timed (\<lambda>now. on_sys (on_os (NewManager cr dec now path))) w = (Inr pm, w')"
  shows "\<exists>p. Current pm = Some p \<and> loaded_from cr dec p"
proof -
  obtain now w1 where 1: "world_now w = (now, w1)" by (cases "world_now w")
  then have "on_sys (on_os (NewManager cr dec now path)) w1 = (Inr pm, w')" using assms by (simp add: timed_def)
  from on_os_Inr [OF this] obtain s s' where "NewManager cr dec now path s = (Inr pm, s')" by blast
  then show ?thesis using NewManager_Inr by blast
qed

lemma started_config:
  assumes "loadBrokerConfig e path w = (Inr cfg, w')"
  shows "broker_ready cfg"
proof -
  have "on_sys (on_os (LoadBroker (seURI e) (seConfig e) path)) w = (Inr cfg, w')"
    using assms by (auto simp: loadBrokerConfig_def split: if_splits prod.splits sum.splits)
  from on_os_Inr [OF this] obtain s s' where "LoadBroker (seURI e) (seConfig e) path s = (Inr cfg, s')" by blast
  then obtain raw where "cfg = Broker_ApplyDefaults raw" "Broker_Validate (seURI e) cfg = None"
    unfolding LoadBroker_Inr by blast
  then show ?thesis using validated_broker_ready by blast
qed

lemma started_store:
  assumes "openBrokerStore c cfg w = (Inr bst, w')" and "bcStoreDriver cfg = ''sqlite''"
  shows "bst = sqlite_store"
  using assms by (auto simp: openBrokerStore_def NewSQLiteStore_def Let_def split: if_splits prod.splits bool.splits option.splits)

lemma started_issuer:
  assumes "on_sys (buildIssuer cr lg drawn cfg sec) w = (Inr iss, w')"
  shows "\<exists>i. iss = acme_iface cr lg i"
  using assms by (auto simp: on_sys_def buildIssuer_def split: if_splits prod.splits sum.splits)

lemma started_listener:
  assumes "ListenAndServe append_certs s st = (Inr h, st')"
  shows "bsLimiter st' = bsLimiter st \<and> (\<exists>x x'. HTTPServer append_certs (srvConfig s) x = (Inr h, x'))"
proof -
  obtain r w1 where 1: "on_sys (on_os (HTTPServer append_certs (srvConfig s))) (bsWorld st) = (r, w1)"
    by (cases "on_sys (on_os (HTTPServer append_certs (srvConfig s))) (bsWorld st)")
  then have "r = Inr h" using assms by (auto simp: ListenAndServe_def on_world_def split: sum.splits)
  moreover have "bsLimiter st' = bsLimiter st"
    using assms 1 by (auto simp: ListenAndServe_def on_world_def split: sum.splits prod.splits)
  ultimately show ?thesis using on_os_Inr [OF 1] by blast
qed

section \<open>An example\<close>

definition start_env :: "(nat, unit) serve_env" where
  "start_env = example_env\<lparr>sePolicy := example_decoder\<rparr>"

definition start_disk :: "nat \<Rightarrow> os" where
  "start_disk n = \<lparr>files = [(''account.pem'', \<lparr>content = ''PRIVATE KEY:key'', mode = 384\<rparr>),
     (''broker.yaml'', \<lparr>content = ''yaml'', mode = 384\<rparr>), (''ca.pem'', \<lparr>content = ''pem'', mode = 420\<rparr>),
     (''policy.yaml'', \<lparr>content = ''policy'', mode = 420\<rparr>)],
     calls = n, faults = (\<lambda>_. False), short = (\<lambda>_. 0), temp_suffix = (\<lambda>_. ''1''), history = []\<rparr>"

definition start_world :: "unit world" where
  "start_world = example_world\<lparr>wSys := \<lparr>sysOs = start_disk 0, sysEnv = []\<rparr>\<rparr>"

lemma start_reads [simp]:
  "os_ReadFile ''account.pem'' (start_disk n) = (Inr ''PRIVATE KEY:key'', start_disk (Suc n))"
  "os_ReadFile ''broker.yaml'' (start_disk n) = (Inr ''yaml'', start_disk (Suc n))"
  "os_ReadFile ''ca.pem'' (start_disk n) = (Inr ''pem'', start_disk (Suc n))"
  "os_ReadFile ''policy.yaml'' (start_disk n) = (Inr ''policy'', start_disk (Suc n))"
  "os_call (start_disk n) = (True, start_disk (Suc n))"
  by (simp_all add: os_ReadFile_def os_call_def start_disk_def failing_def tick_def)

lemma start_config [simp]:
  "LoadBroker (\<lambda>u. u \<noteq> []) (\<lambda>_. Some example_broker_config) ''broker.yaml'' (start_disk n)
     = (Inr (Broker_ApplyDefaults example_broker_config), start_disk (Suc n))"
  by (simp add: LoadBroker_def loadYAML_def example_broker_validates)

lemma start_policy [simp]:
  "\<exists>m. NewManager example_crypto example_decoder now ''policy.yaml'' (start_disk n) = (Inr m, start_disk (Suc n))"
proof -
  have "Compile example_crypto now example_config = Inr (compiled_policy_of example_crypto now example_config)"
    using Compile_Inr [OF example_config_ok(1)] example_config_ok(2) by blast
  then show ?thesis by (simp add: NewManager_def Reload_def Load_def example_decoder_def)
qed

lemma start_fields [simp]:
  "bcPolicyPath (Broker_ApplyDefaults example_broker_config) = ''policy.yaml''"
  "bcSecretsProvider (Broker_ApplyDefaults example_broker_config) = ''env''"
  "bcStoreDriver (Broker_ApplyDefaults example_broker_config) = ''sqlite''"
  "bcStorePath (Broker_ApplyDefaults example_broker_config) \<noteq> []"
  "bcIssuerProvider (Broker_ApplyDefaults example_broker_config) = ''acme''"
  "acDirectoryURL (bcACME (Broker_ApplyDefaults example_broker_config)) \<noteq> []"
  "acAccountEmail (bcACME (Broker_ApplyDefaults example_broker_config)) \<noteq> []"
  "acAccountKey (bcACME (Broker_ApplyDefaults example_broker_config)) = ''account.pem''"
  "srvAgentCABundle (bcServer (Broker_ApplyDefaults example_broker_config)) = ''ca.pem''"
  by (simp_all add: Broker_ApplyDefaults_def example_broker_config_def default_str_def)

lemma start_migrates: "\<exists>d. migrate (example_db\<lparr>db_calls := 1\<rparr>) = (None, d)"
proof -
  have "Option.is_none (fst (migrate (example_db\<lparr>db_calls := 1\<rparr>)))" by code_simp
  then show ?thesis by (metis Option.is_none_def prod.collapse)
qed

lemma start_opens: "db_exec (\<lambda>s. s) example_db = (True, example_db\<lparr>db_calls := 1\<rparr>)"
  by (simp add: db_exec_def db_tick_def example_db_def)

lemma start_issuer:
  "\<exists>i. buildIssuer example_crypto example_lego drawn (Broker_ApplyDefaults example_broker_config) sec
     \<lparr>sysOs = start_disk n, sysEnv = []\<rparr> = (Inr i, \<lparr>sysOs = start_disk (Suc n), sysEnv = []\<rparr>)"
proof -
  have "parseAccountKey example_crypto ''PRIVATE KEY:key'' = Inr ''key''" by code_simp
  then show ?thesis
    by (simp add: buildIssuer_def acme_New_def loadOrCreateAccountKey_def on_os_def acme_newClient_def example_lego_def Let_def)
qed

lemma start_ok: "\<exists>server h st w'. runServe start_env ''broker.yaml'' start_world = (Inr (server, h, st), w')"
proof -
  obtain m where m: "NewManager example_crypto example_decoder (24 * Hour) ''policy.yaml'' (start_disk (Suc 0))
      = (Inr m, start_disk (Suc (Suc 0)))"
    using start_policy by blast
  obtain i where i: "buildIssuer example_crypto example_lego (Some ''key'') (Broker_ApplyDefaults example_broker_config) env_Get
     \<lparr>sysOs = start_disk (Suc (Suc (Suc 0))), sysEnv = []\<rparr> = (Inr i, \<lparr>sysOs = start_disk (Suc (Suc (Suc (Suc 0)))), sysEnv = []\<rparr>)"
    using start_issuer by blast
  obtain d where d: "migrate (example_db\<lparr>db_calls := 1\<rparr>) = (None, d)" using start_migrates by blast
  show ?thesis using m i d start_opens
    by (simp add: runServe_def loadBrokerConfig_def on_sys_def on_os_def start_world_def example_world_def
        start_env_def example_env_def timed_def world_now_def buildSecretsProvider_def openBrokerStore_def
        NewSQLiteStore_def on_db_def Let_def)
      (simp add: build_server_def NewServer_def ListenAndServe_def on_world_def on_sys_def on_os_def
        HTTPServer_def loadCertPool_def Let_def)
qed

end
