(* ===== verification/End_to_End.thy ===== *)
theory End_to_End
  imports Agent_Guarantees Serve_Start
begin

text \<open>
  The agent and the broker together: the network of the agent is the state of the broker, and an answer
  to its client is what the handler of the broker answers.
\<close>

text \<open>
  What the transport between them does: when an answer comes, the broker has handled a request with the
  body that was sent, from a client that presented the identity certificate of the client.
\<close>

definition carries ::
  "'z world server \<Rightarrow> (string \<Rightarrow> certificate option list) \<Rightarrow> 'z world broker_state agent_env \<Rightarrow> bool" where
  "carries s peer env \<longleftrightarrow> (\<forall>client url body st ans st'. aeDo env client url body st = (Some ans, st') \<longrightarrow>
     (\<exists>r resp. reqBody r = body \<and> reqTLS r = Some (peer (bclCertPEM client))
        \<and> issueCertificate s r st = (resp, st') \<and> ansStatus ans = int (respStatus resp) \<and> ansBody ans = respBody resp))"

text \<open>
  What \<^verbatim>\<open>encoding/json\<close> documents: the decoders read back what the encoders wrote, for texts in UTF-8.
\<close>

definition reads_requests :: "('c, 'z) serve_env \<Rightarrow> bool" where
  "reads_requests e \<longleftrightarrow> (\<forall>profile csr. valid_utf8 profile \<and> valid_utf8 csr \<longrightarrow>
     seUnmarshal e (issue_request_json profile csr) = Some \<lparr>iqProfile = profile, iqCSRPEM = csr\<rparr>)"

definition response_utf8 :: "issue_response \<Rightarrow> bool" where
  "response_utf8 r \<longleftrightarrow> valid_utf8 (irspCertPEM r) \<and> valid_utf8 (irspChainPEM r) \<and> valid_utf8 (irspFullChainPEM r)
     \<and> valid_utf8 (irspSerialNumber r) \<and> valid_utf8 (irspNotBefore r) \<and> valid_utf8 (irspNotAfter r) \<and> valid_utf8 (irspCache r)"

definition reads_responses :: "'n agent_env \<Rightarrow> bool" where
  "reads_responses env \<longleftrightarrow> (\<forall>r. response_utf8 r \<and> length (issue_response_json r) < maxIssueResponseBytes \<longrightarrow>
     aeUnmarshal env (issue_response_json r @ [CHR 0x0A]) = Some r)"

lemma client_Issue_Inr:
  assumes "client_Issue env client profile csrPEM n = (Inr bdl, n')"
  obtains ans out where "aeDo env client (bclURL client @ ''/v1/certificates'') (issue_request_json profile csrPEM) n = (Some ans, n')"
    and "200 \<le> ansStatus ans" and "ansStatus ans < 300" and "aeUnmarshal env (limited_body (ansBody ans)) = Some out"
    and "client_bundle out = Inr bdl"
  using assms by (auto simp: client_Issue_def Let_def split: if_splits prod.splits option.splits)

lemma client_bundle_response:
  assumes "rfc3339_range (bundleNotBefore (irBundle issued))" and "rfc3339_range (bundleNotAfter (irBundle issued))"
  shows "client_bundle (newIssueResponse issued) = Inr (norm_bundle (irBundle issued))"
  using assms by (simp add: client_bundle_def newIssueResponse_def norm_bundle_def parse_format_rfc3339 Let_def)

lemma limited_body_all: "length b \<le> maxIssueResponseBytes \<Longrightarrow> limited_body b = b"
  by (simp add: limited_body_def)

text \<open>
  A handler only answers 200 with a certificate, or with an error status outside 200 to 299.
\<close>

context serving
begin

lemma success_is_200:
  assumes "issueCertificate (production e cfg pm i) r st = (resp, st')" and "200 \<le> respStatus resp" and "respStatus resp < 300"
  shows "respStatus resp = 200"
  using issueCertificate_outcome [OF assms(1)] assms(2,3)
  by (auto simp: refused_def served_def writeJSON_def)

end

section \<open>Both sides of an exchange\<close>

text \<open>What the agent asks for: the canonical names of the configuration, with its key.\<close>

definition csr_template :: "crypto \<Rightarrow> private_key \<Rightarrow> string list \<Rightarrow> certificate_request" where
  "csr_template cr key names = \<lparr>csrCommonName = hd (sorted_list_of_set (name_set names)),
     csrDNSNames = sorted_list_of_set (name_set names), csrPublicKey = public_of cr key\<rparr>"

lemma GenerateServiceCSR_Inr:
  assumes "GenerateServiceCSR cr key names = Inr csrPEM" and "request_roundtrip cr (csr_template cr key names) key"
  shows "valid_names names \<and> ParseCSRPEM cr csrPEM = Inr (csr_template cr key names)"
proof -
  have "valid_names names" "names \<noteq> []"
    using assms(1) by (auto simp: GenerateServiceCSR_def CanonicalList_iff split: sum.splits if_splits)
  then show ?thesis using GenerateServiceCSR_roundtrip [of names cr key] assms unfolding csr_template_def by auto
qed

lemma granted_for_template:
  assumes "granted s r now profile ctx" and "reqBody r = issue_request_json name csrPEM"
    and "envUnmarshal (srvEnv s) (issue_request_json name csrPEM) = Some \<lparr>iqProfile = name, iqCSRPEM = csrPEM\<rparr>"
    and "ParseCSRPEM (envCrypto (srvEnv s)) csrPEM = Inr (csr_template cr key names)" and "valid_names names"
  shows "cProfileName ctx = name \<and> cCSRPEM ctx = csrPEM \<and> profDNSNames profile = sorted_list_of_set (name_set names)"
proof -
  obtain body csr pol where g: "read_body r = Inr body"
    "envUnmarshal (srvEnv s) body = Some \<lparr>iqProfile = cProfileName ctx, iqCSRPEM = cCSRPEM ctx\<rparr>"
    "ParseCSRPEM (envCrypto (srvEnv s)) (cCSRPEM ctx) = Inr csr"
    "Authorize pol (cIdentity ctx) (cProfileName ctx) (Some csr) = (Some profile, None)"
    using assms(1) unfolding granted_def by blast
  have "body = issue_request_json name csrPEM" using g(1) assms(2) by (simp add: read_body_def split: if_splits)
  then have ctx: "cProfileName ctx = name" "cCSRPEM ctx = csrPEM" using g(2) assms(3) by simp_all
  then have "csrDNSNames csr = sorted_list_of_set (name_set names)" using g(3) assms(4) by (auto simp: csr_template_def)
  moreover have "CanonicalList (csrDNSNames csr) = Inr (profDNSNames profile)" using g(4) by (auto simp: Authorize_granted)
  ultimately show ?thesis
    using ctx CanonicalList_canonical(3,5) [OF CanonicalList_valid [OF assms(5)]] by (simp add: CanonicalList_iff)
qed

text \<open>
  C6: the names of what the agent installs are the names of the policy. When the agent accepts a
  certificate from a broker, the broker had a request from the identity of the agent, its policy granted
  that identity the profile of the configuration, and the certificate that the agent accepted parses,
  belongs to its key and carries exactly the names that the policy lists for the profile.
\<close>

theorem accepted_names_are_policy_names:
  assumes "AuditEnabled cfg" and "singleflight (production e cfg pm i)" and "carries (production e cfg pm i) peer env"
    and "reads_requests e" and "aeCrypto env = seCrypto e"
    and "request_certificate env client c key w = (Inr bdl, w')"
    and "request_roundtrip (seCrypto e) (csr_template (seCrypto e) key (ccDNSNames c)) key"
    and "valid_utf8 (ccProfile c)" and "\<forall>csr. GenerateServiceCSR (seCrypto e) key (ccDNSNames c) = Inr csr \<longrightarrow> valid_utf8 csr"
  shows "\<exists>r now profile ctx cert. granted (production e cfg pm i) r now profile ctx
     \<and> reqTLS r = Some (peer (bclCertPEM client)) \<and> cProfileName ctx = ccProfile c
     \<and> ParseCertificatePEM (seCrypto e) (CertPEM bdl) = Inr cert
     \<and> CertificateMatchesPrivateKey (seCrypto e) cert key = None
     \<and> name_set (certDNSNames cert) = set (profDNSNames profile)"
proof -
  have sv: "serving e cfg pm i" using assms(1,2) by unfold_locales
  obtain cert csrPEM n n' where q: "ParseCertificatePEM (seCrypto e) (CertPEM bdl) = Inr cert"
    "CertificateMatchesPrivateKey (seCrypto e) cert key = None" "CertificateHasExactDNSNames cert (ccDNSNames c) = None"
    "GenerateServiceCSR (seCrypto e) key (ccDNSNames c) = Inr csrPEM" "client_Issue env client (ccProfile c) csrPEM n = (Inr bdl, n')"
    using request_certificate_outcome [OF assms(6)] unfolding assms(5) by blast
  obtain ans where do: "aeDo env client (bclURL client @ ''/v1/certificates'') (issue_request_json (ccProfile c) csrPEM) n = (Some ans, n')"
    "200 \<le> ansStatus ans" "ansStatus ans < 300" using client_Issue_Inr [OF q(5)] by metis
  obtain r resp where r: "reqBody r = issue_request_json (ccProfile c) csrPEM" "reqTLS r = Some (peer (bclCertPEM client))"
    "issueCertificate (production e cfg pm i) r n = (resp, n')" "ansStatus ans = int (respStatus resp)"
    using assms(3) [unfolded carries_def, rule_format, OF do(1)] by blast
  have "respStatus resp = 200" using serving.success_is_200 [OF sv r(3)] do(2,3) r(4) by simp
  then obtain now profile ctx where g: "granted (production e cfg pm i) r now profile ctx"
    using serving.grant [OF sv r(3)] by blast
  have csr: "valid_names (ccDNSNames c)" "ParseCSRPEM (seCrypto e) csrPEM = Inr (csr_template (seCrypto e) key (ccDNSNames c))"
    using GenerateServiceCSR_Inr [OF q(4) assms(7)] by simp_all
  have "seUnmarshal e (issue_request_json (ccProfile c) csrPEM) = Some \<lparr>iqProfile = ccProfile c, iqCSRPEM = csrPEM\<rparr>"
    using assms(4,8,9) q(4) unfolding reads_requests_def by blast
  then have "cProfileName ctx = ccProfile c" "profDNSNames profile = sorted_list_of_set (name_set (ccDNSNames c))"
    using granted_for_template [OF g r(1)] csr by simp_all
  moreover have "name_set (certDNSNames cert) = name_set (ccDNSNames c)"
    using q(3) by (simp add: CertificateHasExactDNSNames_None)
  ultimately have "cProfileName ctx = ccProfile c" "name_set (certDNSNames cert) = set (profDNSNames profile)" by simp_all
  with g r(2) q(1,2) show ?thesis by blast
qed

text \<open>The decoders on objects whose members are strings, which is all that the two sides exchange.\<close>

definition decode_request :: "string \<Rightarrow> issue_request option" where
  "decode_request body = map_option (\<lambda>m. \<lparr>iqProfile = map_at [] m ''profile'', iqCSRPEM = map_at [] m ''csr_pem''\<rparr>)
     (unmarshal_string_map body)"

definition decode_response :: "string \<Rightarrow> issue_response option" where
  "decode_response body = map_option
     (\<lambda>m. \<lparr>irspCertPEM = map_at [] m ''cert_pem'', irspChainPEM = map_at [] m ''chain_pem'',
        irspFullChainPEM = map_at [] m ''fullchain_pem'', irspSerialNumber = map_at [] m ''serial_number'',
        irspNotBefore = map_at [] m ''not_before'', irspNotAfter = map_at [] m ''not_after'', irspCache = map_at [] m ''cache''\<rparr>)
     (unmarshal_string_map (butlast body))"

lemma decode_request_json:
  assumes "valid_utf8 profile" and "valid_utf8 csr"
  shows "decode_request (issue_request_json profile csr) = Some \<lparr>iqProfile = profile, iqCSRPEM = csr\<rparr>"
proof -
  let ?m = "[(''profile'', profile), (''csr_pem'', csr)]"
  have "valid_utf8 ''profile''" "valid_utf8 ''csr_pem''" by code_simp+
  with assms have "unmarshal_string_map (''{'' @ Join (map (\<lambda>(k, v). member_text k (json_string v)) ?m) '','' @ ''}'') = Some ?m"
    by (intro unmarshal_members) simp_all
  then show ?thesis by (simp add: decode_request_def issue_request_json_def str_member_def)
qed

lemma decode_response_json:
  assumes "response_utf8 r"
  shows "decode_response (issue_response_json r @ [CHR 0x0A]) = Some r"
proof -
  let ?m = "[(''cert_pem'', irspCertPEM r), (''chain_pem'', irspChainPEM r), (''fullchain_pem'', irspFullChainPEM r),
    (''serial_number'', irspSerialNumber r), (''not_before'', irspNotBefore r), (''not_after'', irspNotAfter r), (''cache'', irspCache r)]"
  have "valid_utf8 ''cert_pem''" "valid_utf8 ''chain_pem''" "valid_utf8 ''fullchain_pem''" "valid_utf8 ''serial_number''"
    "valid_utf8 ''not_before''" "valid_utf8 ''not_after''" "valid_utf8 ''cache''" by code_simp+
  with assms have "unmarshal_string_map (''{'' @ Join (map (\<lambda>(k, v). member_text k (json_string v)) ?m) '','' @ ''}'') = Some ?m"
    by (intro unmarshal_members) (simp_all add: response_utf8_def)
  moreover have "butlast (issue_response_json r @ [CHR 0x0A])
      = ''{'' @ Join (map (\<lambda>(k, v). member_text k (json_string v)) ?m) '','' @ ''}''"
    unfolding butlast_snoc issue_response_json_def str_member_def by simp
  ultimately have "unmarshal_string_map (butlast (issue_response_json r @ [CHR 0x0A])) = Some ?m" by (simp only:)
  then show ?thesis unfolding decode_response_def by simp
qed


section \<open>An example\<close>

text \<open>The broker of the example answers the agent, over a transport that always delivers.\<close>

definition e2e_env :: "(nat, unit) serve_env" where
  "e2e_env = example_env\<lparr>seUnmarshal := decode_request\<rparr>"

abbreviation e2e_server :: "unit world server" where
  "e2e_server \<equiv> production e2e_env small_config example_manager small_acme"

definition e2e_agent_env :: "unit world broker_state agent_env" where
  "e2e_agent_env = \<lparr>aeCrypto = example_crypto, aeKeyPair = (\<lambda>_ _. True), aeAppendCerts = (\<lambda>_. True), aeRequestOK = (\<lambda>_. True),
     aeDo = (\<lambda>_ _ body st. case issueCertificate e2e_server (example_http_request\<lparr>reqBody := body\<rparr>) st of
       (resp, st) \<Rightarrow> (Some \<lparr>ansStatus = int (respStatus resp), ansBody = respBody resp, ansReadError = False\<rparr>, st)),
     aeUnmarshal = aeUnmarshal example_agent_env,
     aeShell = (\<lambda>_ _ w. (\<lparr>shOutput = [], shFailed = False, shTimedOut = False\<rparr>, w))\<rparr>"

definition e2e_client :: broker_client where
  "e2e_client = \<lparr>bclURL = ''https://b'', bclTimeout = 30, bclCertPEM = ''CERTIFICATE:der'', bclKeyPEM = ''PRIVATE KEY:key'',
     bclRootCAs = ''CERTIFICATE:ca''\<rparr>"

definition e2e_cert_config :: cert_config where
  "e2e_cert_config = example_cert_config\<lparr>ccDNSNames := [''A.example.com'']\<rparr>"

definition e2e_world :: "unit world broker_state agent_world" where
  "e2e_world = \<lparr>awOs = agent_disk enrolled_files, awClock = 24 * Hour, awSteps = (\<lambda>_. 0), awReads = 0, awKeys = (\<lambda>_. Some ''key''),
     awDraws = 0, awNet = example_state\<rparr>"

definition e2e_request :: http_request where
  "e2e_request = example_http_request\<lparr>reqBody := issue_request_json ''web'' ''CERTIFICATE REQUEST:req''\<rparr>"

lemma e2e_decodes: "decode_request (issue_request_json ''web'' ''CERTIFICATE REQUEST:req'')
    = Some \<lparr>iqProfile = ''web'', iqCSRPEM = ''CERTIFICATE REQUEST:req''\<rparr>"
  by (rule decode_request_json) code_simp+

lemma e2e_granted: "granted e2e_server e2e_request (auth_time example_world) example_profile (example_context\<lparr>cRequest := e2e_request\<rparr>)"
proof -
  have "IdentityFromRequest (auth_time example_world) e2e_request = Inr ''host-1''" by code_simp
  moreover have "is_ok (read_body e2e_request)" by code_simp
  then have "read_body e2e_request = Inr (issue_request_json ''web'' ''CERTIFICATE REQUEST:req'')"
    by (auto simp: is_ok_def read_body_def e2e_request_def split: if_splits)
  moreover have "PublicKeyFingerprint example_crypto (csrPublicKey example_request) = Inr (hex_encode ''pub'')"
    by (simp add: PublicKeyFingerprint_def example_crypto_def example_request_def)
  ultimately show ?thesis
    using example_Authorize example_ParseCSR e2e_decodes
    by (simp add: granted_def example_context_def e2e_env_def example_env_def Current_def example_manager_def)
qed

lemma e2e_served: "respStatus (fst (issueCertificate e2e_server e2e_request example_state)) = 200"
proof (rule healthy_served [where c = "example_context\<lparr>cRequest := e2e_request\<rparr>" and profile = example_profile, OF example_healthy(1,2)])
  show "granted e2e_server e2e_request (auth_time (bsWorld example_state)) example_profile (example_context\<lparr>cRequest := e2e_request\<rparr>)"
    using e2e_granted by (simp add: example_state_def)
qed (use example_healthy(4-6) example_audits in \<open>simp_all add: e2e_env_def\<close>)

lemma e2e_issues:
  "\<exists>out bdl w'. aeUnmarshal e2e_agent_env = (\<lambda>_. Some out) \<and> client_bundle out = Inr bdl \<and> CertPEM bdl = ''CERTIFICATE:der''
     \<and> client_Issue e2e_agent_env e2e_client ''web'' ''CERTIFICATE REQUEST:req'' example_state = (Inr bdl, w')"
proof -
  let ?out = "the (aeUnmarshal example_agent_env [])"
  obtain resp st' where I: "issueCertificate e2e_server e2e_request example_state = (resp, st')"
    by (cases "issueCertificate e2e_server e2e_request example_state")
  have ok: "respStatus resp = 200" using e2e_served I by simp
  have "is_ok (client_bundle ?out)" by code_simp
  then obtain bdl where b: "client_bundle ?out = Inr bdl" by (auto simp: is_ok_def split: sum.splits)
  then have "CertPEM bdl = ''CERTIFICATE:der''"
    by (auto simp: client_bundle_def example_agent_env_def split: option.splits)
  moreover have u: "aeUnmarshal e2e_agent_env = (\<lambda>_. Some ?out)" by (simp add: e2e_agent_env_def example_agent_env_def)
  moreover have "client_Issue e2e_agent_env e2e_client ''web'' ''CERTIFICATE REQUEST:req'' example_state = (Inr bdl, st')"
    using I [unfolded e2e_request_def] ok b unfolding client_Issue_def u by (simp add: e2e_agent_env_def Let_def)
  ultimately show ?thesis using b by blast
qed

lemma e2e_accepts:
  "\<exists>bdl w'. request_certificate e2e_agent_env e2e_client e2e_cert_config ''key'' e2e_world = (Inr bdl, w')"
proof -
  obtain bdl st' where I: "client_Issue e2e_agent_env e2e_client ''web'' ''CERTIFICATE REQUEST:req'' example_state = (Inr bdl, st')"
    "CertPEM bdl = ''CERTIFICATE:der''" using e2e_issues by blast
  have "GenerateServiceCSR example_crypto ''key'' [''A.example.com''] = Inr ''CERTIFICATE REQUEST:req''"
    "ParseCertificatePEM example_crypto ''CERTIFICATE:der'' = Inr example_certificate"
    "CertificateMatchesPrivateKey example_crypto example_certificate ''key'' = None"
    "CertificateHasExactDNSNames example_certificate [''A.example.com''] = None"
    by code_simp+
  moreover have "aeCrypto e2e_agent_env = example_crypto" "ccProfile e2e_cert_config = ''web''"
    "ccDNSNames e2e_cert_config = [''A.example.com'']" "awNet e2e_world = example_state"
    by (simp_all add: e2e_agent_env_def e2e_cert_config_def example_cert_config_def e2e_world_def)
  ultimately show ?thesis using I by (simp add: request_certificate_def on_net_def)
qed

lemma e2e_carries: "carries e2e_server (\<lambda>_. [Some example_certificate]) e2e_agent_env"
  unfolding carries_def
proof (intro allI impI)
  fix client url body st ans st'
  assume "aeDo e2e_agent_env client url body st = (Some ans, st')"
  then show "\<exists>r resp. reqBody r = body \<and> reqTLS r = Some [Some example_certificate] \<and> issueCertificate e2e_server r st = (resp, st')
      \<and> ansStatus ans = int (respStatus resp) \<and> ansBody ans = respBody resp"
    by (intro exI [of _ "example_http_request\<lparr>reqBody := body\<rparr>"])
      (auto simp: e2e_agent_env_def example_http_request_def split: prod.splits)
qed

theorem accepted_names_are_policy_names_witness:
  "\<exists>bdl r now profile ctx cert. fst (request_certificate e2e_agent_env e2e_client e2e_cert_config ''key'' e2e_world) = Inr bdl
     \<and> granted e2e_server r now profile ctx \<and> ParseCertificatePEM example_crypto (CertPEM bdl) = Inr cert
     \<and> name_set (certDNSNames cert) = set (profDNSNames profile)"
proof -
  obtain bdl w' where R: "request_certificate e2e_agent_env e2e_client e2e_cert_config ''key'' e2e_world = (Inr bdl, w')"
    using e2e_accepts by blast
  have env: "seCrypto e2e_env = example_crypto" "aeCrypto e2e_agent_env = seCrypto e2e_env"
    by (simp_all add: e2e_env_def example_env_def e2e_agent_env_def)
  have sf: "singleflight e2e_server"
    by (simp add: singleflight_def e2e_env_def example_env_def)
  have rd: "reads_requests e2e_env" by (simp add: reads_requests_def e2e_env_def decode_request_json)
  have "csr_template example_crypto ''key'' [''A.example.com''] = example_request"
    "request_roundtrip example_crypto example_request ''key''" by code_simp+
  then have rt: "request_roundtrip (seCrypto e2e_env) (csr_template (seCrypto e2e_env) ''key'' (ccDNSNames e2e_cert_config)) ''key''"
    unfolding env by (simp add: e2e_cert_config_def)
  have "valid_utf8 ''web''" "valid_utf8 ''CERTIFICATE REQUEST:req''"
    "GenerateServiceCSR example_crypto ''key'' [''A.example.com''] = Inr ''CERTIFICATE REQUEST:req''" by code_simp+
  then have u: "valid_utf8 (ccProfile e2e_cert_config)"
    "\<forall>csr. GenerateServiceCSR (seCrypto e2e_env) ''key'' (ccDNSNames e2e_cert_config) = Inr csr \<longrightarrow> valid_utf8 csr"
    unfolding env by (simp_all add: e2e_cert_config_def example_cert_config_def)
  from accepted_names_are_policy_names [OF example_audits(1) sf e2e_carries rd env(2) R rt u]
  show ?thesis using R unfolding env by auto
qed

definition e2e_issued :: issued_result where
  "e2e_issued = \<lparr>irBundle = overwriting_bundle, irCache = ''miss''\<rparr>"

definition e2e_reader :: "unit agent_env" where
  "e2e_reader = example_agent_env\<lparr>aeUnmarshal := decode_response,
     aeDo := (\<lambda>_ _ _ n. (Some \<lparr>ansStatus = 200, ansBody = respBody (writeJSON 200 (issue_response_json (newIssueResponse e2e_issued))),
       ansReadError = False\<rparr>, n))\<rparr>"


end
