(* ===== verification/Broker_Process.thy ===== *)
theory Broker_Process
  imports Serve_Safety
begin

text \<open>
  The running broker. \<^verbatim>\<open>net/http\<close> runs the handler once per request, all at the same time, while
  \<^verbatim>\<open>Manager.Watch\<close> may exchange the policy. A step of a thread goes from one access to shared state to the
  next: the limiter under its mutex, one statement of the database (which has one connection), one call
  of the issuer, the policy under its lock, and the table of calls in flight of \<^verbatim>\<open>singleflight\<close> under
  its mutex. The steps of the threads, the arrivals of requests and the ticks of the watcher interleave
  in any order.
\<close>

section \<open>Threads\<close>

datatype check = CkAuthenticate | CkParse | CkAuthorize | CkFingerprint | CkRecord | CkLimit

fun run_check :: "'w server \<Rightarrow> check \<Rightarrow> 'w step" where
  "run_check s CkAuthenticate = authenticateIssueRequest s"
| "run_check s CkParse = parseIssueRequest s"
| "run_check s CkAuthorize = authorizeIssueRequest s"
| "run_check s CkFingerprint = attachPublicKeyFingerprint s"
| "run_check s CkRecord = recordAuthorizedIssue s"
| "run_check s CkLimit = checkIssueRateLimit s"

fun next_check :: "check \<Rightarrow> check option" where
  "next_check CkAuthenticate = Some CkParse"
| "next_check CkParse = Some CkAuthorize"
| "next_check CkAuthorize = Some CkFingerprint"
| "next_check CkFingerprint = Some CkRecord"
| "next_check CkRecord = Some CkLimit"
| "next_check CkLimit = None"

text \<open>The function that \<^verbatim>\<open>Do\<close> runs looks into the cache, orders from the issuer and keeps what it got.\<close>

datatype flight_phase = Look | Order | Keep cert_bundle

type_synonym flight_result = "(broker_error, issued_result) result"

text \<open>
  Where a thread stands, with the context of its request. \<open>Leading\<close> runs the function of its key,
  \<open>Waiting l\<close> waits for the result of the thread \<open>l\<close>, which \<open>Obtained\<close> then holds.
\<close>

datatype thread =
    Arrived http_request
  | Checking check request_context
  | Admitted request_context
  | Leading request_context flight_phase
  | Waiting nat request_context
  | Obtained request_context flight_result
  | Answered request_context http_response

definition context_profile :: "request_context \<Rightarrow> compiled_profile" where
  "context_profile c = (case cProfile c of Some p \<Rightarrow> p | None \<Rightarrow> zero_compiled_profile)"

definition flight_key :: "'w server \<Rightarrow> request_context \<Rightarrow> cache_key" where
  "flight_key s c = server_cacheKey s (cIdentity c) (cProfileName c) (context_profile c) (cPublicKeyFP c)"

definition flight_step ::
  "'w server \<Rightarrow> request_context \<Rightarrow> flight_phase \<Rightarrow> 'w \<Rightarrow> (flight_phase + flight_result) \<times> 'w" where
  "flight_step s c ph w =
     (let profile = context_profile c; key = flight_key s c in
      case ph of
        Look \<Rightarrow>
          (case sifGet (srvStore s) key (profRenewBefore profile) w of
             (Inr bdl, w) \<Rightarrow> (Inr (Inr \<lparr>irBundle = bdl, irCache = ''hit''\<rparr>), w)
           | (Inl err, w) \<Rightarrow> if err \<noteq> ErrCacheMiss then (Inr (Inl (StoreError err)), w) else (Inl Order, w))
      | Order \<Rightarrow>
          (case issIssue (srvIssuer s) (order_for profile (cCSRPEM c)) w of
             (Inl err, w) \<Rightarrow> (Inr (Inl (IssuerError err)), w)
           | (Inr bdl, w) \<Rightarrow> (Inl (Keep bdl), w))
      | Keep bdl \<Rightarrow>
          (case sifPut (srvStore s) key bdl w of
             (Some err, w) \<Rightarrow> (Inr (Inl (StoreError err)), w)
           | (None, w) \<Rightarrow> (Inr (Inr \<lparr>irBundle = bdl, irCache = ''miss''\<rparr>), w)))"

text \<open>What the handler does with the result of \<^verbatim>\<open>Do\<close>.\<close>

definition settle ::
  "'w server \<Rightarrow> request_context \<Rightarrow> flight_result \<Rightarrow> 'w broker_state \<Rightarrow> http_response \<times> 'w broker_state" where
  "settle s c r st =
     (case r of
        Inl err \<Rightarrow>
          on_world (\<lambda>w. (writeError 502 ''issuance failed'',
            audit_note s c EventCertificateIssueFailed SeverityError DecisionError ReasonIssuerFailed (Some err) w)) st
      | Inr issued \<Rightarrow>
          (case recordIssuedResult s c issued st of
             (Inl resp, st) \<Rightarrow> (resp, st)
           | (Inr _, st) \<Rightarrow> (writeJSON 200 (issue_response_json (newIssueResponse issued)), st)))"

section \<open>The process\<close>

record 'w process =
  prManager :: manager
  prLastMod :: instant
  prState :: "'w broker_state"
  prThreads :: "thread list"
  prFlights :: "nat strmap"

definition put_thread :: "nat \<Rightarrow> thread \<Rightarrow> 'w broker_state \<Rightarrow> 'w process \<Rightarrow> 'w process" where
  "put_thread k th st p = p\<lparr>prThreads := (prThreads p)[k := th], prState := st\<rparr>"

text \<open>When the function of a key returns, its entry goes and everyone who waited has the result.\<close>

definition deliver :: "nat \<Rightarrow> flight_result \<Rightarrow> thread \<Rightarrow> thread" where
  "deliver k r th = (case th of Waiting l c \<Rightarrow> if l = k then Obtained c r else th | _ \<Rightarrow> th)"

definition land :: "nat \<Rightarrow> string \<Rightarrow> request_context \<Rightarrow> flight_result \<Rightarrow> 'w broker_state \<Rightarrow> 'w process \<Rightarrow> 'w process" where
  "land k key c r st p =
     p\<lparr>prThreads := (map (deliver k r) (prThreads p))[k := Obtained c r], prState := st,
       prFlights := AList.delete key (prFlights p)\<rparr>"

definition advance_thread :: "'w server \<Rightarrow> nat \<Rightarrow> thread \<Rightarrow> 'w process \<Rightarrow> 'w process option" where
  "advance_thread s k th p =
     (case th of
        Arrived r \<Rightarrow>
          (case on_world (NewID (srvEnv s) ''req_'') (prState p) of
             (None, st) \<Rightarrow> Some (put_thread k (Answered (new_context [] r) (writeError 500 ''internal error'')) st p)
           | (Some requestID, st) \<Rightarrow> Some (put_thread k (Checking CkAuthenticate (new_context requestID r)) st p))
      | Checking ck c \<Rightarrow>
          (case run_check s ck c (prState p) of
             (Inl resp, st) \<Rightarrow> Some (put_thread k (Answered c resp) st p)
           | (Inr c, st) \<Rightarrow>
               Some (put_thread k (case next_check ck of Some ck \<Rightarrow> Checking ck c | None \<Rightarrow> Admitted c) st p))
      | Admitted c \<Rightarrow>
          (let key = CertificateCacheKey_String (flight_key s c) in
           case map_get (prFlights p) key of
             Some l \<Rightarrow> Some (put_thread k (Waiting l c) (prState p) p)
           | None \<Rightarrow> Some ((put_thread k (Leading c Look) (prState p) p)\<lparr>prFlights := map_put key k (prFlights p)\<rparr>))
      | Leading c ph \<Rightarrow>
          (case on_world (flight_step s c ph) (prState p) of
             (Inl ph, st) \<Rightarrow> Some (put_thread k (Leading c ph) st p)
           | (Inr r, st) \<Rightarrow> Some (land k (CertificateCacheKey_String (flight_key s c)) c r st p))
      | Waiting l c \<Rightarrow> None
      | Obtained c r \<Rightarrow> (case settle s c r (prState p) of (resp, st) \<Rightarrow> Some (put_thread k (Answered c resp) st p))
      | Answered c resp \<Rightarrow> None)"

definition advance ::
  "('c, 'z) serve_env \<Rightarrow> broker_config \<Rightarrow> 'z sys_scheme acme_issuer \<Rightarrow> nat \<Rightarrow> 'z world process \<Rightarrow> 'z world process option" where
  "advance e cfg i k p =
     (if k < length (prThreads p) then advance_thread (production e cfg (prManager p) i) k (prThreads p ! k) p else None)"

inductive process_step ::
  "('c, 'z) serve_env \<Rightarrow> broker_config \<Rightarrow> 'z sys_scheme acme_issuer \<Rightarrow> 'z world process \<Rightarrow> 'z world process \<Rightarrow> bool"
  for e cfg i where
  arrive: "process_step e cfg i p (p\<lparr>prThreads := prThreads p @ [Arrived r]\<rparr>)"
| tick: "watch_tick (seCrypto e) (sePolicy e) now stat disk (prManager p, prLastMod p) = (m, l) \<Longrightarrow>
    process_step e cfg i p (p\<lparr>prManager := m, prLastMod := l\<rparr>)"
| thread: "advance e cfg i k p = Some p' \<Longrightarrow> process_step e cfg i p p'"

definition initial :: "manager \<Rightarrow> instant \<Rightarrow> 'w broker_state \<Rightarrow> 'w process" where
  "initial pm lastMod st = \<lparr>prManager = pm, prLastMod = lastMod, prState = st, prThreads = [], prFlights = []\<rparr>"

text \<open>An execution is the list of the states it went through, and the last of them.\<close>

inductive execution ::
  "('c, 'z) serve_env \<Rightarrow> broker_config \<Rightarrow> 'z sys_scheme acme_issuer \<Rightarrow> 'z world process
   \<Rightarrow> 'z world process list \<Rightarrow> 'z world process \<Rightarrow> bool"
  for e cfg i p0 where
  begins: "execution e cfg i p0 [p0] p0"
| goes_on: "execution e cfg i p0 ps p \<Longrightarrow> process_step e cfg i p p' \<Longrightarrow> execution e cfg i p0 (ps @ [p']) p'"

section \<open>Steps of threads\<close>

lemma put_thread_simps [simp]:
  "prThreads (put_thread k th st p) = (prThreads p)[k := th]" "prState (put_thread k th st p) = st"
  "prFlights (put_thread k th st p) = prFlights p" "prManager (put_thread k th st p) = prManager p"
  by (simp_all add: put_thread_def)

lemma land_simps [simp]:
  "prThreads (land k key c r st p) = (map (deliver k r) (prThreads p))[k := Obtained c r]" "prState (land k key c r st p) = st"
  "prFlights (land k key c r st p) = AList.delete key (prFlights p)" "prManager (land k key c r st p) = prManager p"
  by (simp_all add: land_def)

lemma deliver_simps [simp]:
  "deliver k r (Arrived q) = Arrived q" "deliver k r (Checking ck c) = Checking ck c" "deliver k r (Admitted c) = Admitted c"
  "deliver k r (Leading c ph) = Leading c ph" "deliver k r (Obtained c r') = Obtained c r'"
  "deliver k r (Answered c resp) = Answered c resp"
  "deliver k r (Waiting l c) = (if l = k then Obtained c r else Waiting l c)"
  by (simp_all add: deliver_def)

text \<open>The key of a flight depends on the issuer only, which stays.\<close>

definition key_text :: "('c, 'z) serve_env \<Rightarrow> 'z sys_scheme acme_issuer \<Rightarrow> request_context \<Rightarrow> string" where
  "key_text e i c =
     (let iss = acme_iface (seCrypto e) (seLego e) i in
      CertificateCacheKey_String
        \<lparr>keyIdentity = cIdentity c, keyProfileName = cProfileName c, keyProfileHash = profHash (context_profile c),
         keyPublicKeySHA256 = cPublicKeyFP c, keyIssuerName = issName iss, keyIssuerDirectory = issDirectory iss,
         keyIssuerAccountKeyID = issAccountKeyID iss\<rparr>)"

lemma flight_key_production:
  "CertificateCacheKey_String (flight_key (production e cfg pm i) c) = key_text e i c"
  by (simp add: key_text_def flight_key_def server_cacheKey_def world_issuer_def Let_def)

text \<open>The cases of a step, with what the thread becomes.\<close>

lemma advance_cases:
  assumes "advance e cfg i k p = Some p'"
  obtains (failed) r st where "prThreads p ! k = Arrived r"
      "on_world (NewID (world_env e) ''req_'') (prState p) = (None, st)"
      "p' = put_thread k (Answered (new_context [] r) (writeError 500 ''internal error'')) st p"
  | (started) r st rid where "prThreads p ! k = Arrived r"
      "on_world (NewID (world_env e) ''req_'') (prState p) = (Some rid, st)"
      "p' = put_thread k (Checking CkAuthenticate (new_context rid r)) st p"
  | (refused) ck c resp st where "prThreads p ! k = Checking ck c"
      "run_check (production e cfg (prManager p) i) ck c (prState p) = (Inl resp, st)" "p' = put_thread k (Answered c resp) st p"
  | (checked) ck c c' st where "prThreads p ! k = Checking ck c"
      "run_check (production e cfg (prManager p) i) ck c (prState p) = (Inr c', st)"
      "p' = put_thread k (case next_check ck of Some ck \<Rightarrow> Checking ck c' | None \<Rightarrow> Admitted c') st p"
  | (joins) c l where "prThreads p ! k = Admitted c" "map_get (prFlights p) (key_text e i c) = Some l"
      "p' = put_thread k (Waiting l c) (prState p) p"
  | (leads) c where "prThreads p ! k = Admitted c" "map_get (prFlights p) (key_text e i c) = None"
      "p' = (put_thread k (Leading c Look) (prState p) p)\<lparr>prFlights := map_put (key_text e i c) k (prFlights p)\<rparr>"
  | (flies) c ph ph' st where "prThreads p ! k = Leading c ph"
      "on_world (flight_step (production e cfg (prManager p) i) c ph) (prState p) = (Inl ph', st)"
      "p' = put_thread k (Leading c ph') st p"
  | (lands) c ph r st where "prThreads p ! k = Leading c ph"
      "on_world (flight_step (production e cfg (prManager p) i) c ph) (prState p) = (Inr r, st)"
      "p' = land k (key_text e i c) c r st p"
  | (settles) c r resp st where "prThreads p ! k = Obtained c r"
      "settle (production e cfg (prManager p) i) c r (prState p) = (resp, st)" "p' = put_thread k (Answered c resp) st p"
proof -
  have "advance_thread (production e cfg (prManager p) i) k (prThreads p ! k) p = Some p'"
    using assms by (simp add: advance_def split: if_splits)
  then show ?thesis
    by (cases "prThreads p ! k")
      (auto simp: advance_thread_def flight_key_production Let_def split: prod.splits option.splits sum.splits
        intro: failed started refused checked joins leads flies lands settles)
qed

lemma advance_in_range: "advance e cfg i k p = Some p' \<Longrightarrow> k < length (prThreads p)"
  by (simp add: advance_def split: if_splits)

section \<open>Flights\<close>

text \<open>
  The table of \<^verbatim>\<open>singleflight\<close> has exactly the threads that run a function, each under its key, and
  who waits does so for the thread that runs the function of the same key.
\<close>

datatype role = Leads string | Waits nat string | Aside

fun role_of :: "('c, 'z) serve_env \<Rightarrow> 'z sys_scheme acme_issuer \<Rightarrow> thread \<Rightarrow> role" where
  "role_of e i (Leading c ph) = Leads (key_text e i c)"
| "role_of e i (Waiting l c) = Waits l (key_text e i c)"
| "role_of e i _ = Aside"

definition table_ok :: "role list \<Rightarrow> nat strmap \<Rightarrow> bool" where
  "table_ok rs fl \<longleftrightarrow> (\<forall>key l. map_get fl key = Some l \<longleftrightarrow> l < length rs \<and> rs ! l = Leads key)
     \<and> (\<forall>k < length rs. \<forall>l key. rs ! k = Waits l key \<longrightarrow> map_get fl key = Some l)"

definition flights_ok :: "('c, 'z) serve_env \<Rightarrow> 'z sys_scheme acme_issuer \<Rightarrow> 'z world process \<Rightarrow> bool" where
  "flights_ok e i p \<longleftrightarrow> table_ok (map (role_of e i) (prThreads p)) (prFlights p)"

lemma table_okD:
  assumes "table_ok rs fl"
  shows "map_get fl key = Some l \<longleftrightarrow> l < length rs \<and> rs ! l = Leads key"
    and "k < length rs \<Longrightarrow> rs ! k = Waits l key \<Longrightarrow> map_get fl key = Some l"
  using assms unfolding table_ok_def by blast+

lemma table_ok_join:
  assumes "table_ok rs fl" and "rs ! k = Aside" and "map_get fl key = Some l"
  shows "table_ok (rs[k := Waits l key]) fl"
  unfolding table_ok_def
proof (intro conjI allI impI)
  fix key' l'
  show "map_get fl key' = Some l' \<longleftrightarrow> l' < length (rs[k := Waits l key]) \<and> rs[k := Waits l key] ! l' = Leads key'"
    using table_okD(1) [OF assms(1), of key' l'] assms(2) by (cases "l' = k") auto
next
  fix m l' key'
  assume "m < length (rs[k := Waits l key])" "rs[k := Waits l key] ! m = Waits l' key'"
  then show "map_get fl key' = Some l'" using table_okD(2) [OF assms(1), of m] assms(3) by (cases "m = k") auto
qed

lemma table_ok_lead:
  assumes "table_ok rs fl" and "k < length rs" and "rs ! k = Aside" and "map_get fl key = None"
  shows "table_ok (rs[k := Leads key]) (map_put key k fl)"
  unfolding table_ok_def update_conv
proof (intro conjI allI impI)
  fix key' l'
  show "((map_of fl)(key \<mapsto> k)) key' = Some l' \<longleftrightarrow> l' < length (rs[k := Leads key]) \<and> rs[k := Leads key] ! l' = Leads key'"
    using table_okD(1) [OF assms(1), of key' l'] assms(2-4) by (cases "l' = k") auto
next
  fix m l' key'
  assume "m < length (rs[k := Leads key])" "rs[k := Leads key] ! m = Waits l' key'"
  then have "map_get fl key' = Some l'" using table_okD(2) [OF assms(1), of m] by (cases "m = k") auto
  then show "((map_of fl)(key \<mapsto> k)) key' = Some l'" using assms(4) by auto
qed

definition release :: "nat \<Rightarrow> role \<Rightarrow> role" where
  "release k r = (case r of Waits l key \<Rightarrow> if l = k then Aside else r | _ \<Rightarrow> r)"

lemma release_iff:
  "release k r = Leads key \<longleftrightarrow> r = Leads key" "release k r = Waits l key \<longleftrightarrow> l \<noteq> k \<and> r = Waits l key"
  by (cases r; auto simp: release_def)+

lemma table_ok_land:
  assumes "table_ok rs fl" and "k < length rs" and "rs ! k = Leads key"
  shows "table_ok ((map (release k) rs)[k := Aside]) (AList.delete key fl)"
  unfolding table_ok_def delete_conv
proof (intro conjI allI impI)
  have led: "map_get fl key = Some k" using table_okD(1) [OF assms(1)] assms(2,3) by blast
  fix key' l'
  show "((map_of fl)(key := None)) key' = Some l'
      \<longleftrightarrow> l' < length ((map (release k) rs)[k := Aside]) \<and> (map (release k) rs)[k := Aside] ! l' = Leads key'"
    using table_okD(1) [OF assms(1), of key' l'] assms(2,3) led by (cases "l' = k") (auto simp: release_iff)
next
  have led: "map_get fl key = Some k" using table_okD(1) [OF assms(1)] assms(2,3) by blast
  fix m l' key'
  assume "m < length ((map (release k) rs)[k := Aside])" "(map (release k) rs)[k := Aside] ! m = Waits l' key'"
  then have "l' \<noteq> k" "map_get fl key' = Some l'"
    using table_okD(2) [OF assms(1), of m] by (cases "m = k"; auto simp: release_iff)+
  then show "((map_of fl)(key := None)) key' = Some l'" using led by auto
qed

lemma table_ok_arrive:
  assumes "table_ok rs fl"
  shows "table_ok (rs @ [Aside]) fl"
  unfolding table_ok_def
proof (intro conjI allI impI)
  fix key l
  show "map_get fl key = Some l \<longleftrightarrow> l < length (rs @ [Aside]) \<and> (rs @ [Aside]) ! l = Leads key"
    using table_okD(1) [OF assms, of key l] by (cases "l < length rs") (auto simp: nth_append)
next
  fix m l key
  assume "m < length (rs @ [Aside])" "(rs @ [Aside]) ! m = Waits l key"
  then show "map_get fl key = Some l"
    using table_okD(2) [OF assms, of m l key] by (cases "m < length rs") (auto simp: nth_append less_Suc_eq)
qed

lemma role_deliver: "role_of e i (deliver k r th) = release k (role_of e i th)"
  by (cases th) (simp_all add: release_def)

lemma flights_ok_put:
  assumes "flights_ok e i p" and "k < length (prThreads p)" and "role_of e i th = role_of e i (prThreads p ! k)"
  shows "flights_ok e i (put_thread k th st p)"
proof -
  have "(map (role_of e i) (prThreads p))[k := role_of e i th] = map (role_of e i) (prThreads p)"
    using assms(2,3) by (metis list_update_id nth_map)
  then show ?thesis using assms(1) by (simp add: flights_ok_def map_update)
qed

lemma flights_ok_advance:
  assumes "advance e cfg i k p = Some p'" and "flights_ok e i p"
  shows "flights_ok e i p'"
proof -
  have k: "k < length (prThreads p)" using advance_in_range [OF assms(1)] .
  have ok: "table_ok (map (role_of e i) (prThreads p)) (prFlights p)" using assms(2) by (simp add: flights_ok_def)
  show ?thesis
    using assms(1)
  proof (cases rule: advance_cases)
    case (joins c l)
    then show ?thesis using table_ok_join [OF ok, of k] k by (simp add: flights_ok_def map_update)
  next
    case (leads c)
    then show ?thesis using table_ok_lead [OF ok, of k] k by (simp add: flights_ok_def map_update)
  next
    case (lands c ph r st)
    have "role_of e i \<circ> deliver k r = release k \<circ> role_of e i" by (simp add: fun_eq_iff role_deliver)
    then show ?thesis using table_ok_land [OF ok, of k "key_text e i c"] k lands(1) by (simp add: flights_ok_def map_update lands(3))
  qed (use assms(2) k in \<open>auto intro!: flights_ok_put split: option.splits\<close>)
qed

lemma flights_ok_step:
  assumes "process_step e cfg i p p'" and "flights_ok e i p"
  shows "flights_ok e i p'"
  using assms
  by (cases rule: process_step.cases) (auto simp: flights_ok_def table_ok_arrive intro: flights_ok_advance [unfolded flights_ok_def])

lemma flights_ok_execution:
  assumes "execution e cfg i (initial pm lastMod st) ps p"
  shows "flights_ok e i p"
  using assms
proof (induction rule: execution.induct)
  case begins
  show ?case by (simp add: flights_ok_def table_ok_def initial_def)
qed (rule flights_ok_step)

text \<open>Who leads and who waits, in terms of the threads.\<close>

lemma flights_ok_waiting:
  assumes "flights_ok e i p" and "k < length (prThreads p)" and "prThreads p ! k = Waiting l c"
  shows "l < length (prThreads p) \<and> (\<exists>c' ph. prThreads p ! l = Leading c' ph \<and> key_text e i c' = key_text e i c)"
proof -
  have ok: "table_ok (map (role_of e i) (prThreads p)) (prFlights p)" using assms(1) by (simp add: flights_ok_def)
  have "map_get (prFlights p) (key_text e i c) = Some l" using table_okD(2) [OF ok, of k] assms(2,3) by simp
  then have "l < length (prThreads p)" "role_of e i (prThreads p ! l) = Leads (key_text e i c)"
    using table_okD(1) [OF ok] by auto
  then show ?thesis by (cases "prThreads p ! l") auto
qed

lemma flights_ok_leading:
  assumes "flights_ok e i p" and "k < length (prThreads p)" and "prThreads p ! k = Leading c ph"
    and "l < length (prThreads p)" and "prThreads p ! l = Leading c' ph'" and "key_text e i c = key_text e i c'"
  shows "k = l"
proof -
  have ok: "table_ok (map (role_of e i) (prThreads p)) (prFlights p)" using assms(1) by (simp add: flights_ok_def)
  have "map_get (prFlights p) (key_text e i c) = Some k" "map_get (prFlights p) (key_text e i c') = Some l"
    using assms(2-5) table_okD(1) [OF ok, of "key_text e i c" k] table_okD(1) [OF ok, of "key_text e i c'" l] by auto
  then show ?thesis using assms(6) by simp
qed

end
