(* ===== verification/Broker_Progress.thy ===== *)
theory Broker_Progress
  imports Broker_Process
begin

text \<open>
  Every request is answered: each step of a thread uses up some of a bounded amount of work, and as long as
  a request has no answer some thread can step. Left alone, a thread does what the handler
  \<open>issueCertificate\<close> does.
\<close>

section \<open>Termination\<close>

fun check_work :: "check \<Rightarrow> nat" where
  "check_work CkAuthenticate = 11"
| "check_work CkParse = 10"
| "check_work CkAuthorize = 9"
| "check_work CkFingerprint = 8"
| "check_work CkRecord = 7"
| "check_work CkLimit = 6"

fun phase_work :: "flight_phase \<Rightarrow> nat" where
  "phase_work Look = 4"
| "phase_work Order = 3"
| "phase_work (Keep b) = 2"

fun work :: "thread \<Rightarrow> nat" where
  "work (Arrived r) = 12"
| "work (Checking ck c) = check_work ck"
| "work (Admitted c) = 5"
| "work (Leading c ph) = phase_work ph"
| "work (Waiting l c) = 2"
| "work (Obtained c r) = 1"
| "work (Answered c resp) = 0"

definition workload :: "'w process \<Rightarrow> nat" where
  "workload p = sum_list (map work (prThreads p))"

lemma work_le: "work th \<le> 12"
proof (cases th)
  case (Checking ck c)
  then show ?thesis by (cases ck) simp_all
next
  case (Leading c ph)
  then show ?thesis by (cases ph) simp_all
qed simp_all

lemma workload_le: "workload p \<le> 12 * length (prThreads p)"
proof -
  have "sum_list (map work ths) \<le> 12 * length ths" for ths
    by (induction ths) (simp_all add: work_le add_mono)
  then show ?thesis by (simp add: workload_def)
qed

lemma work_update: "k < length ths \<Longrightarrow> work th < work (ths ! k) \<Longrightarrow> sum_list (map work (ths[k := th])) < sum_list (map work ths)"
  by (induction ths arbitrary: k) (auto simp: nth_Cons split: nat.splits)

lemma work_deliver: "work (deliver k r th) \<le> work th"
  by (cases th) simp_all

lemma work_deliver_all: "sum_list (map work (map (deliver k r) ths)) \<le> sum_list (map work ths)"
  by (induction ths) (simp_all add: work_deliver add_mono)

lemma next_check_work: "next_check ck = Some ck' \<Longrightarrow> check_work ck' < check_work ck" "5 < check_work ck"
  by (cases ck; auto)+

lemma flight_step_work: "flight_step s c ph w = (Inl ph', w') \<Longrightarrow> phase_work ph' < phase_work ph"
  by (cases ph) (auto simp: flight_step_def Let_def split: prod.splits sum.splits option.splits if_splits)

lemma phase_work_pos: "1 < phase_work ph"
  by (cases ph) simp_all

lemma advance_works:
  assumes "advance e cfg i k p = Some p'"
  shows "workload p' < workload p"
  using assms
proof (cases rule: advance_cases)
  case (checked ck c c' st)
  have "work (case next_check ck of Some ck \<Rightarrow> Checking ck c' | None \<Rightarrow> Admitted c') < check_work ck"
    using next_check_work by (auto split: option.splits)
  then show ?thesis
    unfolding workload_def checked(3) put_thread_simps using advance_in_range [OF assms] checked(1) by (intro work_update) simp_all
next
  case (refused ck c resp st)
  have "5 < check_work ck" by (rule next_check_work)
  then show ?thesis
    unfolding workload_def refused(3) put_thread_simps using advance_in_range [OF assms] refused(1) by (intro work_update) simp_all
next
  case (flies c ph ph' st)
  then have "phase_work ph' < phase_work ph" by (auto simp: on_world_def split: prod.splits intro: flight_step_work)
  then show ?thesis
    unfolding workload_def flies(3) put_thread_simps using advance_in_range [OF assms] flies(1) by (intro work_update) simp_all
next
  case (lands c ph r st)
  let ?ths = "map (deliver k r) (prThreads p)"
  have "sum_list (map work (?ths[k := Obtained c r])) < sum_list (map work ?ths)"
    using advance_in_range [OF assms] lands(1) phase_work_pos by (intro work_update) simp_all
  then show ?thesis
    unfolding workload_def lands(3) land_simps using work_deliver_all [of k r "prThreads p"] by linarith
qed (simp_all add: workload_def, auto intro!: work_update advance_in_range [OF assms])

abbreviation thread_step ::
  "('c, 'z) serve_env \<Rightarrow> broker_config \<Rightarrow> 'z sys_scheme acme_issuer \<Rightarrow> 'z world process \<Rightarrow> 'z world process \<Rightarrow> bool" where
  "thread_step e cfg i \<equiv> \<lambda>p p'. \<exists>k. advance e cfg i k p = Some p'"

lemma thread_steps_bounded:
  assumes "(thread_step e cfg i ^^ n) p p'"
  shows "n + workload p' \<le> workload p"
  using assms
proof (induction n arbitrary: p')
  case (Suc n)
  then obtain q k where "(thread_step e cfg i ^^ n) p q" "advance e cfg i k q = Some p'" by auto
  then show ?case using Suc.IH advance_works by fastforce
qed simp

section \<open>Progress\<close>

lemma advance_possible:
  assumes "k < length (prThreads p)" and "\<forall>l c. prThreads p ! k \<noteq> Waiting l c" and "\<forall>c resp. prThreads p ! k \<noteq> Answered c resp"
  shows "\<exists>p'. advance e cfg i k p = Some p'"
proof (cases "prThreads p ! k")
  case (Checking ck c)
  then show ?thesis using assms(1)
    by (cases "run_check (production e cfg (prManager p) i) ck c (prState p)")
      (auto simp: advance_def advance_thread_def split: sum.splits)
next
  case (Leading c ph)
  then show ?thesis using assms(1)
    by (cases "on_world (flight_step (production e cfg (prManager p) i) c ph) (prState p)")
      (auto simp: advance_def advance_thread_def split: sum.splits)
qed (use assms in \<open>auto simp: advance_def advance_thread_def Let_def split: prod.splits option.splits\<close>)

lemma some_thread_steps:
  assumes "flights_ok e i p" and "k < length (prThreads p)" and "\<forall>c resp. prThreads p ! k \<noteq> Answered c resp"
  shows "\<exists>p'. thread_step e cfg i p p'"
proof (cases "\<exists>l c. prThreads p ! k = Waiting l c")
  case True
  then obtain l c where "prThreads p ! k = Waiting l c" by blast
  from flights_ok_waiting [OF assms(1,2) this] obtain c' ph where "l < length (prThreads p)" "prThreads p ! l = Leading c' ph" by blast
  then show ?thesis using advance_possible [of l p e cfg i] by auto
next
  case False
  then show ?thesis using advance_possible [OF assms(2)] assms(3) by blast
qed

definition all_answered :: "'w process \<Rightarrow> bool" where
  "all_answered p \<longleftrightarrow> (\<forall>th \<in> set (prThreads p). \<exists>c resp. th = Answered c resp)"

lemma steps_or_answered:
  assumes "flights_ok e i p"
  shows "all_answered p \<or> (\<exists>p'. thread_step e cfg i p p')"
proof (cases "all_answered p")
  case False
  then obtain k where "k < length (prThreads p)" "\<forall>c resp. prThreads p ! k \<noteq> Answered c resp"
    by (auto simp: all_answered_def in_set_conv_nth)
  from some_thread_steps [OF assms this] show ?thesis by blast
qed simp

lemma answered_eventually:
  assumes "flights_ok e i p"
  shows "\<exists>n p'. (thread_step e cfg i ^^ n) p p' \<and> all_answered p'"
  using assms
proof (induction "workload p" arbitrary: p rule: less_induct)
  case less
  show ?case
  proof (cases "all_answered p")
    case True
    then show ?thesis by (intro exI [of _ 0]) auto
  next
    case False
    then obtain k q where q: "advance e cfg i k p = Some q" using steps_or_answered [OF less.prems] by blast
    obtain n p' where "(thread_step e cfg i ^^ n) q p'" "all_answered p'"
      using less.hyps [OF advance_works [OF q] flights_ok_advance [OF q less.prems]] by blast
    then show ?thesis using q by (intro exI [of _ "Suc n"] exI [of _ p']) (auto simp: relpowp_Suc_left simp del: relpowp.simps)
  qed
qed

section \<open>A thread that is left alone\<close>

abbreviation own_step ::
  "('c, 'z) serve_env \<Rightarrow> broker_config \<Rightarrow> 'z sys_scheme acme_issuer \<Rightarrow> nat \<Rightarrow> 'z world process \<Rightarrow> 'z world process \<Rightarrow> bool" where
  "own_step e cfg i k \<equiv> \<lambda>p p'. advance e cfg i k p = Some p'"

text \<open>The checks from a given one on, and the function of a flight from a given phase on.\<close>

function checks_from :: "'w server \<Rightarrow> check \<Rightarrow> 'w step" where
  "checks_from s ck c st = and_then (run_check s ck c st)
     (case next_check ck of None \<Rightarrow> (\<lambda>c st. (Inr c, st)) | Some ck' \<Rightarrow> checks_from s ck')"
  by pat_completeness auto

termination
  by (relation "measure (\<lambda>(s, ck, c, st). check_work ck)") (auto dest: next_check_work(1))

declare checks_from.simps [simp del]

function fly :: "'w server \<Rightarrow> request_context \<Rightarrow> flight_phase \<Rightarrow> 'w \<Rightarrow> flight_result \<times> 'w" where
  "fly s c ph w = (case flight_step s c ph w of (Inr r, w) \<Rightarrow> (r, w) | (Inl ph', w) \<Rightarrow> fly s c ph' w)"
  by pat_completeness auto

termination
  by (relation "measure (\<lambda>(s, c, ph, w). phase_work ph)") (auto dest!: flight_step_work [OF sym])

declare fly.simps [simp del]

lemma and_then_assoc: "and_then (and_then m f) g = and_then m (\<lambda>x st. and_then (f x st) g)"
  by (auto simp: and_then_def split: prod.splits sum.splits)

lemma and_then_return: "and_then m (\<lambda>x st. (Inr x, st)) = m"
  by (auto simp: and_then_def split: prod.splits sum.splits)

lemma checks_from_next:
  "checks_from s ck = (\<lambda>c st. and_then (run_check s ck c st)
     (case next_check ck of None \<Rightarrow> (\<lambda>c st. (Inr c, st)) | Some ck' \<Rightarrow> checks_from s ck'))"
  by (simp add: fun_eq_iff checks_from.simps)

lemma checks_from_admit: "checks_from s CkAuthenticate c st = admit s c st"
  by (simp add: admit_def checks_from_next [of s CkAuthenticate] checks_from_next [of s CkParse] checks_from_next [of s CkAuthorize]
      checks_from_next [of s CkFingerprint] checks_from_next [of s CkRecord] checks_from_next [of s CkLimit] and_then_assoc and_then_return)

lemma fly_issueOrLoad: "fly s c Look w = issueOrLoad s (flight_key s c) (context_profile c) (cCSRPEM c) w"
  by (simp add: fly.simps [of s c Look] fly.simps [of s c Order] fly.simps [of s c "Keep b" for b] flight_step_def issueOrLoad_def Let_def
      split: prod.split sum.split option.split)

text \<open>The answer of the handler once its result is there.\<close>

definition reply :: "(http_response, issued_result) result \<times> 'w broker_state \<Rightarrow> http_response \<times> 'w broker_state" where
  "reply m = (case m of (Inl resp, st) \<Rightarrow> (resp, st)
     | (Inr issued, st) \<Rightarrow> (writeJSON 200 (issue_response_json (newIssueResponse issued)), st))"

lemma fulfil_settle:
  assumes "seFlight e = (\<lambda>key f w. f w)"
  shows "reply (fulfil (production e cfg pm i) c st)
    = (case fly (production e cfg pm i) c Look (bsWorld st) of (r, w) \<Rightarrow> settle (production e cfg pm i) c r (st\<lparr>bsWorld := w\<rparr>))"
proof -
  let ?s = "production e cfg pm i"
  obtain r w where 1: "issueOrLoad ?s (flight_key ?s c) (context_profile c) (cCSRPEM c) (bsWorld st) = (r, w)"
    by (cases "issueOrLoad ?s (flight_key ?s c) (context_profile c) (cCSRPEM c) (bsWorld st)")
  then show ?thesis
    using assms unfolding fly_issueOrLoad
    by (auto simp: fulfil_def reply_def settle_def flight_call_def issueOrLoadWithSingleflight_def on_world_def and_then_def Let_def
        context_profile_def [symmetric] flight_key_def [symmetric] split: prod.splits sum.splits)
qed

lemma put_put [simp]: "put_thread k th st (put_thread k th' st' p) = put_thread k th st p"
  by (simp add: put_thread_def)

lemma put_here: "k < length (prThreads p) \<Longrightarrow> prThreads p ! k = th \<Longrightarrow> p = put_thread k th (prState p) p"
  by (auto simp: put_thread_def)

lemma own_checks:
  assumes "k < length (prThreads p)" and "checks_from (production e cfg (prManager p) i) ck c st = (r, st')"
  shows "\<exists>c'. (own_step e cfg i k)\<^sup>*\<^sup>* (put_thread k (Checking ck c) st p)
     (put_thread k (case r of Inl resp \<Rightarrow> Answered c' resp | Inr c \<Rightarrow> Admitted c) st' p)"
  using assms(2)
proof (induction "production e cfg (prManager p) i" ck c st rule: checks_from.induct)
  case (1 ck c st)
  let ?s = "production e cfg (prManager p) i"
  let ?p = "put_thread k (Checking ck c) st p"
  show ?case
  proof (cases "run_check ?s ck c st")
    case (Pair x st1)
    show ?thesis
    proof (cases x)
      case (Inl resp)
      then have "r = Inl resp" "st' = st1" using 1(2) Pair by (simp_all add: checks_from.simps [of _ ck] and_then_def)
      moreover have "own_step e cfg i k ?p (put_thread k (Answered c resp) st1 p)"
        using assms(1) Pair Inl by (simp add: advance_def advance_thread_def)
      ultimately show ?thesis by auto
    next
      case (Inr c1)
      let ?q = "put_thread k (case next_check ck of Some ck \<Rightarrow> Checking ck c1 | None \<Rightarrow> Admitted c1) st1 p"
      have step: "own_step e cfg i k ?p ?q" using assms(1) Pair Inr by (simp add: advance_def advance_thread_def)
      show ?thesis
      proof (cases "next_check ck")
        case None
        then have "r = Inr c1" "st' = st1" using 1(2) Pair Inr by (simp_all add: checks_from.simps [of _ ck] and_then_def)
        then show ?thesis using step None by auto
      next
        case (Some ck')
        then have "checks_from ?s ck' c1 st1 = (r, st')"
          using 1(2) Pair Inr by (simp add: checks_from.simps [of _ ck] and_then_def)
        from 1(1) [OF Some this] step Some show ?thesis by (auto intro: converse_rtranclp_into_rtranclp)
      qed
    qed
  qed
qed

text \<open>In flight alone: the table has one entry and nobody waits for it.\<close>

lemma deliver_unawaited: "(\<forall>c. th \<noteq> Waiting k c) \<Longrightarrow> deliver k r th = th"
  by (cases th) auto

lemma land_alone:
  assumes "prFlights p = []" and "\<forall>th \<in> set (prThreads p). \<forall>c. th \<noteq> Waiting k c"
  shows "land k key c r st ((put_thread k (Leading c ph) st' p)\<lparr>prFlights := [(key, k)]\<rparr>) = put_thread k (Obtained c r) st p"
proof -
  have "map (deliver k r) (prThreads p) = prThreads p" using assms(2) by (intro map_idI deliver_unawaited) simp
  then show ?thesis using assms(1) by (simp add: land_def put_thread_def map_update)
qed

lemma own_flight:
  assumes "k < length (prThreads p)" and "prFlights p = []" and "\<forall>th \<in> set (prThreads p). \<forall>c. th \<noteq> Waiting k c"
    and "fly (production e cfg (prManager p) i) c ph (bsWorld st) = (r, w)"
  shows "(own_step e cfg i k)\<^sup>*\<^sup>* ((put_thread k (Leading c ph) st p)\<lparr>prFlights := [(key_text e i c, k)]\<rparr>)
     (put_thread k (Obtained c r) (st\<lparr>bsWorld := w\<rparr>) p)"
  using assms(4)
proof (induction "production e cfg (prManager p) i" c ph "bsWorld st" arbitrary: st rule: fly.induct)
  case (1 c ph st)
  let ?s = "production e cfg (prManager p) i"
  let ?p = "\<lambda>ph st. (put_thread k (Leading c ph) st p)\<lparr>prFlights := [(key_text e i c, k)]\<rparr>"
  obtain x w1 where x: "flight_step ?s c ph (bsWorld st) = (x, w1)" by (cases "flight_step ?s c ph (bsWorld st)")
  have adv: "advance e cfg i k (?p ph st) = (case x of Inl ph' \<Rightarrow> Some (?p ph' (st\<lparr>bsWorld := w1\<rparr>))
      | Inr r \<Rightarrow> Some (put_thread k (Obtained c r) (st\<lparr>bsWorld := w1\<rparr>) p))"
    using assms(1) x land_alone [OF assms(2,3)]
    by (simp add: advance_def advance_thread_def on_world_def flight_key_production put_thread_def split: sum.split)
  show ?case
  proof (cases x)
    case (Inr r')
    then have "r' = r" "w1 = w" using 1(2) x by (simp_all add: fly.simps [of ?s c ph])
    then show ?thesis using adv Inr by auto
  next
    case (Inl ph')
    then have "fly ?s c ph' w1 = (r, w)" using 1(2) x by (simp add: fly.simps [of ?s c ph])
    then have "(own_step e cfg i k)\<^sup>*\<^sup>* (?p ph' (st\<lparr>bsWorld := w1\<rparr>)) (put_thread k (Obtained c r) (st\<lparr>bsWorld := w\<rparr>) p)"
      using 1(1) [of x "st\<lparr>bsWorld := w1\<rparr>" ph'] x Inl by simp
    then show ?thesis using adv Inl by (auto intro: converse_rtranclp_into_rtranclp)
  qed
qed

lemma own_fulfil:
  assumes "k < length (prThreads p)" and "prFlights p = []" and "\<forall>th \<in> set (prThreads p). \<forall>c. th \<noteq> Waiting k c"
    and "fly (production e cfg (prManager p) i) c Look (bsWorld st) = (r, w)"
    and "settle (production e cfg (prManager p) i) c r (st\<lparr>bsWorld := w\<rparr>) = (resp, st')"
  shows "(own_step e cfg i k)\<^sup>*\<^sup>* (put_thread k (Admitted c) st p) (put_thread k (Answered c resp) st' p)"
proof -
  have "own_step e cfg i k (put_thread k (Admitted c) st p) ((put_thread k (Leading c Look) st p)\<lparr>prFlights := [(key_text e i c, k)]\<rparr>)"
    using assms(1,2) by (simp add: advance_def advance_thread_def flight_key_production Let_def)
  moreover have "own_step e cfg i k (put_thread k (Obtained c r) (st\<lparr>bsWorld := w\<rparr>) p) (put_thread k (Answered c resp) st' p)"
    using assms(1,5) by (simp add: advance_def advance_thread_def)
  ultimately show ?thesis
    using own_flight [OF assms(1-4)] by (meson converse_rtranclp_into_rtranclp rtranclp.rtrancl_into_rtrancl)
qed

lemma handler_as_thread:
  assumes "seFlight e = (\<lambda>key f w. f w)" and "k < length (prThreads p)" and "prThreads p ! k = Arrived req" and "prFlights p = []"
    and "\<forall>th \<in> set (prThreads p). \<forall>c. th \<noteq> Waiting k c"
    and "issueCertificate (production e cfg (prManager p) i) req (prState p) = (resp, st')"
  shows "\<exists>c. (own_step e cfg i k)\<^sup>*\<^sup>* p (put_thread k (Answered c resp) st' p)"
proof -
  let ?s = "production e cfg (prManager p) i"
  obtain j st1 where j: "on_world (NewID (srvEnv ?s) ''req_'') (prState p) = (j, st1)"
    by (cases "on_world (NewID (srvEnv ?s) ''req_'') (prState p)")
  show ?thesis
  proof (cases j)
    case None
    then have "own_step e cfg i k p (put_thread k (Answered (new_context [] req) resp) st' p)"
      using assms(2,3,6) j by (simp add: advance_def advance_thread_def issueCertificate_def)
    then show ?thesis by blast
  next
    case (Some rid)
    let ?c = "new_context rid req"
    have start: "own_step e cfg i k p (put_thread k (Checking CkAuthenticate ?c) st1 p)"
      using assms(2,3) j Some by (simp add: advance_def advance_thread_def)
    obtain a st2 where a: "checks_from ?s CkAuthenticate ?c st1 = (a, st2)" by (cases "checks_from ?s CkAuthenticate ?c st1")
    have I: "(resp, st') = reply (and_then (a, st2) (fulfil ?s))"
      using assms(6) j Some a by (simp add: issueCertificate_def checks_from_admit reply_def)
    obtain c where c: "(own_step e cfg i k)\<^sup>*\<^sup>* (put_thread k (Checking CkAuthenticate ?c) st1 p)
        (put_thread k (case a of Inl resp \<Rightarrow> Answered c resp | Inr c \<Rightarrow> Admitted c) st2 p)"
      using own_checks [OF assms(2) a] by blast
    show ?thesis
    proof (cases a)
      case (Inl x)
      then have "resp = x" "st' = st2" using I by (simp_all add: and_then_def reply_def)
      then show ?thesis using start c Inl by (auto intro: converse_rtranclp_into_rtranclp)
    next
      case (Inr c2)
      obtain r w where r: "fly ?s c2 Look (bsWorld st2) = (r, w)" by (cases "fly ?s c2 Look (bsWorld st2)")
      have "settle ?s c2 r (st2\<lparr>bsWorld := w\<rparr>) = (resp, st')"
        using I Inr r fulfil_settle [OF assms(1), of cfg "prManager p" i c2 st2] by (simp add: and_then_def)
      note own_fulfil [OF assms(2,4,5) r this]
      moreover have "(own_step e cfg i k)\<^sup>*\<^sup>* (put_thread k (Checking CkAuthenticate ?c) st1 p) (put_thread k (Admitted c2) st2 p)"
        using c Inr by simp
      ultimately show ?thesis using start by (meson converse_rtranclp_into_rtranclp rtranclp_trans)
    qed
  qed
qed

end
