(* ===== verification/Broker_Interleaving.thy ===== *)
theory Broker_Interleaving
  imports Broker_Progress
begin

text \<open>
  What holds of every execution of the broker, whatever arrives, however the threads interleave and whenever
  the policy changes: what each thread knows of its request (an invariant over the states so far), and
  which calls of the limiter it rests on.
\<close>

section \<open>What a step does\<close>

definition grows :: "'z world broker_state \<Rightarrow> 'z world broker_state \<Rightarrow> bool" where
  "grows st st' \<longleftrightarrow> wClock (bsWorld st) \<le> wClock (bsWorld st')
     \<and> (\<exists>t. audit_rows (bsWorld st') = audit_rows (bsWorld st) @ t)"

lemma grows_refl [simp]: "grows st st"
  by (simp add: grows_def)

text \<open>Where the result of a flight comes from: a function that was run under the same key.\<close>

definition sourced :: "('c, 'z) serve_env \<Rightarrow> 'z sys_scheme acme_issuer \<Rightarrow> string \<Rightarrow> issued_result \<Rightarrow> bool" where
  "sourced e i text issued \<longleftrightarrow> (\<exists>key profile csrPEM. CertificateCacheKey_String key = text
     \<and> (irCache issued = ''hit'' \<and> from_cache key profile (irBundle issued)
        \<or> irCache issued = ''miss'' \<and> from_issuer e i profile csrPEM (irBundle issued)))"

lemma sourced_hit: "CertificateCacheKey_String key = text \<Longrightarrow> from_cache key profile b \<Longrightarrow> sourced e i text \<lparr>irBundle = b, irCache = ''hit''\<rparr>"
  unfolding sourced_def by auto

lemma sourced_miss: "CertificateCacheKey_String key = text \<Longrightarrow> from_issuer e i profile csrPEM b \<Longrightarrow> sourced e i text \<lparr>irBundle = b, irCache = ''miss''\<rparr>"
  unfolding sourced_def by auto

abbreviation fail_closed :: "broker_config \<Rightarrow> bool" where
  "fail_closed cfg \<equiv> auFailureMode (bcAudit cfg) = ''fail_closed''"

context recording
begin

lemma must_audit_recording: "must_audit (production e cfg pm i) \<longleftrightarrow> fail_closed cfg"
  by (simp add: must_audit_def)

lemma new_id_outcome:
  assumes "on_world (NewID (world_env e) ''req_'') st = (j, st')"
  shows "grows st st' \<and> bsLimiter st' = bsLimiter st \<and> (\<forall>rid. j = Some rid \<longrightarrow> rid \<noteq> [])"
proof -
  obtain x w where x: "NewID (srvEnv (production e cfg pm i)) ''req_'' (bsWorld st) = (x, w)"
    by (cases "NewID (srvEnv (production e cfg pm i)) ''req_'' (bsWorld st)")
  then have "st' = st\<lparr>bsWorld := w\<rparr>" "j = x" using assms by (simp_all add: on_world_def)
  moreover have "\<forall>rid. x = Some rid \<longrightarrow> rid \<noteq> []" using x by (auto simp: NewID_def split: prod.splits option.splits)
  ultimately show ?thesis using NewID_quiet [OF x] by (simp add: grows_def quiet_def)
qed

lemma limit_outcome:
  assumes "run_check (production e cfg pm i) CkLimit c st = (r, st')"
  shows "\<exists>now err. wClock (bsWorld st) \<le> now \<and> now \<le> wClock (bsWorld st')
     \<and> Allow now (cIdentity c) (cProfileName c) (bsLimiter st) = (err, bsLimiter st')
     \<and> (case r of Inl resp \<Rightarrow> err \<noteq> None | Inr c' \<Rightarrow> c' = c \<and> err = None)"
  using ratelimit_outcome [of c st r st'] assms by (auto split: sum.splits)

lemma check_outcome:
  assumes "run_check (production e cfg pm i) ck c st = (r, st')" and "cRequestID c \<noteq> []"
  shows "grows st st' \<and> (ck \<noteq> CkLimit \<longrightarrow> bsLimiter st' = bsLimiter st) \<and> (\<forall>resp. r = Inl resp \<longrightarrow> respStatus resp \<noteq> 200)"
proof (cases ck)
  case CkAuthenticate
  then show ?thesis using authenticate_outcome [of c st r st'] assms by (auto simp: grows_def step_ok_def noted_def)
next
  case CkParse
  then show ?thesis using parse_outcome [of c st r st'] assms by (auto simp: grows_def step_ok_def noted_def)
next
  case CkAuthorize
  then show ?thesis using authorize_outcome [of c st r st'] assms by (auto simp: grows_def step_ok_def noted_def)
next
  case CkFingerprint
  then show ?thesis using fingerprint_outcome [of c st r st'] assms by (auto simp: grows_def step_ok_def noted_def)
next
  case CkRecord
  then show ?thesis using authorized_outcome [of c st r st'] assms by (auto simp: grows_def step_ok_def noted_def)
next
  case CkLimit
  then show ?thesis using ratelimit_outcome [of c st r st'] assms by (auto simp: grows_def noted_def)
qed

lemma settle_outcome:
  assumes "settle (production e cfg pm i) c r st = (resp, st')" and "cRequestID c \<noteq> []"
  shows "grows st st' \<and> bsLimiter st' = bsLimiter st \<and> (respStatus resp = 200 \<longrightarrow> (\<exists>issued. r = Inr issued
     \<and> resp = writeJSON 200 (issue_response_json (newIssueResponse issued))
     \<and> (fail_closed cfg \<longrightarrow> (\<exists>ev. result_event c issued ev
          \<and> audit_rows (bsWorld st') = audit_rows (bsWorld st) @ [insertAuditEventSQL ev]))))"
proof (cases r)
  case (Inl err)
  then show ?thesis
    using assms audit_note_noted [of "bsWorld st" c EventCertificateIssueFailed SeverityError DecisionError ReasonIssuerFailed "Some err"]
    by (auto simp: settle_def on_world_def grows_def noted_def writeError_def writeJSON_def)
next
  case (Inr issued)
  obtain x st1 where x: "recordIssuedResult (production e cfg pm i) c issued st = (x, st1)"
    by (cases "recordIssuedResult (production e cfg pm i) c issued st")
  show ?thesis
    using assms(1) x Inr recordIssued_outcome [OF x assms(2)]
    by (auto simp: settle_def grows_def grown_def must_audit_recording split: sum.splits)
qed

lemma flight_step_outcome:
  assumes "flight_step (production e cfg pm i) c ph w = (x, w')"
    and "\<forall>b. ph = Keep b \<longrightarrow> from_issuer e i (context_profile c) (cCSRPEM c) b"
  shows "wClock w \<le> wClock w' \<and> audit_rows w' = audit_rows w
     \<and> (\<forall>b. x = Inl (Keep b) \<longrightarrow> from_issuer e i (context_profile c) (cCSRPEM c) b)
     \<and> (\<forall>issued. x = Inr (Inr issued) \<longrightarrow> sourced e i (key_text e i c) issued)"
proof (cases ph)
  case Look
  let ?k = "flight_key (production e cfg pm i) c"
  obtain g w1 where g: "sifGet (bstStore sqlite_store) ?k (profRenewBefore (context_profile c)) w = (g, w1)"
    by (cases "sifGet (bstStore sqlite_store) ?k (profRenewBefore (context_profile c)) w")
  obtain now where now: "GetValidCertificate now ?k (profRenewBefore (context_profile c)) (wDb w) = (g, wDb w1)"
    "wClock w \<le> wClock w1" "audit_rows w1 = audit_rows w" using g by (rule store_get_outcome)
  have "from_cache ?k (context_profile c) b" if "g = Inr b" for b
    using sq.get_hit now(1) that unfolding from_cache_def by fastforce
  then have "sourced e i (key_text e i c) \<lparr>irBundle = b, irCache = ''hit''\<rparr>" if "g = Inr b" for b
    using that sourced_hit [OF flight_key_production] by blast
  then show ?thesis
    using assms(1) Look g now(2,3) by (auto simp: flight_step_def Let_def split: sum.splits if_splits)
next
  case Order
  let ?o = "order_for (context_profile c) (cCSRPEM c)"
  obtain b w1 where b: "issIssue (world_issuer (acme_iface (seCrypto e) (seLego e) i)) ?o w = (b, w1)"
    by (cases "issIssue (world_issuer (acme_iface (seCrypto e) (seLego e) i)) ?o w")
  note o = world_issue_outcome [OF b]
  then have "acme_Issue (seCrypto e) (seLego e) i ?o (wSys w) = (b, wSys w1)" by (simp add: acme_iface_def)
  then have "from_issuer e i (context_profile c) (cCSRPEM c) bdl" if "b = Inr bdl" for bdl
    using that unfolding from_issuer_def by blast
  then show ?thesis using assms(1) Order b o by (auto simp: flight_step_def Let_def split: sum.splits)
next
  case (Keep bdl)
  obtain q w1 where q: "sifPut (bstStore sqlite_store) (flight_key (production e cfg pm i) c) bdl w = (q, w1)"
    by (cases "sifPut (bstStore sqlite_store) (flight_key (production e cfg pm i) c) bdl w")
  have "from_issuer e i (context_profile c) (cCSRPEM c) bdl" using assms(2) Keep by simp
  then have "sourced e i (key_text e i c) \<lparr>irBundle = bdl, irCache = ''miss''\<rparr>"
    by (rule sourced_miss [OF flight_key_production])
  moreover have "wClock w \<le> wClock w1" "audit_rows w1 = audit_rows w" using q by (auto elim: store_put_outcome)
  ultimately show ?thesis using assms(1) Keep q by (auto simp: flight_step_def Let_def split: option.splits)
qed

lemma flight_world_outcome:
  assumes "on_world (flight_step (production e cfg pm i) c ph) st = (x, st')"
    and "\<forall>b. ph = Keep b \<longrightarrow> from_issuer e i (context_profile c) (cCSRPEM c) b"
  shows "grows st st' \<and> bsLimiter st' = bsLimiter st \<and> audit_rows (bsWorld st') = audit_rows (bsWorld st)
     \<and> (\<forall>b. x = Inl (Keep b) \<longrightarrow> from_issuer e i (context_profile c) (cCSRPEM c) b)
     \<and> (\<forall>issued. x = Inr (Inr issued) \<longrightarrow> sourced e i (key_text e i c) issued)"
proof -
  obtain w where w: "flight_step (production e cfg pm i) c ph (bsWorld st) = (x, w)" "st' = st\<lparr>bsWorld := w\<rparr>"
    using assms(1) by (auto simp: on_world_def split: prod.splits)
  from flight_step_outcome [OF w(1) assms(2)] show ?thesis by (simp add: grows_def w(2))
qed

end

section \<open>What a thread knows\<close>

fun check_rank :: "check \<Rightarrow> nat" where
  "check_rank CkAuthenticate = 0"
| "check_rank CkParse = 1"
| "check_rank CkAuthorize = 2"
| "check_rank CkFingerprint = 3"
| "check_rank CkRecord = 4"
| "check_rank CkLimit = 5"

definition identified :: "request_context \<Rightarrow> bool" where
  "identified c \<longleftrightarrow> (\<exists>now. IdentityFromRequest now (cRequest c) = Inr (cIdentity c))"

definition well_formed :: "('c, 'z) serve_env \<Rightarrow> request_context \<Rightarrow> bool" where
  "well_formed e c \<longleftrightarrow> (\<exists>body csr. read_body (cRequest c) = Inr body
     \<and> seUnmarshal e body = Some \<lparr>iqProfile = cProfileName c, iqCSRPEM = cCSRPEM c\<rparr>
     \<and> cProfileName c \<noteq> [] \<and> cCSRPEM c \<noteq> []
     \<and> ParseCSRPEM (seCrypto e) (cCSRPEM c) = Inr csr \<and> cCSR c = Some csr)"

definition permitted :: "manager set \<Rightarrow> request_context \<Rightarrow> bool" where
  "permitted M c \<longleftrightarrow> (\<exists>pm \<in> M. \<exists>pol profile. Current pm = Some pol \<and> cPolicy c = Some pol \<and> cProfile c = Some profile
     \<and> Authorize pol (cIdentity c) (cProfileName c) (cCSR c) = (Some profile, None))"

definition fingerprinted :: "('c, 'z) serve_env \<Rightarrow> request_context \<Rightarrow> bool" where
  "fingerprinted e c \<longleftrightarrow> (\<exists>csr. cCSR c = Some csr \<and> PublicKeyFingerprint (seCrypto e) (csrPublicKey csr) = Inr (cPublicKeyFP c))"

definition recorded :: "audit_row list \<Rightarrow> request_context \<Rightarrow> bool" where
  "recorded rows c \<longleftrightarrow> (\<exists>m < length rows. \<exists>ev. event_about c EventCertificateAuthorized ev \<and> rows ! m = insertAuditEventSQL ev)"

text \<open>After \<open>n\<close> of the checks, with the managers \<open>M\<close> the process had since the request arrived.\<close>

definition known ::
  "('c, 'z) serve_env \<Rightarrow> broker_config \<Rightarrow> manager set \<Rightarrow> audit_row list \<Rightarrow> nat \<Rightarrow> request_context \<Rightarrow> bool" where
  "known e cfg M rows n c \<longleftrightarrow> cRequestID c \<noteq> [] \<and> (1 \<le> n \<longrightarrow> identified c) \<and> (2 \<le> n \<longrightarrow> well_formed e c)
     \<and> (3 \<le> n \<longrightarrow> permitted M c) \<and> (4 \<le> n \<longrightarrow> fingerprinted e c) \<and> (5 \<le> n \<and> fail_closed cfg \<longrightarrow> recorded rows c)"

lemma known_granted:
  assumes "known e cfg M rows 5 c"
  shows "\<exists>pm \<in> M. \<exists>now profile. granted (production e cfg pm i) (cRequest c) now profile c"
proof -
  obtain now where 1: "IdentityFromRequest now (cRequest c) = Inr (cIdentity c)" using assms by (auto simp: known_def identified_def)
  obtain body csr where 2: "read_body (cRequest c) = Inr body"
    "seUnmarshal e body = Some \<lparr>iqProfile = cProfileName c, iqCSRPEM = cCSRPEM c\<rparr>" "cProfileName c \<noteq> []" "cCSRPEM c \<noteq> []"
    "ParseCSRPEM (seCrypto e) (cCSRPEM c) = Inr csr" "cCSR c = Some csr" using assms by (auto simp: known_def well_formed_def)
  obtain pm pol profile where 3: "pm \<in> M" "Current pm = Some pol" "cPolicy c = Some pol" "cProfile c = Some profile"
    "Authorize pol (cIdentity c) (cProfileName c) (cCSR c) = (Some profile, None)" using assms by (auto simp: known_def permitted_def)
  have 4: "PublicKeyFingerprint (seCrypto e) (csrPublicKey csr) = Inr (cPublicKeyFP c)"
    using assms 2(6) by (auto simp: known_def fingerprinted_def)
  have "granted (production e cfg pm i) (cRequest c) now profile c" using 1 2 3 4 by (simp add: granted_def)
  with 3(1) show ?thesis by blast
qed

lemma recorded_grow: "recorded rows c \<Longrightarrow> recorded (rows @ t) c"
  unfolding recorded_def by (metis length_append nth_append trans_less_add1)

lemma known_mono:
  assumes "known e cfg M rows n c" and "M \<subseteq> M'"
  shows "known e cfg M' (rows @ t) n c"
  using assms recorded_grow unfolding known_def permitted_def by blast

context recording
begin

lemma check_known:
  assumes "run_check (production e cfg pm i) ck c st = (Inr c', st')" and "pm \<in> M"
    and "known e cfg M (audit_rows (bsWorld st)) (check_rank ck) c"
  shows "known e cfg M (audit_rows (bsWorld st')) (min 5 (Suc (check_rank ck))) c'"
proof -
  have id: "cRequestID c \<noteq> []" using assms(3) by (simp add: known_def)
  obtain t where t: "audit_rows (bsWorld st') = audit_rows (bsWorld st) @ t"
    using check_outcome [OF assms(1) id] by (auto simp: grows_def)
  have q: "q = \<lparr>iqProfile = iqProfile q, iqCSRPEM = iqCSRPEM q\<rparr>" for q :: issue_request by simp
  show ?thesis
  proof (cases ck)
    case CkAuthenticate
    then show ?thesis using authenticate_outcome [of c st "Inr c'" st'] assms by (auto simp: known_def identified_def)
  next
    case CkParse
    then show ?thesis using parse_outcome [of c st "Inr c'" st'] assms q by (auto simp: known_def identified_def well_formed_def)
  next
    case CkAuthorize
    then obtain pol profile where p: "Current pm = Some pol" "Authorize pol (cIdentity c) (cProfileName c) (cCSR c) = (profile, None)"
      "c' = c\<lparr>cPolicy := Some pol, cProfile := profile\<rparr>" using authorize_outcome [of c st "Inr c'" st'] assms(1) by auto
    obtain csr where "cCSR c = Some csr" using assms(3) CkAuthorize by (auto simp: known_def well_formed_def)
    then obtain pr where "profile = Some pr" using Authorize_profile p(2) by metis
    then have "permitted M c'" using p assms(2) unfolding permitted_def by auto
    then show ?thesis using assms(3) p(3) CkAuthorize by (simp add: known_def identified_def well_formed_def)
  next
    case CkFingerprint
    then show ?thesis
      using fingerprint_outcome [of c st "Inr c'" st'] assms
      by (auto simp: known_def identified_def well_formed_def permitted_def fingerprinted_def)
  next
    case CkRecord
    then have "c' = c" "fail_closed cfg \<longrightarrow> recorded (audit_rows (bsWorld st')) c"
      using authorized_outcome [OF _ id, of st "Inr c'" st'] assms(1)
      by (auto simp: must_audit_recording recorded_def intro!: exI [of _ "length (audit_rows (bsWorld st))"])
    then show ?thesis using assms(3) CkRecord by (simp add: known_def)
  next
    case CkLimit
    then have "c' = c" using limit_outcome assms(1) by fastforce
    then show ?thesis using known_mono [OF assms(3) order_refl, of t] CkLimit t by simp
  qed
qed

end

section \<open>The invariant\<close>

text \<open>
  An answer with a certificate: the checks were passed, the certificate comes from a function run under the
  key of the request, and the log has the authorisation and, after it, the result.
\<close>

definition audited_answer :: "audit_row list \<Rightarrow> request_context \<Rightarrow> issued_result \<Rightarrow> bool" where
  "audited_answer rows c issued \<longleftrightarrow> (\<exists>m n ev1 ev2. m < n \<and> n < length rows
     \<and> event_about c EventCertificateAuthorized ev1 \<and> rows ! m = insertAuditEventSQL ev1
     \<and> result_event c issued ev2 \<and> rows ! n = insertAuditEventSQL ev2)"

definition answer_ok ::
  "('c, 'z) serve_env \<Rightarrow> broker_config \<Rightarrow> 'z sys_scheme acme_issuer \<Rightarrow> manager set \<Rightarrow> audit_row list
   \<Rightarrow> request_context \<Rightarrow> http_response \<Rightarrow> bool" where
  "answer_ok e cfg i M rows c resp \<longleftrightarrow> (respStatus resp = 200 \<longrightarrow> known e cfg M rows 5 c
     \<and> (\<exists>issued. resp = writeJSON 200 (issue_response_json (newIssueResponse issued)) \<and> sourced e i (key_text e i c) issued
          \<and> (fail_closed cfg \<longrightarrow> audited_answer rows c issued)))"

fun thread_ok ::
  "('c, 'z) serve_env \<Rightarrow> broker_config \<Rightarrow> 'z sys_scheme acme_issuer \<Rightarrow> manager set \<Rightarrow> audit_row list \<Rightarrow> thread \<Rightarrow> bool" where
  "thread_ok e cfg i M rows (Arrived r) \<longleftrightarrow> True"
| "thread_ok e cfg i M rows (Checking ck c) \<longleftrightarrow> known e cfg M rows (check_rank ck) c"
| "thread_ok e cfg i M rows (Admitted c) \<longleftrightarrow> known e cfg M rows 5 c"
| "thread_ok e cfg i M rows (Leading c ph) \<longleftrightarrow> known e cfg M rows 5 c
     \<and> (\<forall>b. ph = Keep b \<longrightarrow> from_issuer e i (context_profile c) (cCSRPEM c) b)"
| "thread_ok e cfg i M rows (Waiting l c) \<longleftrightarrow> known e cfg M rows 5 c"
| "thread_ok e cfg i M rows (Obtained c r) \<longleftrightarrow> known e cfg M rows 5 c
     \<and> (\<forall>issued. r = Inr issued \<longrightarrow> sourced e i (key_text e i c) issued)"
| "thread_ok e cfg i M rows (Answered c resp) \<longleftrightarrow> answer_ok e cfg i M rows c resp"

lemma audited_grow:
  assumes "audited_answer rows c issued"
  shows "audited_answer (rows @ t) c issued"
proof -
  obtain m n ev1 ev2 where "m < n" "n < length rows" "event_about c EventCertificateAuthorized ev1" "rows ! m = insertAuditEventSQL ev1"
    "result_event c issued ev2" "rows ! n = insertAuditEventSQL ev2" using assms unfolding audited_answer_def by blast
  then show ?thesis
    unfolding audited_answer_def by (intro exI [of _ m] exI [of _ n] exI [of _ ev1] exI [of _ ev2]) (simp add: nth_append)
qed

lemma thread_ok_mono:
  assumes "thread_ok e cfg i M rows th" and "M \<subseteq> M'"
  shows "thread_ok e cfg i M' (rows @ t) th"
  using assms known_mono [OF _ assms(2)] audited_grow by (cases th) (auto simp: answer_ok_def)

lemma audited_answerI:
  assumes "recorded rows c" and "result_event c issued ev"
  shows "audited_answer (rows @ [insertAuditEventSQL ev]) c issued"
proof -
  obtain m ev1 where "m < length rows" "event_about c EventCertificateAuthorized ev1" "rows ! m = insertAuditEventSQL ev1"
    using assms(1) unfolding recorded_def by blast
  then show ?thesis
    using assms(2) unfolding audited_answer_def
    by (intro exI [of _ m] exI [of _ "length rows"] exI [of _ ev1] exI [of _ ev]) (simp add: nth_append)
qed

abbreviation rows_of :: "'z world process \<Rightarrow> audit_row list" where
  "rows_of p \<equiv> audit_rows (bsWorld (prState p))"

text \<open>What a step of a thread makes of it, of the log and of the clock.\<close>

lemma advance_ok:
  assumes "AuditEnabled cfg" and "advance e cfg i k p = Some p'" and "prManager p \<in> M" and "thread_ok e cfg i M (rows_of p) (prThreads p ! k)"
  shows "grows (prState p) (prState p') \<and> thread_ok e cfg i M (rows_of p') (prThreads p' ! k)"
proof -
  have rc: "recording cfg" using assms(1) by unfold_locales
  have k: "k < length (prThreads p)" using advance_in_range [OF assms(2)] .
  show ?thesis
    using assms(2)
  proof (cases rule: advance_cases)
    case (failed r st)
    then show ?thesis using recording.new_id_outcome [OF rc failed(2)] k by (simp add: answer_ok_def writeError_def writeJSON_def)
  next
    case (started r st rid)
    then show ?thesis using recording.new_id_outcome [OF rc started(2)] k by (simp add: known_def new_context_def)
  next
    case (refused ck c resp st)
    then have "cRequestID c \<noteq> []" using assms(4) by (simp add: known_def)
    then show ?thesis using recording.check_outcome [OF rc refused(2)] k refused(3) by (simp add: answer_ok_def)
  next
    case (checked ck c c' st)
    then have n: "known e cfg M (rows_of p) (check_rank ck) c" using assms(4) by simp
    then have "grows (prState p) st" using recording.check_outcome [OF rc checked(2)] by (simp add: known_def)
    moreover have "known e cfg M (audit_rows (bsWorld st)) (min 5 (Suc (check_rank ck))) c'"
      using recording.check_known [OF rc checked(2) assms(3) n] .
    moreover have "min 5 (Suc (check_rank ck)) = (case next_check ck of Some ck' \<Rightarrow> check_rank ck' | None \<Rightarrow> 5)"
      by (cases ck) simp_all
    ultimately show ?thesis using k checked(3) by (cases "next_check ck") simp_all
  next
    case (flies c ph ph' st)
    then have n: "known e cfg M (rows_of p) 5 c" and b: "\<forall>b. ph = Keep b \<longrightarrow> from_issuer e i (context_profile c) (cCSRPEM c) b"
      using assms(4) by simp_all
    note o = recording.flight_world_outcome [OF rc flies(2) b]
    then have "thread_ok e cfg i M (audit_rows (bsWorld st)) (Leading c ph')" using n by simp
    then show ?thesis unfolding flies(3) using o k by simp
  next
    case (lands c ph r st)
    then have n: "known e cfg M (rows_of p) 5 c" and b: "\<forall>b. ph = Keep b \<longrightarrow> from_issuer e i (context_profile c) (cCSRPEM c) b"
      using assms(4) by simp_all
    note o = recording.flight_world_outcome [OF rc lands(2) b]
    then have "thread_ok e cfg i M (audit_rows (bsWorld st)) (Obtained c r)" using n by simp
    then show ?thesis unfolding lands(3) using o k by simp
  next
    case (settles c r resp st)
    then have n: "known e cfg M (rows_of p) 5 c" "\<forall>issued. r = Inr issued \<longrightarrow> sourced e i (key_text e i c) issued"
      using assms(4) by simp_all
    then have o: "grows (prState p) st \<and> (respStatus resp = 200 \<longrightarrow> (\<exists>issued. r = Inr issued
        \<and> resp = writeJSON 200 (issue_response_json (newIssueResponse issued))
        \<and> (fail_closed cfg \<longrightarrow> (\<exists>ev. result_event c issued ev \<and> audit_rows (bsWorld st) = rows_of p @ [insertAuditEventSQL ev]))))"
      using recording.settle_outcome [OF rc settles(2)] by (simp add: known_def)
    then obtain t where t: "audit_rows (bsWorld st) = rows_of p @ t" unfolding grows_def by blast
    have "known e cfg M (audit_rows (bsWorld st)) 5 c" unfolding t by (rule known_mono [OF n(1) order_refl])
    moreover have "audited_answer (audit_rows (bsWorld st)) c issued"
      if "fail_closed cfg" "result_event c issued ev" "audit_rows (bsWorld st) = rows_of p @ [insertAuditEventSQL ev]" for issued ev
      unfolding that(3) using audited_answerI n(1) that(1,2) by (auto simp: known_def)
    ultimately have "answer_ok e cfg i M (audit_rows (bsWorld st)) c resp" using o n(2) unfolding answer_ok_def by blast
    then show ?thesis using o k settles(3) by simp
  qed (use assms(4) k in simp_all)
qed

lemma advance_others:
  assumes "advance e cfg i k p = Some p'" and "j < length (prThreads p)" and "j \<noteq> k"
  obtains (same) "prThreads p' ! j = prThreads p ! j"
  | (delivered) c c' ph r where "prThreads p ! j = Waiting k c" "prThreads p' ! j = Obtained c r"
      "prThreads p ! k = Leading c' ph" "prThreads p' ! k = Obtained c' r"
  using assms(1)
proof (cases rule: advance_cases)
  case (lands c ph r st)
  show ?thesis
  proof (cases "\<exists>c'. prThreads p ! j = Waiting k c'")
    case True
    then show ?thesis using delivered lands assms(2,3) advance_in_range [OF assms(1)] by auto
  next
    case False
    then have "deliver k r (prThreads p ! j) = prThreads p ! j" by (intro deliver_unawaited) blast
    then show ?thesis using same lands assms(2,3) by simp
  qed
qed (use assms(3) same in auto)

lemma advance_length:
  assumes "advance e cfg i k p = Some p'"
  shows "length (prThreads p') = length (prThreads p)"
  using assms by (cases rule: advance_cases) simp_all

definition managers :: "'w process list \<Rightarrow> nat \<Rightarrow> manager set" where
  "managers ps k = prManager ` {q \<in> set ps. k < length (prThreads q)}"

lemma managers_snoc: "managers ps k \<subseteq> managers (ps @ [p]) k"
  by (auto simp: managers_def)

lemma execution_last: "execution e cfg i p0 ps p \<Longrightarrow> p \<in> set ps"
  by (cases rule: execution.cases) auto

lemma thread_ok_step:
  assumes "AuditEnabled cfg" and "advance e cfg i k p = Some p'" and "flights_ok e i p" and "p \<in> set ps"
    and "\<forall>j < length (prThreads p). thread_ok e cfg i (managers ps j) (rows_of p) (prThreads p ! j)" and "j < length (prThreads p)"
  shows "thread_ok e cfg i (managers ps j) (rows_of p') (prThreads p' ! j)"
proof -
  have k: "k < length (prThreads p)" using advance_in_range [OF assms(2)] .
  have "prManager p \<in> managers ps k" using assms(4) k by (auto simp: managers_def)
  then have own: "grows (prState p) (prState p')" "thread_ok e cfg i (managers ps k) (rows_of p') (prThreads p' ! k)"
    using advance_ok [OF assms(1,2)] assms(5) k by blast+
  then obtain t where t: "rows_of p' = rows_of p @ t" unfolding grows_def by blast
  show ?thesis
  proof (cases "j = k")
    case False
    have old: "thread_ok e cfg i (managers ps j) (rows_of p') (prThreads p ! j)"
      unfolding t using thread_ok_mono [OF _ order_refl] assms(5,6) by blast
    from assms(2,6) False show ?thesis
    proof (cases rule: advance_others)
      case same
      then show ?thesis using old by simp
    next
      case (delivered c c' ph r)
      then have "key_text e i c' = key_text e i c" using flights_ok_waiting [OF assms(3,6) delivered(1)] by simp
      then show ?thesis using own(2) old delivered by simp
    qed
  qed (use own(2) in simp)
qed

lemma execution_ok:
  assumes "execution e cfg i (initial pm lastMod st) ps p" and "AuditEnabled cfg"
  shows "\<forall>k < length (prThreads p). thread_ok e cfg i (managers ps k) (rows_of p) (prThreads p ! k)"
  using assms(1)
proof (induction rule: execution.induct)
  case begins
  show ?case by (simp add: initial_def)
next
  case (goes_on ps p p')
  have mono: "thread_ok e cfg i (managers (ps @ [p']) k) rows th" if "thread_ok e cfg i (managers ps k) rows th" for k rows th
    using thread_ok_mono [OF that managers_snoc, of _ "[]"] by simp
  from goes_on.hyps(2) show ?case
  proof (cases rule: process_step.cases)
    case (arrive r)
    then show ?thesis using goes_on.IH mono by (auto simp: nth_append less_Suc_eq)
  next
    case tick
    then show ?thesis using goes_on.IH mono by simp
  next
    case (thread k)
    show ?thesis
      using thread_ok_step [OF assms(2) thread flights_ok_execution [OF goes_on.hyps(1)] execution_last [OF goes_on.hyps(1)] goes_on.IH]
        mono advance_length [OF thread] by metis
  qed
qed

section \<open>The calls of the limiter\<close>

text \<open>Threads that are past the limiter, and the contexts of those that the limiter let through.\<close>

fun limited :: "thread \<Rightarrow> bool" where
  "limited (Arrived r) \<longleftrightarrow> False"
| "limited (Checking ck c) \<longleftrightarrow> False"
| "limited th \<longleftrightarrow> True"

fun counted :: "thread \<Rightarrow> request_context option" where
  "counted (Arrived r) = None"
| "counted (Checking ck c) = None"
| "counted (Admitted c) = Some c"
| "counted (Leading c ph) = Some c"
| "counted (Waiting l c) = Some c"
| "counted (Obtained c r) = Some c"
| "counted (Answered c resp) = (if respStatus resp = 200 then Some c else None)"

abbreviation limiter_past :: "int \<Rightarrow> int \<Rightarrow> call list \<Rightarrow> 'z world broker_state \<Rightarrow> bool" where
  "limiter_past \<equiv> handler_world.limiter_history wClock"

definition calls_ok :: "int \<Rightarrow> int \<Rightarrow> (nat \<times> call) list \<Rightarrow> 'z world process \<Rightarrow> bool" where
  "calls_ok a b gs p \<longleftrightarrow> limiter_past a b (map snd gs) (prState p) \<and> distinct (map fst gs)
     \<and> (\<forall>k \<in> fst ` set gs. k < length (prThreads p) \<and> limited (prThreads p ! k))
     \<and> (\<forall>k < length (prThreads p). \<forall>c. counted (prThreads p ! k) = Some c \<longrightarrow>
          (\<exists>t. (k, (t, cIdentity c, cProfileName c)) \<in> set gs))"

context recording
begin

lemmas past_mono = limiter_history_mono

lemmas past_step = limiter_history_step

lemma past_start: "bsLimiter st = New a b \<Longrightarrow> limiter_history a b [] st"
  unfolding limiter_history_def by (intro exI [of _ "[]"]) (simp add: clock_ok_def)

lemma past_windows: "limiter_history a b gs st \<Longrightarrow> in_windows a b gs"
  using run_inv unfolding limiter_history_def by blast

end

lemma advance_limits:
  assumes "AuditEnabled cfg" and "advance e cfg i k p = Some p'" and "thread_ok e cfg i M (rows_of p) (prThreads p ! k)"
    and "limiter_past a b gs (prState p)"
  obtains (uncounted) "limiter_past a b gs (prState p')" "\<forall>c. counted (prThreads p' ! k) = Some c \<longrightarrow> counted (prThreads p ! k) = Some c"
    "limited (prThreads p ! k) \<longrightarrow> limited (prThreads p' ! k)"
  | (counts) c t where "prThreads p ! k = Checking CkLimit c" "prThreads p' ! k = Admitted c"
      "limiter_past a b (gs @ [(t, cIdentity c, cProfileName c)]) (prState p')"
proof -
  have rc: "recording cfg" using assms(1) by unfold_locales
  have k: "k < length (prThreads p)" using advance_in_range [OF assms(2)] .
  note past = recording.past_mono [OF rc assms(4)]
  from assms(2) show ?thesis
  proof (cases rule: advance_cases)
    case (failed r st)
    show ?thesis
      using uncounted recording.new_id_outcome [OF rc failed(2)] past [of st] failed k by (simp add: grows_def writeError_def writeJSON_def)
  next
    case (started r st rid)
    show ?thesis using uncounted recording.new_id_outcome [OF rc started(2)] past [of st] started k by (simp add: grows_def)
  next
    case (refused ck c resp st)
    then have id: "cRequestID c \<noteq> []" using assms(3) by (simp add: known_def)
    note o = recording.check_outcome [OF rc refused(2) id]
    have "limiter_past a b gs st"
    proof (cases "ck = CkLimit")
      case True
      then obtain now err where l: "wClock (bsWorld (prState p)) \<le> now" "now \<le> wClock (bsWorld st)"
        "Allow now (cIdentity c) (cProfileName c) (bsLimiter (prState p)) = (err, bsLimiter st)" "err \<noteq> None"
        using recording.limit_outcome [OF rc, of e "prManager p" i c "prState p" "Inl resp" st] refused(2) by auto
      from recording.past_step [OF rc assms(4) l(1-3)] l(4) show ?thesis by simp
    next
      case False
      then show ?thesis using past [of st] o by (simp add: grows_def)
    qed
    then show ?thesis using uncounted o refused k by simp
  next
    case (checked ck c c' st)
    then have id: "cRequestID c \<noteq> []" using assms(3) by (simp add: known_def)
    show ?thesis
    proof (cases "ck = CkLimit")
      case True
      then obtain now where l: "wClock (bsWorld (prState p)) \<le> now" "now \<le> wClock (bsWorld st)"
        "Allow now (cIdentity c) (cProfileName c) (bsLimiter (prState p)) = (None, bsLimiter st)" "c' = c"
        using recording.limit_outcome [OF rc, of e "prManager p" i c "prState p" "Inr c'" st] checked(2) by auto
      from recording.past_step [OF rc assms(4) l(1-3)] counts [of c now] show ?thesis
        using checked True k l(4) by simp
    next
      case False
      then obtain ck' where "next_check ck = Some ck'" by (cases ck) simp_all
      then show ?thesis
        using uncounted recording.check_outcome [OF rc checked(2) id] past [of st] checked False k by (simp add: grows_def)
    qed
  next
    case (flies c ph ph' st)
    then have b: "\<forall>b. ph = Keep b \<longrightarrow> from_issuer e i (context_profile c) (cCSRPEM c) b" using assms(3) by simp
    show ?thesis using uncounted recording.flight_world_outcome [OF rc flies(2) b] past [of st] flies(1,3) k by (simp add: grows_def)
  next
    case (lands c ph r st)
    then have b: "\<forall>b. ph = Keep b \<longrightarrow> from_issuer e i (context_profile c) (cCSRPEM c) b" using assms(3) by simp
    show ?thesis using uncounted recording.flight_world_outcome [OF rc lands(2) b] past [of st] lands(1,3) k by (simp add: grows_def)
  next
    case (settles c r resp st)
    then have "cRequestID c \<noteq> []" using assms(3) by (simp add: known_def)
    then show ?thesis using uncounted recording.settle_outcome [OF rc settles(2)] past [of st] settles k by (simp add: grows_def)
  qed (use uncounted assms(4) k in simp_all)
qed

lemma counted_others:
  assumes "advance e cfg i k p = Some p'" and "j < length (prThreads p)" and "j \<noteq> k"
  shows "counted (prThreads p' ! j) = counted (prThreads p ! j) \<and> limited (prThreads p' ! j) = limited (prThreads p ! j)"
  using assms by (cases rule: advance_others) simp_all

lemma calls_ok_advance:
  assumes "AuditEnabled cfg" and "advance e cfg i k p = Some p'" and "thread_ok e cfg i M (rows_of p) (prThreads p ! k)"
    and ok: "calls_ok a b gs p"
  shows "\<exists>gs'. calls_ok a b gs' p'"
proof -
  have k: "k < length (prThreads p)" using advance_in_range [OF assms(2)] .
  have len: "length (prThreads p') = length (prThreads p)" using advance_length [OF assms(2)] .
  have past: "limiter_past a b (map snd gs) (prState p)" using ok by (simp add: calls_ok_def)
  have old: "\<exists>t. (j, (t, cIdentity c, cProfileName c)) \<in> set gs"
    if "j < length (prThreads p)" "counted (prThreads p ! j) = Some c" for j c
    using ok that by (simp add: calls_ok_def)
  have lim: "j < length (prThreads p) \<and> limited (prThreads p ! j)" if "j \<in> fst ` set gs" for j
    using ok that unfolding calls_ok_def by blast
  note others = counted_others [OF assms(2)]
  from assms(1-3) past show ?thesis
  proof (cases rule: advance_limits)
    case uncounted
    have "calls_ok a b gs p'"
      unfolding calls_ok_def
    proof (intro conjI ballI allI impI)
      fix j assume "j \<in> fst ` set gs"
      with lim uncounted(3) others [of j] show "j < length (prThreads p')" "limited (prThreads p' ! j)"
        by (cases "j = k"; simp add: len)+
    next
      fix j c assume "j < length (prThreads p')" "counted (prThreads p' ! j) = Some c"
      then show "\<exists>t. (j, (t, cIdentity c, cProfileName c)) \<in> set gs"
        using old uncounted(2) others [of j] by (cases "j = k") (auto simp: len)
    qed (use uncounted(1) ok in \<open>simp_all add: calls_ok_def\<close>)
    then show ?thesis by blast
  next
    case (counts c t)
    let ?gs = "gs @ [(k, (t, cIdentity c, cProfileName c))]"
    have new: "k \<notin> fst ` set gs" using lim [of k] counts(1) by auto
    have "calls_ok a b ?gs p'"
      unfolding calls_ok_def
    proof (intro conjI ballI allI impI)
      fix j assume "j \<in> fst ` set ?gs"
      then show "j < length (prThreads p')" "limited (prThreads p' ! j)"
        using lim [of j] counts(2) others [of j] k by (cases "j = k"; auto simp: len)+
    next
      fix j c' assume "j < length (prThreads p')" "counted (prThreads p' ! j) = Some c'"
      then show "\<exists>t. (j, (t, cIdentity c', cProfileName c')) \<in> set ?gs"
        using old [of j c'] counts(2) others [of j] by (cases "j = k") (auto simp: len)
    qed (use counts(3) new ok in \<open>simp_all add: calls_ok_def\<close>)
    then show ?thesis by blast
  qed
qed

lemma calls_ok_arrive: "calls_ok a b gs p \<Longrightarrow> calls_ok a b gs (p\<lparr>prThreads := prThreads p @ [Arrived r]\<rparr>)"
  by (auto simp: calls_ok_def nth_append less_Suc_eq)

lemma calls_ok_execution:
  assumes "execution e cfg i (initial pm lastMod st) ps p" and "AuditEnabled cfg" and "bsLimiter st = New a b"
  shows "\<exists>gs. calls_ok a b gs p"
  using assms(1)
proof (induction rule: execution.induct)
  case begins
  have "recording cfg" using assms(2) by unfold_locales
  then have "limiter_past a b [] st" using recording.past_start assms(3) by blast
  then have "calls_ok a b [] (initial pm lastMod st)" by (simp add: calls_ok_def initial_def)
  then show ?case by blast
next
  case (goes_on ps p p')
  then obtain gs where ok: "calls_ok a b gs p" by blast
  from goes_on.hyps(2) show ?case
  proof (cases rule: process_step.cases)
    case (arrive r)
    then show ?thesis using calls_ok_arrive [OF ok] by auto
  next
    case tick
    then have "calls_ok a b gs p'" using ok by (simp add: calls_ok_def)
    then show ?thesis by blast
  next
    case (thread k)
    then have "thread_ok e cfg i (managers ps k) (rows_of p) (prThreads p ! k)"
      using execution_ok [OF goes_on.hyps(1) assms(2)] advance_in_range by blast
    then show ?thesis using calls_ok_advance [OF assms(2) thread _ ok] by blast
  qed
qed

end
