(* ===== verification/Broker_Concurrent.thy ===== *)
theory Broker_Concurrent
  imports Broker_Interleaving
begin

text \<open>
  What the running broker guarantees, for every interleaving of its requests with each other and with
  reloads of the policy, and an execution that answers a request.
\<close>

section \<open>An example\<close>

text \<open>The broker of the example receives one request and handles it.\<close>

definition example_start :: "unit world process" where
  "example_start = initial example_manager 0 example_state"

definition example_arrived :: "unit world process" where
  "example_arrived = example_start\<lparr>prThreads := [Arrived example_http_request]\<rparr>"

abbreviation example_execution :: "unit world process list \<Rightarrow> unit world process \<Rightarrow> bool" where
  "example_execution \<equiv> execution example_env small_config small_acme (initial example_manager 0 example_state)"

lemma execution_own:
  assumes "(own_step e cfg i k)\<^sup>*\<^sup>* p q" and "execution e cfg i p0 ps p"
  shows "\<exists>qs. execution e cfg i p0 (ps @ qs) q"
  using assms
proof (induction rule: rtranclp_induct)
  case base
  then show ?case by (metis append_Nil2)
next
  case (step q q')
  then obtain qs where "execution e cfg i p0 (ps @ qs) q" by blast
  from goes_on [OF this process_step.thread [of e cfg i k q q']] step.hyps(2) show ?case by (metis append_assoc)
qed

lemma example_arrives: "example_execution [example_start, example_arrived] example_arrived"
proof -
  have "example_execution [example_start] example_start" unfolding example_start_def by (rule begins)
  from goes_on [OF this arrive [of _ _ _ _ example_http_request]] show ?thesis
    by (simp add: example_arrived_def example_start_def initial_def)
qed

lemma example_alone:
  "seFlight example_env = (\<lambda>key f w. f w)" "0 < length (prThreads example_arrived)"
  "prThreads example_arrived ! 0 = Arrived example_http_request" "prFlights example_arrived = []"
  "prManager example_arrived = example_manager" "prState example_arrived = example_state"
  by (simp_all add: example_env_def example_arrived_def example_start_def initial_def)

lemma example_answered:
  "\<exists>ps p c resp. example_execution ps p \<and> 0 < length (prThreads p) \<and> prThreads p ! 0 = Answered c resp \<and> respStatus resp = 200"
proof -
  obtain resp st' where I: "issueCertificate (production example_env small_config example_manager small_acme) example_http_request example_state
      = (resp, st')" by (cases "issueCertificate (production example_env small_config example_manager small_acme) example_http_request example_state")
  have "\<forall>th \<in> set (prThreads example_arrived). \<forall>c. th \<noteq> Waiting 0 c" by (simp add: example_arrived_def)
  from handler_as_thread [OF example_alone(1-4) this] I obtain c
    where "(own_step example_env small_config small_acme 0)\<^sup>*\<^sup>* example_arrived (put_thread 0 (Answered c resp) st' example_arrived)"
    unfolding example_alone(5,6) by blast
  from execution_own [OF this example_arrives] obtain ps where "example_execution ps (put_thread 0 (Answered c resp) st' example_arrived)"
    by blast
  moreover have "respStatus resp = 200" using example_served I by (simp add: example_server_def)
  ultimately show ?thesis using example_alone(2)
    by (intro exI [of _ ps] exI [of _ "put_thread 0 (Answered c resp) st' example_arrived"] exI [of _ c] exI [of _ resp]) simp
qed

section \<open>Properties\<close>

text \<open>
  C1: no certificate without a grant, under concurrency. In every execution, a request that was
  answered with a certificate was granted by a policy that was current at some moment since it arrived: it came
  with a valid client certificate, was well formed, and that policy gave the profile with exactly its
  names to that identity. With the failure mode \<^verbatim>\<open>fail_closed\<close> the audit log has its authorisation and,
  later, its result.
\<close>

theorem concurrent_issuance_requires_grant:
  assumes "AuditEnabled cfg" and "execution e cfg i (initial pm lastMod st) ps p" and "k < length (prThreads p)"
    and "prThreads p ! k = Answered c resp" and "respStatus resp = 200"
  shows "(\<exists>q \<in> set ps. k < length (prThreads q) \<and> (\<exists>now profile. granted (production e cfg (prManager q) i) (cRequest c) now profile c))
     \<and> (\<exists>issued. resp = writeJSON 200 (issue_response_json (newIssueResponse issued))
          \<and> (auFailureMode (bcAudit cfg) = ''fail_closed'' \<longrightarrow> audited_answer (rows_of p) c issued))"
proof -
  have ok: "answer_ok e cfg i (managers ps k) (rows_of p) c resp" using execution_ok [OF assms(2,1)] assms(3,4) by fastforce
  then have "known e cfg (managers ps k) (rows_of p) 5 c" using assms(5) by (simp add: answer_ok_def)
  from known_granted [OF this] obtain pm' now profile
    where "pm' \<in> managers ps k" "granted (production e cfg pm' i) (cRequest c) now profile c" by blast
  then have "\<exists>q \<in> set ps. k < length (prThreads q) \<and> (\<exists>now profile. granted (production e cfg (prManager q) i) (cRequest c) now profile c)"
    unfolding managers_def by blast
  then show ?thesis using ok assms(5) unfolding answer_ok_def by blast
qed

theorem concurrent_issuance_requires_grant_witness:
  "\<exists>ps p c resp q now profile. example_execution ps p \<and> prThreads p ! 0 = Answered c resp \<and> respStatus resp = 200
     \<and> q \<in> set ps \<and> granted (production example_env small_config (prManager q) small_acme) (cRequest c) now profile c"
proof -
  obtain ps p c resp where x: "example_execution ps p" "0 < length (prThreads p)" "prThreads p ! 0 = Answered c resp" "respStatus resp = 200"
    using example_answered by blast
  from concurrent_issuance_requires_grant [OF example_audits(1) x] x show ?thesis by blast
qed











end
