(* ===== verification/Commands.thy ===== *)
theory Commands
  imports Serve_Start
begin

text \<open>
  The commands of the broker that inspect it, \<^verbatim>\<open>cmd/broker/audit.go\<close>, \<^verbatim>\<open>certs.go\<close> and \<^verbatim>\<open>policy.go\<close>, and
  the choice of a logger by \<^verbatim>\<open>internal/logging\<close>. What they print is the standard output of the world.
\<close>

section \<open>The commands\<close>

datatype command_error =
    CommandError serve_error
  | CommandListing listing_error
  | CommandStore store_error
  | CommandEncode
  | PolicyFlagRequired
  | CommandPolicy load_error

definition runAuditTail :: "('c, 'z) serve_env \<Rightarrow> string \<Rightarrow> int \<Rightarrow> 'z world \<Rightarrow> command_error option \<times> 'z world" where
  "runAuditTail e configPath limit w =
     (case loadBrokerConfig e configPath w of
        (Inl err, w) \<Rightarrow> (Some (CommandError err), w)
      | (Inr cfg, w) \<Rightarrow>
     (case openBrokerStore (seCodec e) cfg w of
        (Inl err, w) \<Rightarrow> (Some (CommandError err), w)
      | (Inr st, w) \<Rightarrow> (case bstWriteAudit st limit w of (err, w) \<Rightarrow> (map_option CommandListing err, w))))"

text \<open>\<open>enc\<close> is the indented JSON text of the list of entries, a value of \<^verbatim>\<open>encoding/json\<close>.\<close>

definition runCertsList ::
  "(cache_entry list \<Rightarrow> string) \<Rightarrow> ('c, 'z) serve_env \<Rightarrow> string \<Rightarrow> 'z world \<Rightarrow> command_error option \<times> 'z world" where
  "runCertsList enc e configPath w =
     (case loadBrokerConfig e configPath w of
        (Inl err, w) \<Rightarrow> (Some (CommandError err), w)
      | (Inr cfg, w) \<Rightarrow>
     (case openBrokerStore (seCodec e) cfg w of
        (Inl err, w) \<Rightarrow> (Some (CommandError err), w)
      | (Inr st, w) \<Rightarrow>
     (case bstList st w of
        (Inl err, w) \<Rightarrow> (Some (CommandStore err), w)
      | (Inr entries, w) \<Rightarrow>
          (case stdout_write (enc entries @ [CHR 0x0A]) w of (ok, w) \<Rightarrow> (if ok then None else Some CommandEncode, w)))))"

definition policy_report :: "compiled_policy \<Rightarrow> string" where
  "policy_report p = ''policy ok: hash='' @ polHash p @ '' profiles='' @ decimal (length (polProfiles p))
     @ '' identities='' @ decimal (length (HostsByIdentity p)) @ [CHR 0x0A]"

definition runPolicyValidate :: "('c, 'z) serve_env \<Rightarrow> string \<Rightarrow> 'z world \<Rightarrow> command_error option \<times> 'z world" where
  "runPolicyValidate e policyPath w =
     (if policyPath = [] then (Some PolicyFlagRequired, w)
      else case timed (\<lambda>now. on_sys (on_os (Load (seCrypto e) (sePolicy e) now policyPath))) w of
        (Inl err, w) \<Rightarrow> (Some (CommandPolicy err), w)
      | (Inr compiled, w) \<Rightarrow> (None, snd (stdout_write (policy_report compiled) w)))"

section \<open>The logger\<close>

datatype log_level = LevelDebug | LevelInfo | LevelWarn | LevelError

datatype log_format = TextHandler | JSONHandler

datatype log_writer = Stdout | Stderr

record logger =
  lgLevel :: log_level
  lgFormat :: log_format
  lgWriter :: log_writer

definition logging_New :: "logging_config \<Rightarrow> logger" where
  "logging_New cfg =
     (let l = ToLower (logLevel cfg) in
      \<lparr>lgLevel = (if l = ''debug'' then LevelDebug else if l = ''warn'' then LevelWarn else if l = ''error'' then LevelError else LevelInfo),
       lgFormat = (if logFormat cfg = ''text'' then TextHandler else JSONHandler),
       lgWriter = (if logDestination cfg = ''stderr'' then Stderr else Stdout)\<rparr>)"

text \<open>The name that a configuration gives to each choice.\<close>

fun level_name :: "log_level \<Rightarrow> string" where
  "level_name LevelDebug = ''debug''"
| "level_name LevelInfo = ''info''"
| "level_name LevelWarn = ''warn''"
| "level_name LevelError = ''error''"

fun format_name :: "log_format \<Rightarrow> string" where
  "format_name TextHandler = ''text''"
| "format_name JSONHandler = ''json''"

fun writer_name :: "log_writer \<Rightarrow> string" where
  "writer_name Stdout = ''stdout''"
| "writer_name Stderr = ''stderr''"

text \<open>A validated configuration gets exactly the logger it names.\<close>

lemma logger_as_configured:
  assumes "Logging_Validate cfg = None"
  shows "level_name (lgLevel (logging_New cfg)) = logLevel cfg \<and> format_name (lgFormat (logging_New cfg)) = logFormat cfg
     \<and> writer_name (lgWriter (logging_New cfg)) = logDestination cfg"
proof -
  have v: "logLevel cfg \<in> {''debug'', ''info'', ''warn'', ''error''}" "logFormat cfg \<in> {''text'', ''json''}"
    "logDestination cfg \<in> {''stdout'', ''stderr''}"
    using assms by (auto simp: Logging_Validate_def join_errors_def split: if_splits)
  have "ToLower ''debug'' = ''debug''" "ToLower ''info'' = ''info''" "ToLower ''warn'' = ''warn''" "ToLower ''error'' = ''error''"
    by code_simp+
  then show ?thesis using v by (auto simp: logging_New_def Let_def)
qed

section \<open>What the commands leave alone\<close>

definition same_records :: "'z world \<Rightarrow> 'z world \<Rightarrow> bool" where
  "same_records w w' \<longleftrightarrow> db_cache (wDb w') = db_cache (wDb w) \<and> db_audit (wDb w') = db_audit (wDb w)
     \<and> files (sysOs (wSys w')) = files (sysOs (wSys w))"

lemma same_records_refl [simp]: "same_records w w"
  by (simp add: same_records_def)

lemma same_records_trans: "same_records w w' \<Longrightarrow> same_records w' w'' \<Longrightarrow> same_records w w''"
  by (simp add: same_records_def)

lemma migrations_loop_rows: "migrations_loop ms s = (r, s') \<Longrightarrow> same_rows s s'"
proof (induction ms arbitrary: s)
  case (Cons m ms)
  obtain a s1 where 1: "migrationAlreadyApplied (migVersion m) s = (a, s1)" by (cases "migrationAlreadyApplied (migVersion m) s")
  obtain ok s2 where 2: "db_script (migSQL m) s1 = (ok, s2)" by (cases "db_script (migSQL m) s1")
  have "same_rows s s1" using 1 by (auto simp: migrationAlreadyApplied_def split: if_splits)
  moreover have "same_rows s1 s2" using db_script_keeps [OF 2] by simp
  ultimately show ?case
    using Cons.prems Cons.IH 1 2 by (auto simp: db_exec_def db_tick_def split: option.splits bool.splits if_splits)
qed simp

lemma migrate_rows:
  assumes "migrate s = (r, s')"
  shows "same_rows s s'"
proof -
  obtain ok s1 where 1: "ensureMigrationTable (db_tick s) = (ok, s1)" by (cases "ensureMigrationTable (db_tick s)")
  obtain e s2 where 2: "migrations_loop sqliteMigrations s1 = (e, s2)" by (cases "migrations_loop sqliteMigrations s1")
  have "same_rows s s1" using db_script_keeps [OF 1 [unfolded ensureMigrationTable_def]] by simp
  moreover have "same_rows s1 s2" using migrations_loop_rows [OF 2] .
  ultimately show ?thesis
    using assms 1 2 by (auto simp: migrate_def db_exec_def rollback_def split: if_splits bool.splits option.splits)
qed

lemma reads_keep_files: "os_ReadFile path s = (r, s') \<Longrightarrow> files s' = files s"
  by (auto simp: os_ReadFile_def split: if_splits option.splits)

lemma load_keeps:
  assumes "loadBrokerConfig e path w = (r, w')"
  shows "same_records w w' \<and> wOut w' = wOut w"
  using assms reads_keep_files
  by (auto simp: loadBrokerConfig_def on_sys_def on_os_def LoadBroker_def loadYAML_def Let_def same_records_def
      split: if_splits prod.splits sum.splits)

lemma open_keeps:
  assumes "openBrokerStore c cfg w = (r, w')"
  shows "same_records w w' \<and> wOut w' = wOut w"
proof -
  have "files s' = files s" if "os_call s = (b, s')" for s b s' using that by (auto simp: os_call_def split: if_splits)
  then show ?thesis
    using assms migrate_rows
    by (auto simp: openBrokerStore_def NewSQLiteStore_def on_sys_def on_os_def on_db_def db_exec_def Let_def same_records_def
        split: if_splits prod.splits bool.splits option.splits)
qed

lemma stdout_keeps: "stdout_write data w = (ok, w') \<Longrightarrow> same_records w w' \<and> wDb w' = wDb w \<and> wSys w' = wSys w"
  by (auto simp: stdout_write_def same_records_def split: if_splits)

lemma encode_events_keeps:
  "encode_events stdout_write es w = (r, w') \<Longrightarrow>
     wDb w' = wDb w \<and> wSys w' = wSys w \<and> (r = None \<longrightarrow> wOut w' = wOut w @ concat (map line_or_empty es))"
proof (induction es arbitrary: w)
  case (Cons ev es)
  show ?case
  proof (cases "event_line ev")
    case None
    then show ?thesis using Cons.prems by (auto simp: JSONLRecorder_Record_def)
  next
    case (Some line)
    obtain ok w1 where 1: "stdout_write line w = (ok, w1)" by (cases "stdout_write line w")
    then have k: "wDb w1 = wDb w" "wSys w1 = wSys w" "ok \<longrightarrow> wOut w1 = wOut w @ line" by (auto simp: stdout_write_def split: if_splits)
    show ?thesis
      using Cons.prems Some 1 k Cons.IH [of w1]
      by (cases ok) (auto simp: JSONLRecorder_Record_def line_or_empty_def)
  qed
qed simp

lemma write_lines_keeps: "write_lines stdout_write ls w = (r, w') \<Longrightarrow> wDb w' = wDb w \<and> wSys w' = wSys w"
proof (induction ls arbitrary: w)
  case (Cons l ls)
  obtain ok w1 where 1: "stdout_write (l @ [CHR 0x0A]) w = (ok, w1)" by (cases "stdout_write (l @ [CHR 0x0A]) w")
  show ?case using Cons.prems 1 stdout_keeps [OF 1] Cons.IH [of w1] by (cases ok) auto
qed simp

lemma listing_rows: "listAuditEvents limit d = (r, d') \<Longrightarrow> db_cache d' = db_cache d \<and> db_audit d' = db_audit d"
  by (auto simp: listAuditEvents_def split: if_splits)

text \<open>Stores that the broker opens: reading them leaves the records alone.\<close>

lemma write_audit_keeps:
  assumes "openBrokerStore c cfg w = (Inr st, w1)" and "bstWriteAudit st limit w1 = (r, w2)"
  shows "same_records w1 w2"
proof -
  consider "st = sqlite_store" | path where "st = file_store c path"
    using assms(1) by (auto simp: openBrokerStore_def NewSQLiteStore_def Let_def split: if_splits prod.splits bool.splits option.splits)
  then show ?thesis
  proof cases
    case 1
    obtain x d where x: "listAuditEvents limit (wDb w1) = (x, d)" by (cases "listAuditEvents limit (wDb w1)")
    show ?thesis
    proof (cases x)
      case (Inl err)
      then show ?thesis using assms(2) 1 x listing_rows [OF x] by (auto simp: sqlite_store_def WriteAuditEvents_def same_records_def)
    next
      case (Inr evs)
      obtain y w' where y: "encode_events stdout_write evs w1 = (y, w')" by (cases "encode_events stdout_write evs w1")
      then have "w2 = w'\<lparr>wDb := d\<rparr>" using assms(2) 1 x Inr by (simp add: sqlite_store_def WriteAuditEvents_def)
      then show ?thesis using listing_rows [OF x] encode_events_keeps [OF y] by (simp add: same_records_def)
    qed
  next
    case (2 path)
    obtain x s where x: "os_ReadFile (path @ ''.audit.jsonl'') (sysOs (wSys w1)) = (x, s)"
      by (cases "os_ReadFile (path @ ''.audit.jsonl'') (sysOs (wSys w1))")
    then show ?thesis
      using assms(2) 2 reads_keep_files [OF x] write_lines_keeps
      by (fastforce simp: file_store_def FileStore_WriteAuditEvents_def same_records_def Let_def
          split: prod.splits sum.splits option.splits if_splits)
  qed
qed

lemma list_keeps:
  assumes "openBrokerStore c cfg w = (Inr st, w1)" and "bstList st w1 = (r, w2)"
  shows "same_records w1 w2"
proof -
  consider "st = sqlite_store" | path where "st = file_store c path"
    using assms(1) by (auto simp: openBrokerStore_def NewSQLiteStore_def Let_def split: if_splits prod.splits bool.splits option.splits)
  then show ?thesis
  proof cases
    case 1
    then show ?thesis
      using assms(2) by (auto simp: sqlite_store_def on_db_def SQLiteStore_List_def same_records_def db_tick_def split: prod.splits)
  next
    case (2 path)
    then show ?thesis
      using assms(2) reads_keep_files
      by (auto simp: file_store_def on_sys_def on_os_def FileStore_List_def loadLocked_def same_records_def
          split: prod.splits sum.splits option.splits if_splits)
  qed
qed

section \<open>Properties\<close>



text \<open>
  What \<^verbatim>\<open>policy validate\<close> says: it succeeds exactly when the file can be read, decoded and compiled, and prints
  a report of the compiled policy; the broker would start with that policy.
\<close>

lemma policy_validate_decides:
  assumes "runPolicyValidate e path w = (r, w')" and "\<not> wOutFault w (wOutCalls w)"
  shows "(r = None) = (path \<noteq> [] \<and> is_ok (fst (timed (\<lambda>now. on_sys (on_os (Load (seCrypto e) (sePolicy e) now path))) w)))
     \<and> (r = None \<longrightarrow> (\<exists>p. loaded_from (seCrypto e) (sePolicy e) p \<and> wOut w' = wOut w @ policy_report p))
     \<and> (r \<noteq> None \<longrightarrow> wOut w' = wOut w)"
proof -
  obtain now w1 where 1: "world_now w = (now, w1)" by (cases "world_now w")
  obtain x s where x: "Load (seCrypto e) (sePolicy e) now path (sysOs (wSys w1)) = (x, s)"
    by (cases "Load (seCrypto e) (sePolicy e) now path (sysOs (wSys w1))")
  have o: "wOut w1 = wOut w" "wOutFault w1 = wOutFault w" "wOutCalls w1 = wOutCalls w" using 1 by (auto simp: world_now_def Let_def)
  have "loaded_from (seCrypto e) (sePolicy e) p" if "x = Inr p" for p
    using x that Load_Inr unfolding loaded_from_def by blast
  then show ?thesis
    using assms x 1 o
    by (cases x) (auto simp: runPolicyValidate_def timed_def on_sys_def on_os_def is_ok_def stdout_write_def split: if_splits)
qed

end
