(* ===== verification/Spec2Isabelle.thy ===== *)
theory Spec2Isabelle
  imports Policy_Meaning End_to_End Broker_Concurrent Commands
begin

text \<open>
  Certplane issues TLS certificates to the hosts of an organisation. An agent on each host holds an
  identity certificate from a step-ca authority and asks the broker, over mutual TLS, for service
  certificates. The broker decides by a policy file, limits the rate, keeps an audit log, orders from an
  ACME server with a DNS-01 challenge and caches what it got. This development models the Go code of
  both programs and proves what they guarantee.

  \<^bold>\<open>The theories and the code.\<close>
  \<^item> \<^verbatim>\<open>Prelude\<close>: results, strings as lists of bytes, Go maps as association lists with the locale
    \<open>string_dict\<close>, \<^verbatim>\<open>strings.ToLower\<close>, \<^verbatim>\<open>TrimSpace\<close> and the like. \<^verbatim>\<open>Go_Time\<close>: instants in nanoseconds,
    durations, RFC 3339. \<^verbatim>\<open>Go_Json\<close>: the JSON texts of \<^verbatim>\<open>encoding/json\<close> and a reader for them. \<^verbatim>\<open>X509\<close>: the
    record of the operations of \<^verbatim>\<open>crypto\<close> and \<^verbatim>\<open>encoding/pem\<close>. \<^verbatim>\<open>Os\<close>: files, with a fault at any call.
  \<^item> \<^verbatim>\<open>Dnsname\<close>: \<^verbatim>\<open>internal/dnsname\<close>. \<^verbatim>\<open>Pki\<close>: \<^verbatim>\<open>internal/pki\<close>. \<^verbatim>\<open>Fileutil\<close>: \<^verbatim>\<open>internal/fileutil\<close> (atomic
    replacement, lock files).
  \<^item> \<^verbatim>\<open>Policy\<close>: \<^verbatim>\<open>internal/broker/policy\<close> (types, compilation, hashes, authorisation); \<^verbatim>\<open>Policy_Meaning\<close>: what a
    configuration means, read declaratively, and that the compiled policy decides so; \<^verbatim>\<open>Policy_Manager\<close>: loading and
    reloading.
  \<^item> \<^verbatim>\<open>Ratelimit\<close>: \<^verbatim>\<open>internal/broker/ratelimit\<close>. \<^verbatim>\<open>Audit_Log\<close>: \<^verbatim>\<open>internal/broker/audit\<close> (events and recorders). \<^verbatim>\<open>Store\<close>:
    the file store; \<^verbatim>\<open>Sqlite_Schema\<close> and \<^verbatim>\<open>Sqlite\<close>: the tables, statements and migrations of the SQLite
    store, all of \<^verbatim>\<open>internal/broker/store\<close>.
  \<^item> \<^verbatim>\<open>Config\<close>: \<^verbatim>\<open>config\<close>. \<^verbatim>\<open>Secrets\<close>: \<^verbatim>\<open>internal/secrets\<close>. \<^verbatim>\<open>Acme\<close>: \<^verbatim>\<open>internal/broker/issuer/acme\<close>. \<^verbatim>\<open>Authn\<close>:
    \<^verbatim>\<open>internal/broker/authn\<close>. \<^verbatim>\<open>Stepca\<close>: \<^verbatim>\<open>internal/ca\<close> with its step-ca provider.
  \<^item> \<^verbatim>\<open>Broker\<close>: the handler \<^verbatim>\<open>issueCertificate\<close> of \<^verbatim>\<open>internal/broker\<close>, one definition for each of its steps;
    \<^verbatim>\<open>Serve\<close>: \<^verbatim>\<open>internal/broker/http.go\<close> and \<^verbatim>\<open>cmd/broker\<close>, which put the server together; \<^verbatim>\<open>Broker_Process\<close>: the
    running broker, its requests handled by threads that interleave; \<^verbatim>\<open>Commands\<close>: the commands that inspect a
    broker, and \<^verbatim>\<open>internal/logging\<close>.
  \<^item> \<^verbatim>\<open>Agent\<close>: \<^verbatim>\<open>internal/agent\<close> and \<^verbatim>\<open>cmd/agent\<close>: the client of the broker, runs, renewal, enrolment, the check
    command.
  \<^item> \<^verbatim>\<open>Broker_Safety\<close>, \<^verbatim>\<open>Serve_Safety\<close>, \<^verbatim>\<open>Serve_Start\<close>, \<^verbatim>\<open>Broker_Progress\<close>, \<^verbatim>\<open>Broker_Interleaving\<close> and
    \<^verbatim>\<open>Broker_Concurrent\<close> are about the broker, \<^verbatim>\<open>Agent_Safety\<close>, \<^verbatim>\<open>Agent_Run\<close> and \<^verbatim>\<open>Agent_Guarantees\<close> about the
    agent, \<^verbatim>\<open>End_to_End\<close> and this theory about how the parts act together.

  \<^bold>\<open>How the code is represented.\<close> A struct is a record, an error a value of a datatype, a handler a function from
  the state to its result and the new state. The names are those of the code, with a prefix or an
  underscore where a name is taken. The state of the broker is \<open>broker_state\<close>: the limiter and the world, which is
  the disk, the environment and what the issuer reaches (\<open>wSys\<close>), the database, the clock, the source of
  identifiers and standard output. Each call into the outside may fail: a schedule of faults is part of
  the state and every theorem holds for all of them. Integers of the code never come near their bounds and are
  \<open>int\<close> or \<open>nat\<close>; lengths that matter (64 kB bodies and lines, 2 MB responses) are written out. A loop of
  the code is a recursion over the data; \<open>checks_from\<close> and \<open>fly\<close> end by a measure. There is no fuel, so every
  operation is total; that the threads of the broker come to an end is a theorem.

  \<^bold>\<open>Parameters.\<close> Third-party code is an argument: \<open>crypto\<close> (parsing, encoding, signing), the YAML decoders, the
  \<^verbatim>\<open>lego\<close>, step-ca and Vault clients, the HTTP transport, the JSON decoders of requests and responses, the
  shell. Where a property needs what they document, it says so: \<open>request_roundtrip\<close> and \<open>key_roundtrip\<close>
  (what was encoded is parsed back), \<open>reads_requests\<close> and \<open>reads_responses\<close> (JSON is read as it was
  written, for UTF-8 texts), \<open>carries\<close> (an answer is the handler's, to the certificate that was presented),
  \<open>shell_keeps\<close> (a reload command leaves the agent's own files alone) and \<open>singleflight\<close> (a call runs or shares the
  result of a call with the same key). Each has a witness with concrete functions. SHA-256 may collide; the property
  about hashes names the collision.

  \<^bold>\<open>Interfaces.\<close> The locales state what one part relies on in another: \<open>string_dict\<close> for maps, \<open>json_value\<close> for encodings
  that can be read back, \<open>certificate_store\<close> and \<open>audit_sink\<close> for the
  stores and recorders, \<open>secret_source\<close> and \<open>bundle_issuer\<close> for secrets and issuer, \<open>handler_world\<close> for what the handler needs
  of clock, store, issuer and recorder, \<open>broker_world\<close> with \<^verbatim>\<open>singleflight\<close> in addition, \<open>recording\<close> and
  \<open>serving\<close> for the broker in production, \<open>identity_authority\<close> for the agent. All are interpreted on the definitions of the model.

  \<^bold>\<open>What is shown of the broker.\<close> \<open>Broker_Process\<close> gives the running broker as a step relation: a request
  arrives, the watcher ticks, or a thread goes on from one access to shared state to the next. Calls
  with the same key join the one in flight, as \<^verbatim>\<open>singleflight\<close> documents. For every execution: no certificate
  leaves without a grant of a policy current since the request arrived and, with \<^verbatim>\<open>fail_closed\<close>, without
  authorisation and result in the audit log; it comes from the cache or the issuer under the key of the
  request; the limits hold in every hour; at most one thread orders for a key; every request is answered
  after at most twelve steps, without deadlock; and a thread that is left alone computes \<open>issueCertificate\<close>.
  For the sequential handler the same is shown with \<^verbatim>\<open>singleflight\<close> as a parameter, and that a healthy broker
  serves every granted request. Underneath: compiled policies decide as the configuration reads; the limiter is a
  sliding window; the stores return what was put and list what was recorded; migrations apply whole or not at all
  and give the tables that the statements need; configurations that load satisfy what the rest relies on.

  \<^bold>\<open>What is shown of the agent.\<close> In every state of the disk during a run a service certificate is the old one or
  one that was checked against its key and names; an enrolment spends its token last; after a successful
  run the check command succeeds. With the broker: a certificate that the agent accepts carries exactly the names
  that the broker's policy lists, and the client reads what the broker wrote.

  \<^bold>\<open>Not modelled.\<close> The wiring of \<^verbatim>\<open>cobra\<close> (\<^verbatim>\<open>main.go\<close>, \<^verbatim>\<open>root.go\<close>), log output, cancellation of contexts, shutdown of the
  HTTP server, closing of files and databases beyond the errors it may return, and TLS itself. The watcher is modelled
  by its ticks. Two processes writing one file store at the same time, and the agent beside other programs on its
  disk, are outside the model, except for the lock that agents take.
\<close>

section \<open>Properties\<close>

text \<open>
  C2: no certificate without a grant. Whenever the broker answers with a certificate, or the cache or
  anything the issuer reaches (its account, the ACME server, the DNS provider) has changed, the
  request came with a valid client certificate, its body and its certificate request were well formed, the
  current policy granted the profile with exactly those names to that identity, and the rate
  limiter allowed it; with the failure mode \<^verbatim>\<open>fail_closed\<close> the authorisation is in the audit log.
\<close>

theorem issuance_requires_grant:
  assumes "AuditEnabled cfg" and "singleflight (production e cfg pm i)"
    and "issueCertificate (production e cfg pm i) r st = (resp, st')"
    and "respStatus resp = 200 \<or> backend_of (bsWorld st') \<noteq> backend_of (bsWorld st)"
  shows "\<exists>now t profile c. granted (production e cfg pm i) r now profile c
     \<and> Allow t (cIdentity c) (cProfileName c) (bsLimiter st) = (None, bsLimiter st')
     \<and> (auFailureMode (bcAudit cfg) = ''fail_closed'' \<longrightarrow>
          (\<exists>t1 ev t2. event_about c EventCertificateAuthorized ev
             \<and> audit_rows (bsWorld st') = audit_rows (bsWorld st) @ t1 @ [insertAuditEventSQL ev] @ t2))"
proof -
  have "serving e cfg pm i" using assms(1,2) by unfold_locales
  then show ?thesis using serving.grant assms(3,4) by blast
qed

theorem issuance_requires_grant_witness:
  "\<exists>now t profile c. granted example_server example_http_request now profile c
     \<and> fst (Allow t (cIdentity c) (cProfileName c) (New 50 3)) = None"
proof -
  obtain resp st' where I: "issueCertificate example_server example_http_request example_state = (resp, st')"
    by (cases "issueCertificate example_server example_http_request example_state")
  then have "respStatus resp = 200" using example_served by simp
  then have "\<exists>now t profile c. granted example_server example_http_request now profile c
     \<and> Allow t (cIdentity c) (cProfileName c) (bsLimiter example_state) = (None, bsLimiter st')"
    using issuance_requires_grant [OF example_audits(1), of example_env example_manager small_acme example_http_request example_state resp st']
      I example_singleflight unfolding example_server_def by blast
  then show ?thesis by (simp add: example_state_def) (metis fst_conv)
qed

text \<open>
  C3: with the failure mode \<^verbatim>\<open>fail_closed\<close> every certificate that the broker hands out is in the audit
  log, twice and in order: the authorisation before it was obtained, and afterwards its result, with
  the serial number, the end of validity and the origin of the certificate in the response.
\<close>

theorem fail_closed_audits:
  assumes "AuditEnabled cfg" and "singleflight (production e cfg pm i)" and "auFailureMode (bcAudit cfg) = ''fail_closed''"
    and "issueCertificate (production e cfg pm i) r st = (resp, st')" and "respStatus resp = 200"
  shows "\<exists>now profile c issued t1 ev1 t2 ev2. granted (production e cfg pm i) r now profile c
     \<and> resp = writeJSON 200 (issue_response_json (newIssueResponse issued))
     \<and> event_about c EventCertificateAuthorized ev1 \<and> result_event c issued ev2
     \<and> audit_rows (bsWorld st') = audit_rows (bsWorld st) @ t1 @ [insertAuditEventSQL ev1] @ t2 @ [insertAuditEventSQL ev2]"
proof -
  have "serving e cfg pm i" using assms(1,2) by unfold_locales
  then show ?thesis using serving.audited [OF _ assms(4,5,3)] by blast
qed

theorem fail_closed_audits_witness:
  "\<exists>c issued t1 ev1 t2 ev2. event_about c EventCertificateAuthorized ev1 \<and> result_event c issued ev2
     \<and> audit_rows (bsWorld (snd (issueCertificate example_server example_http_request example_state)))
       = t1 @ [insertAuditEventSQL ev1] @ t2 @ [insertAuditEventSQL ev2]"
proof -
  obtain resp st' where I: "issueCertificate example_server example_http_request example_state = (resp, st')"
    by (cases "issueCertificate example_server example_http_request example_state")
  then have "respStatus resp = 200" using example_served by simp
  then obtain c issued t1 ev1 t2 ev2 where a: "event_about c EventCertificateAuthorized ev1" "result_event c issued ev2"
    "audit_rows (bsWorld st') = audit_rows (bsWorld example_state) @ t1 @ [insertAuditEventSQL ev1] @ t2 @ [insertAuditEventSQL ev2]"
    using fail_closed_audits [OF example_audits(1) example_singleflight [unfolded example_server_def] example_closed
        I [unfolded example_server_def]] by blast
  moreover have "audit_rows (bsWorld example_state) = []" by (simp add: example_state_def example_world_def example_db_def)
  ultimately have "event_about c EventCertificateAuthorized ev1 \<and> result_event c issued ev2
     \<and> audit_rows (bsWorld st') = t1 @ [insertAuditEventSQL ev1] @ t2 @ [insertAuditEventSQL ev2]" by simp
  then show ?thesis unfolding I snd_conv by blast
qed

text \<open>
  Where a certificate comes from. It was found in the cache under the key of the request
  (identity, profile, hash of the profile, issuer, account and public key of the request), with
  more validity left than the renewal margin of the profile, or the issuer delivered it in answer to an
  order for the names of the profile, parsed and consistent. A request that joined another one in
  flight shares the result of a request with the same key.
\<close>

theorem served_certificate_source:
  assumes "AuditEnabled cfg" and "singleflight (production e cfg pm i)"
    and "issueCertificate (production e cfg pm i) r st = (resp, st')" and "respStatus resp = 200"
  shows "\<exists>now profile c issued key profile' csrPEM. granted (production e cfg pm i) r now profile c
     \<and> resp = writeJSON 200 (issue_response_json (newIssueResponse issued))
     \<and> CertificateCacheKey_String key = CertificateCacheKey_String (request_key (production e cfg pm i) c profile)
     \<and> (nul_free key \<and> nul_free (request_key (production e cfg pm i) c profile)
          \<longrightarrow> key = request_key (production e cfg pm i) c profile)
     \<and> (irCache issued = ''hit'' \<and> from_cache key profile' (irBundle issued)
        \<or> irCache issued = ''miss'' \<and> from_issuer e i profile' csrPEM (irBundle issued)
            \<and> consistent_bundle (seCrypto e) (irBundle issued))"
proof -
  have "serving e cfg pm i" using assms(1,2) by unfold_locales
  then show ?thesis using serving.source [OF _ assms(3,4)] by blast
qed

theorem served_certificate_source_witness:
  "\<exists>key profile issued. (irCache issued = ''hit'' \<and> from_cache key profile (irBundle issued)
     \<or> irCache issued = ''miss'' \<and> consistent_bundle example_crypto (irBundle issued))
     \<and> fst (issueCertificate example_server example_http_request example_state)
       = writeJSON 200 (issue_response_json (newIssueResponse issued))"
proof -
  obtain resp st' where I: "issueCertificate example_server example_http_request example_state = (resp, st')"
    by (cases "issueCertificate example_server example_http_request example_state")
  then have "respStatus resp = 200" using example_served by simp
  then obtain issued key profile' where a: "resp = writeJSON 200 (issue_response_json (newIssueResponse issued))"
    "irCache issued = ''hit'' \<and> from_cache key profile' (irBundle issued)
      \<or> irCache issued = ''miss'' \<and> consistent_bundle (seCrypto example_env) (irBundle issued)"
    using served_certificate_source [OF example_audits(1) example_singleflight [unfolded example_server_def]
        I [unfolded example_server_def]] by blast
  moreover have "seCrypto example_env = example_crypto" by (simp add: example_env_def)
  ultimately show ?thesis unfolding I fst_conv by metis
qed

text \<open>
  Whatever sequence of requests the broker receives, and from whom, it hands out certificates
  only for calls that its limiter granted, at most one call each, under the identity of the client
  certificate, and in no window of an hour more than the limits for an identity and for an
  identity and a profile.
\<close>

theorem broker_bounds_issuance:
  assumes "AuditEnabled cfg" and "singleflight (production e cfg pm i)"
    and "handle_all (production e cfg pm i) reqs \<lparr>bsLimiter = New a b, bsWorld = w\<rparr> = (resps, st')"
  shows "\<exists>calls. in_windows a b (concat calls) \<and> length calls = length reqs \<and> length resps = length reqs
     \<and> (\<forall>k < length reqs. calls ! k = [] \<and> respStatus (resps ! k) \<noteq> 200
          \<or> (\<exists>t now i p. calls ! k = [(t, i, p)] \<and> IdentityFromRequest now (reqs ! k) = Inr i))"
proof -
  have "serving e cfg pm i" using assms(1,2) by unfold_locales
  then show ?thesis using serving.windows [OF _ assms(3)] by blast
qed

theorem broker_bounds_issuance_witness:
  "\<exists>calls. in_windows 50 3 (concat calls)
     \<and> length calls = length (fst (handle_all example_server [example_http_request, example_http_request] example_state))"
proof -
  let ?reqs = "[example_http_request, example_http_request]"
  obtain resps st' where H: "handle_all example_server ?reqs example_state = (resps, st')"
    by (cases "handle_all example_server ?reqs example_state")
  show ?thesis
    using broker_bounds_issuance [OF example_audits(1) example_singleflight [unfolded example_server_def],
        of ?reqs 50 3 example_world resps st'] H
    unfolding example_server_def example_state_def by auto
qed





end
